(* ===== verification/Prelude.thy ===== *)
theory Prelude
  imports Main "HOL-Library.Word" "HOL-Library.Multiset"
begin

text \<open>
  Shared vocabulary of the development: the machine types of the Rust sources, the outcome of
  an asynchronous handler, checked arithmetic, and generic facts on lists, multisets and words.

  \<^item> \<open>U256\<close> of the \<open>ethers\<close> crate is a \<open>256 word\<close> whose \<open>+\<close>, \<open>-\<close>, \<open>*\<close> panic on overflow;
    they are the \<open>checked_\<close> operations below, \<open>None\<close> being the panic.
  \<^item> Rust's own \<open>u128\<close>, \<open>u64\<close> and \<open>usize\<close> are words whose arithmetic wraps (the release
    profile); lengths of vectors held in memory are \<open>nat\<close>.
  \<^item> A handler returns an \<open>outcome\<close> beside the state it leaves: \<open>Ret\<close> for a normal return,
    \<open>Panicked\<close> when the task unwinds (the state keeps every write made before), \<open>Stuck\<close> when
    the task never returns: it waits for a lock that it holds itself, or it loops forever.
\<close>

section \<open>Machine types\<close>

type_synonym byte = "8 word"
type_synonym bytes = "byte list"
type_synonym u256 = "256 word"
type_synonym u128 = "128 word"
type_synonym u64 = "64 word"
type_synonym u32 = "32 word"
type_synonym u16 = "16 word"
type_synonym address = "160 word"

abbreviation u256_max :: u256 where
  "u256_max \<equiv> - 1"

section \<open>Fact collections\<close>

named_theorems outcome_simps \<open>computation rules for outcomes and state results\<close>
named_theorems checked_simps \<open>characterisations of the checked operations\<close>

section \<open>Checked arithmetic\<close>

definition checked_add :: "'a::len word \<Rightarrow> 'a word \<Rightarrow> 'a word option" where
  "checked_add a b = (if unat a + unat b < 2 ^ LENGTH('a) then Some (a + b) else None)"

definition checked_sub :: "'a::len word \<Rightarrow> 'a word \<Rightarrow> 'a word option" where
  "checked_sub a b = (if b \<le> a then Some (a - b) else None)"

definition checked_mul :: "'a::len word \<Rightarrow> 'a word \<Rightarrow> 'a word option" where
  "checked_mul a b = (if unat a * unat b < 2 ^ LENGTH('a) then Some (a * b) else None)"

text \<open>\<open>as_u64\<close> panics when the value does not fit.\<close>

definition as_u64 :: "u256 \<Rightarrow> u64 option" where
  "as_u64 x = (if unat x < 2 ^ 64 then Some (ucast x) else None)"

lemma checked_add_Some [checked_simps]:
  "checked_add a b = Some c \<longleftrightarrow> unat c = unat a + unat b"
proof
  assume "checked_add a b = Some c"
  then show "unat c = unat a + unat b"
    by (auto simp: checked_add_def unat_word_ariths split: if_splits)
next
  assume eq: "unat c = unat a + unat b"
  then have "unat a + unat b < 2 ^ LENGTH('a)"
    by (metis unsigned_less)
  moreover from this eq have "unat c = unat (a + b)"
    by (simp add: unat_word_ariths)
  then have "c = a + b" by (rule unsigned_word_eqI)
  ultimately show "checked_add a b = Some c"
    by (simp add: checked_add_def)
qed

lemma checked_sub_Some [checked_simps]:
  "checked_sub a b = Some c \<longleftrightarrow> unat a = unat c + unat b"
proof
  assume "checked_sub a b = Some c"
  then have "b \<le> a" "c = a - b"
    by (auto simp: checked_sub_def split: if_splits)
  then show "unat a = unat c + unat b"
    by (simp add: unat_sub word_le_nat_alt)
next
  assume eq: "unat a = unat c + unat b"
  then have le: "b \<le> a" by (simp add: word_le_nat_alt)
  then have "unat (a - b) = unat c"
    using eq by (simp add: unat_sub)
  then have "a - b = c" by (simp only: unsigned_word_eqI)
  then show "checked_sub a b = Some c"
    using le by (simp add: checked_sub_def)
qed

lemma checked_mul_Some [checked_simps]:
  "checked_mul a b = Some c \<longleftrightarrow> unat c = unat a * unat b"
proof
  assume "checked_mul a b = Some c"
  then show "unat c = unat a * unat b"
    by (auto simp: checked_mul_def unat_word_ariths split: if_splits)
next
  assume eq: "unat c = unat a * unat b"
  then have "unat a * unat b < 2 ^ LENGTH('a)"
    by (metis unsigned_less)
  moreover from this eq have "unat c = unat (a * b)"
    by (simp add: unat_word_ariths)
  then have "c = a * b" by (rule unsigned_word_eqI)
  ultimately show "checked_mul a b = Some c"
    by (simp add: checked_mul_def)
qed

lemma checked_add_None [checked_simps]:
  "checked_add a b = None \<longleftrightarrow> 2 ^ LENGTH('a) \<le> unat a + unat (b :: 'a::len word)"
  by (auto simp: checked_add_def)

lemma checked_sub_None [checked_simps]: "checked_sub a b = None \<longleftrightarrow> a < b"
  by (auto simp: checked_sub_def)

lemma checked_mul_None [checked_simps]:
  "checked_mul a b = None \<longleftrightarrow> 2 ^ LENGTH('a) \<le> unat a * unat (b :: 'a::len word)"
  by (auto simp: checked_mul_def)

lemma unat_u256_max: "unat u256_max = 2 ^ 256 - 1"
  by (simp only: unsigned_minus_1_eq_mask mask_eq_exp_minus_1) simp

lemma le_u256_max [simp]: "(x :: u256) \<le> u256_max"
  by simp

section \<open>Outcomes and state results\<close>

datatype 'a outcome = Ret 'a | Panicked | Stuck

type_synonym ('a, 's) res = "'a outcome \<times> 's"

fun returned :: "('a, 's) res \<Rightarrow> bool" where
  "returned (Ret _, _) = True"
| "returned (Panicked, _) = False"
| "returned (Stuck, _) = False"

text \<open>Sequencing: the rest of a handler runs only when the step before it returned.\<close>

fun and_then :: "('a, 's) res \<Rightarrow> ('a \<Rightarrow> 's \<Rightarrow> ('b, 's) res) \<Rightarrow> ('b, 's) res" where
  "and_then (Ret a, s) f = f a s"
| "and_then (Panicked, s) f = (Panicked, s)"
| "and_then (Stuck, s) f = (Stuck, s)"

text \<open>A panicking primitive inside a handler.\<close>

definition or_panic :: "'a option \<Rightarrow> 's \<Rightarrow> ('a \<Rightarrow> ('b, 's) res) \<Rightarrow> ('b, 's) res" where
  "or_panic x s f = (case x of None \<Rightarrow> (Panicked, s) | Some a \<Rightarrow> f a)"

text \<open>Sequencing of steps that may also return early: \<open>None\<close> is the early return.\<close>

definition and_some ::
    "('a option, 's) res \<Rightarrow> ('a \<Rightarrow> 's \<Rightarrow> ('b option, 's) res) \<Rightarrow> ('b option, 's) res" where
  "and_some r f =
     and_then r (\<lambda>x s. case x of None \<Rightarrow> (Ret None, s) | Some a \<Rightarrow> f a s)"

declare and_then.simps [outcome_simps] returned.simps [outcome_simps]

lemma or_panic_simps [simp, outcome_simps]:
  "or_panic None s f = (Panicked, s)"
  "or_panic (Some a) s f = f a"
  by (simp_all add: or_panic_def)

lemma and_then_Ret_iff [outcome_simps]:
  "and_then r f = (Ret b, t) \<longleftrightarrow> (\<exists>a s. r = (Ret a, s) \<and> f a s = (Ret b, t))"
  by (cases "(r, f)" rule: and_then.cases) auto

lemma and_some_simps [simp, outcome_simps]:
  "and_some (Ret None, s) f = (Ret None, s)"
  "and_some (Ret (Some a), s) f = f a s"
  "and_some (Panicked, s) f = (Panicked, s)"
  "and_some (Stuck, s) f = (Stuck, s)"
  by (simp_all add: and_some_def)

lemma and_some_Some_iff [outcome_simps]:
  "and_some r f = (Ret (Some b), t) \<longleftrightarrow>
     (\<exists>a s. r = (Ret (Some a), s) \<and> f a s = (Ret (Some b), t))"
  by (auto simp: and_some_def and_then_Ret_iff split: option.splits)

lemma or_panic_Ret_iff [outcome_simps]:
  "or_panic x s f = (Ret b, t) \<longleftrightarrow> (\<exists>a. x = Some a \<and> f a = (Ret b, t))"
  by (cases x) auto

section \<open>Lists and multisets\<close>

lemma mset_eq_set: "mset xs = mset ys \<Longrightarrow> set xs = set ys"
  by (metis set_mset_mset)

lemma mset_eq_size: "mset xs = mset ys \<Longrightarrow> length xs = length ys"
  by (metis size_mset)

lemma mset_remove1_size:
  "x \<in> set xs \<Longrightarrow> mset ys = mset xs - {#x#} \<Longrightarrow> Suc (length ys) = length xs"
  by (metis One_nat_def Suc_pred in_multiset_in_set length_pos_if_in_set size_Diff_singleton
      size_mset)

lemma mset_diff_set: "mset ys = mset xs - {#x#} \<Longrightarrow> set ys \<subseteq> set xs"
  by (metis in_diffD set_mset_mset subsetI)

lemma sum_list_mset: "mset xs = mset ys \<Longrightarrow> sum_list (map f xs) = sum_list (map f ys)"
  for f :: "'a \<Rightarrow> 'b::comm_monoid_add"
  by (metis mset_map sum_mset_sum_list)

lemma mset_filter_cong: "mset xs = mset ys \<Longrightarrow> mset (filter P xs) = mset (filter P ys)"
  by simp

lemma distinct_map_mset: "mset xs = mset ys \<Longrightarrow> distinct (map f xs) = distinct (map f ys)"
  by (metis mset_eq_imp_distinct_iff mset_map)

lemma distinct_map_eqD:
  "distinct (map f xs) \<Longrightarrow> x \<in> set xs \<Longrightarrow> y \<in> set xs \<Longrightarrow> f x = f y \<Longrightarrow> x = y"
  by (meson distinct_map inj_onD)

lemma distinct_map_Cons_neq: "distinct (map f (x # xs)) \<Longrightarrow> y \<in> set xs \<Longrightarrow> f y \<noteq> f x"
  by (metis distinct.simps(2) imageI list.simps(9) set_map)

lemma sum_list_remove:
  fixes f :: "'a \<Rightarrow> nat"
  assumes "x \<in> set xs" "mset ys = mset xs - {#x#}"
  shows "f x + sum_list (map f ys) = sum_list (map f xs)"
proof -
  have "mset xs = mset (x # ys)"
    using assms by simp
  then have "sum_list (map f xs) = sum_list (map f (x # ys))"
    by (rule sum_list_mset)
  then show ?thesis by simp
qed

end
