(* ===== verification/Priority_Queue.thy ===== *)
theory Priority_Queue
  imports Prelude
begin

text \<open>
  The interface of the \<open>priority_queue\<close> crate (\<open>PriorityQueue<I, P>\<close>), which the batcher uses
  as its \<open>BatchQueue\<close>. The crate is not part of the repository, so its operations are a record
  of parameters, and what its documentation promises is the locale \<open>priority_queue\<close>:
  a collection of items, at most one per key (the item's \<open>Eq\<close>/\<open>Hash\<close> identity), each with a
  priority; \<open>peek\<close> and \<open>pop\<close> give an item of greatest priority, \<open>push\<close> of an item already
  present only changes its priority, and \<open>iter\<close> enumerates the items in an arbitrary order.
  Which of several items with the same greatest priority is taken is left open.
  \<open>list_pq\<close> is a list-backed instance, which the evaluations of the development run.
\<close>

record ('q, 'e, 'p) pq_ops =
  pq_new :: 'q
  pq_push :: "'q \<Rightarrow> 'e \<Rightarrow> 'p \<Rightarrow> 'q"
  pq_pop :: "'q \<Rightarrow> (('e \<times> 'p) \<times> 'q) option"
  pq_peek :: "'q \<Rightarrow> ('e \<times> 'p) option"
  pq_iter :: "'q \<Rightarrow> ('e \<times> 'p) list"
  pq_len :: "'q \<Rightarrow> nat"
  pq_is_empty :: "'q \<Rightarrow> bool"
  pq_remove :: "'q \<Rightarrow> 'e \<Rightarrow> (('e \<times> 'p) \<times> 'q) option"
  pq_extract_if :: "'q \<Rightarrow> ('e \<Rightarrow> 'p \<Rightarrow> bool) \<Rightarrow> ('e \<times> 'p) list \<times> 'q"
  pq_clear :: "'q \<Rightarrow> 'q"

text \<open>The collection after a push, as a list up to order.\<close>

definition pushed :: "('e \<Rightarrow> 'k) \<Rightarrow> ('e \<times> 'p) list \<Rightarrow> 'e \<Rightarrow> 'p \<Rightarrow> ('e \<times> 'p) list" where
  "pushed key xs e p =
     (if key e \<in> key ` fst ` set xs
      then map (\<lambda>(e', p'). if key e' = key e then (e', p) else (e', p')) xs
      else (e, p) # xs)"

locale priority_queue =
  fixes key :: "'e \<Rightarrow> 'k"
    and Q :: "('q, 'e, 'p::linorder) pq_ops"
  assumes iter_new: "pq_iter Q (pq_new Q) = []"
    and distinct_keys: "distinct (map (key \<circ> fst) (pq_iter Q q))"
    and iter_push: "mset (pq_iter Q (pq_push Q q e p)) = mset (pushed key (pq_iter Q q) e p)"
    and pop_None: "pq_pop Q q = None \<longleftrightarrow> pq_iter Q q = []"
    and pop_Some: "pq_pop Q q = Some (x, q') \<Longrightarrow>
          x \<in> set (pq_iter Q q) \<and> mset (pq_iter Q q') = mset (pq_iter Q q) - {#x#} \<and>
          (\<forall>y \<in> set (pq_iter Q q). snd y \<le> snd x)"
    and peek_None: "pq_peek Q q = None \<longleftrightarrow> pq_iter Q q = []"
    and peek_Some: "pq_peek Q q = Some x \<Longrightarrow>
          x \<in> set (pq_iter Q q) \<and> (\<forall>y \<in> set (pq_iter Q q). snd y \<le> snd x)"
    and len_iter: "pq_len Q q = length (pq_iter Q q)"
    and is_empty_iter: "pq_is_empty Q q \<longleftrightarrow> pq_iter Q q = []"
    and remove_None: "pq_remove Q q e = None \<longleftrightarrow> key e \<notin> key ` fst ` set (pq_iter Q q)"
    and remove_Some: "pq_remove Q q e = Some (x, q') \<Longrightarrow>
          x \<in> set (pq_iter Q q) \<and> key (fst x) = key e \<and>
          mset (pq_iter Q q') = mset (pq_iter Q q) - {#x#}"
    and extract_if: "pq_extract_if Q q P = (xs, q') \<Longrightarrow>
          mset xs = mset (filter (\<lambda>(e, p). P e p) (pq_iter Q q)) \<and>
          mset (pq_iter Q q') = mset (filter (\<lambda>(e, p). \<not> P e p) (pq_iter Q q))"
    and iter_clear: "pq_iter Q (pq_clear Q q) = []"
begin

lemmas queue_laws = iter_new pop_None peek_None len_iter is_empty_iter remove_None iter_clear

lemma push_new_key:
  assumes "key e \<notin> key ` fst ` set (pq_iter Q q)"
  shows "mset (pq_iter Q (pq_push Q q e p)) = add_mset (e, p) (mset (pq_iter Q q))"
  using assms by (simp add: iter_push pushed_def)

lemma pop_length: "pq_pop Q q = Some (x, q') \<Longrightarrow> Suc (length (pq_iter Q q')) = length (pq_iter Q q)"
  using pop_Some [of q x q'] mset_remove1_size by metis

lemma pop_mset: "pq_pop Q q = Some (x, q') \<Longrightarrow> mset (pq_iter Q q) = add_mset x (mset (pq_iter Q q'))"
  using pop_Some [of q x q'] by simp

lemma pop_fresh:
  assumes "pq_pop Q q = Some (x, q')"
  shows "key (fst x) \<notin> key ` fst ` set (pq_iter Q q')"
proof -
  have "distinct (map (key \<circ> fst) (x # pq_iter Q q'))"
    using distinct_keys [of q] pop_mset [OF assms]
    by (metis distinct_map_mset mset.simps(2))
  then show ?thesis by (auto simp: image_iff)
qed

text \<open>Pushing back what was popped restores the collection.\<close>

lemma push_popped:
  assumes "pq_pop Q q = Some (x, q')"
  shows "mset (pq_iter Q (pq_push Q q' (fst x) (snd x))) = mset (pq_iter Q q)"
  using push_new_key [OF pop_fresh [OF assms]] pop_mset [OF assms] by simp

lemma remove_mset:
  "pq_remove Q q e = Some (x, q') \<Longrightarrow> mset (pq_iter Q q) = add_mset x (mset (pq_iter Q q'))"
  using remove_Some [of q e x q'] by simp

lemma remove_fresh:
  assumes "pq_remove Q q e = Some (x, q')"
  shows "key e \<notin> key ` fst ` set (pq_iter Q q')"
proof -
  have "distinct (map (key \<circ> fst) (x # pq_iter Q q'))"
    using distinct_keys [of q] remove_mset [OF assms]
    by (metis distinct_map_mset mset.simps(2))
  then show ?thesis using remove_Some [OF assms] by (auto simp: image_iff)
qed

lemma remove_Some_ex:
  assumes "x \<in> set (pq_iter Q q)" "key (fst x) = key e"
  obtains q' where "pq_remove Q q e = Some (x, q')"
proof -
  have "key e \<in> key ` fst ` set (pq_iter Q q)"
    using assms by (auto simp: image_iff) (metis fst_conv prod.exhaust_sel)
  then obtain y q' where y: "pq_remove Q q e = Some (y, q')"
    using remove_None [of q e] by (cases "pq_remove Q q e") auto
  then have "y \<in> set (pq_iter Q q)" "key (fst y) = key e"
    using remove_Some by auto
  then have "y = x"
    using distinct_map_eqD [OF distinct_keys] assms by (metis comp_apply)
  with y that show ?thesis by blast
qed

end

section \<open>A list-backed instance\<close>

fun dedup :: "('e \<Rightarrow> 'k) \<Rightarrow> ('e \<times> 'p) list \<Rightarrow> ('e \<times> 'p) list" where
  "dedup key [] = []"
| "dedup key (x # xs) = x # filter (\<lambda>y. key (fst y) \<noteq> key (fst x)) (dedup key xs)"

fun best_of :: "('e \<times> 'p::linorder) \<Rightarrow> ('e \<times> 'p) list \<Rightarrow> 'e \<times> 'p" where
  "best_of m [] = m"
| "best_of m (y # ys) = best_of (if snd m < snd y then y else m) ys"

fun list_peek :: "('e \<times> 'p::linorder) list \<Rightarrow> ('e \<times> 'p) option" where
  "list_peek [] = None"
| "list_peek (x # xs) = Some (best_of x xs)"

definition drop_key :: "('e \<Rightarrow> 'k) \<Rightarrow> 'k \<Rightarrow> ('e \<times> 'p) list \<Rightarrow> ('e \<times> 'p) list" where
  "drop_key key k xs = filter (\<lambda>y. key (fst y) \<noteq> k) xs"

definition list_pq :: "('e \<Rightarrow> 'k) \<Rightarrow> (('e \<times> 'p::linorder) list, 'e, 'p) pq_ops" where
  "list_pq key = \<lparr>
     pq_new = [],
     pq_push = (\<lambda>q e p. pushed key (dedup key q) e p),
     pq_pop = (\<lambda>q. map_option (\<lambda>x. (x, drop_key key (key (fst x)) (dedup key q)))
                      (list_peek (dedup key q))),
     pq_peek = (\<lambda>q. list_peek (dedup key q)),
     pq_iter = dedup key,
     pq_len = (\<lambda>q. length (dedup key q)),
     pq_is_empty = (\<lambda>q. dedup key q = []),
     pq_remove = (\<lambda>q e. map_option (\<lambda>x. (x, drop_key key (key e) (dedup key q)))
                      (find (\<lambda>x. key (fst x) = key e) (dedup key q))),
     pq_extract_if = (\<lambda>q P. (filter (\<lambda>(e, p). P e p) (dedup key q),
                              filter (\<lambda>(e, p). \<not> P e p) (dedup key q))),
     pq_clear = (\<lambda>_. []) \<rparr>"

lemma list_pq_sel [simp]:
  "pq_new (list_pq key) = []"
  "pq_push (list_pq key) q e p = pushed key (dedup key q) e p"
  "pq_pop (list_pq key) q = map_option (\<lambda>x. (x, drop_key key (key (fst x)) (dedup key q)))
                              (list_peek (dedup key q))"
  "pq_peek (list_pq key) q = list_peek (dedup key q)"
  "pq_iter (list_pq key) q = dedup key q"
  "pq_len (list_pq key) q = length (dedup key q)"
  "pq_is_empty (list_pq key) q = (dedup key q = [])"
  "pq_remove (list_pq key) q e = map_option (\<lambda>x. (x, drop_key key (key e) (dedup key q)))
                              (find (\<lambda>x. key (fst x) = key e) (dedup key q))"
  "pq_extract_if (list_pq key) q P = (filter (\<lambda>(e, p). P e p) (dedup key q),
                              filter (\<lambda>(e, p). \<not> P e p) (dedup key q))"
  "pq_clear (list_pq key) q = []"
  by (simp_all add: list_pq_def)

lemma dedup_distinct: "distinct (map (key \<circ> fst) (dedup key xs))"
  by (induction xs) (auto simp: distinct_map_filter)

lemma dedup_id: "distinct (map (key \<circ> fst) xs) \<Longrightarrow> dedup key xs = xs"
proof (induction xs)
  case (Cons x xs)
  then have "\<forall>y \<in> set xs. key (fst y) \<noteq> key (fst x)"
    using distinct_map_Cons_neq [of "key \<circ> fst" x xs] by (metis comp_apply)
  then have "filter (\<lambda>y. key (fst y) \<noteq> key (fst x)) xs = xs" by simp
  with Cons show ?case by simp
qed simp

lemma dedup_filter [simp]: "dedup key (filter P (dedup key xs)) = filter P (dedup key xs)"
  by (rule dedup_id) (simp add: dedup_distinct distinct_map_filter)

lemma pushed_distinct:
  assumes "distinct (map (key \<circ> fst) xs)"
  shows "distinct (map (key \<circ> fst) (pushed key xs e p))"
proof (cases "key e \<in> key ` fst ` set xs")
  case True
  have "map (key \<circ> fst) (pushed key xs e p) = map (key \<circ> fst) xs"
    using True by (auto simp: pushed_def)
  then show ?thesis using assms by simp
next
  case False
  then show ?thesis using assms by (auto simp: pushed_def image_iff)
qed

lemma best_of_in: "best_of m ys \<in> insert m (set ys)"
  by (induction m ys rule: best_of.induct) auto

lemma best_of_greatest: "y \<in> insert m (set ys) \<Longrightarrow> snd y \<le> snd (best_of m ys)"
proof (induction m ys arbitrary: y rule: best_of.induct)
  case (1 m)
  then show ?case by simp
next
  case (2 m z zs)
  let ?m = "if snd m < snd z then z else m"
  have IH: "snd ?m \<le> snd (best_of ?m zs)" "\<And>x. x \<in> set zs \<Longrightarrow> snd x \<le> snd (best_of ?m zs)"
    using "2.IH" by auto
  moreover have "snd m \<le> snd ?m" "snd z \<le> snd ?m" by auto
  ultimately show ?case
    using "2.prems" by (metis best_of.simps(2) insertE list.simps(15) order_trans)
qed

lemma list_peek_Some:
  "list_peek xs = Some x \<Longrightarrow> x \<in> set xs \<and> (\<forall>y \<in> set xs. snd y \<le> snd x)"
  by (cases xs) (use best_of_in best_of_greatest in fastforce)+

lemma list_peek_None: "list_peek xs = None \<longleftrightarrow> xs = []"
  by (cases xs) auto

lemma mset_drop_key:
  assumes "distinct (map (key \<circ> fst) xs)" "x \<in> set xs" "key (fst x) = k"
  shows "mset (drop_key key k xs) = mset xs - {#x#}"
  using assms
proof (induction xs)
  case (Cons y ys)
  show ?case
  proof (cases "y = x")
    case True
    then have "filter (\<lambda>z. key (fst z) \<noteq> k) ys = ys"
      using True Cons.prems distinct_map_Cons_neq [of "key \<circ> fst" y ys]
      by (intro filter_True) (metis comp_apply)
    then show ?thesis using True Cons.prems by (simp add: drop_key_def)
  next
    case False
    then have "key (fst y) \<noteq> k"
      using Cons.prems distinct_map_Cons_neq [of "key \<circ> fst" y ys x] by auto
    then show ?thesis
      using False Cons by (simp add: drop_key_def)
  qed
qed simp

lemma find_key_None: "find (\<lambda>x. key (fst x) = k) xs = None \<longleftrightarrow> k \<notin> key ` fst ` set xs"
  by (induction xs) auto

interpretation lpq: priority_queue key "list_pq key" for key :: "'e \<Rightarrow> 'k"
proof (unfold_locales, goal_cases)
  case (3 q e p)
  then show ?case
    by (simp add: list_pq_def dedup_id pushed_distinct dedup_distinct)
next
  case (5 q x q')
  then have x: "list_peek (dedup key q) = Some x"
    and q': "q' = drop_key key (key (fst x)) (dedup key q)"
    by (auto simp: list_pq_def)
  then have "mset q' = mset (dedup key q) - {#x#}"
    using mset_drop_key [OF dedup_distinct _ refl] list_peek_Some [OF x] by blast
  moreover have "dedup key q' = q'" by (simp add: q' drop_key_def)
  ultimately show ?case
    using list_peek_Some [OF x] by (simp)
next
  case (11 q e x q')
  then have f: "find (\<lambda>x. key (fst x) = key e) (dedup key q) = Some x"
    and q': "q' = drop_key key (key e) (dedup key q)"
    by (auto simp: list_pq_def)
  then have "x \<in> set (dedup key q)" "key (fst x) = key e"
    by (auto simp: find_Some_iff)
  moreover from this have "mset q' = mset (dedup key q) - {#x#}"
    unfolding q' by (intro mset_drop_key dedup_distinct)
  moreover have "dedup key q' = q'" by (simp add: q' drop_key_def)
  ultimately show ?case by (simp)
next
  case (10 q e)
  then show ?case by (simp add: list_pq_def find_key_None)
qed (auto simp: list_pq_def dedup_distinct list_peek_None dest: list_peek_Some)

end
