(* ===== verification/Sdk_Types.thy ===== *)
theory Sdk_Types
  imports Prelude
begin

text \<open>
  The data model of the SDK (\<open>crates/sdk/src/common/types.rs\<close> and \<open>constants.rs\<close>): proofs and
  their nonced form, the commitments that become leaves of the batch Merkle tree, the EIP-712
  payload a submitter signs, the wire messages, and the networks. Keccak, the parser of hex
  addresses and the Merkle tree of \<open>lambdaworks\<close> are code outside the repository: they are
  arguments of the definitions that use them.
\<close>

section \<open>Constants\<close>

definition GAS_PRICE_INCREMENT_PERCENTAGE_PER_ITERATION :: nat where
  "GAS_PRICE_INCREMENT_PERCENTAGE_PER_ITERATION = 5"

definition DEFAULT_AGGREGATOR_GAS_COST :: u128 where
  "DEFAULT_AGGREGATOR_GAS_COST = 330000"

definition BATCHER_SUBMISSION_BASE_GAS_COST :: u128 where
  "BATCHER_SUBMISSION_BASE_GAS_COST = 125000"

definition ADDITIONAL_SUBMISSION_GAS_COST_PER_PROOF :: u128 where
  "ADDITIONAL_SUBMISSION_GAS_COST_PER_PROOF = 2000"

definition RESPOND_TO_TASK_FEE_LIMIT_PERCENTAGE_MULTIPLIER :: u128 where
  "RESPOND_TO_TASK_FEE_LIMIT_PERCENTAGE_MULTIPLIER = 250"

definition DEFAULT_AGGREGATOR_FEE_PERCENTAGE_MULTIPLIER :: u128 where
  "DEFAULT_AGGREGATOR_FEE_PERCENTAGE_MULTIPLIER = 125"

definition GAS_PRICE_PERCENTAGE_MULTIPLIER :: u128 where
  "GAS_PRICE_PERCENTAGE_MULTIPLIER = 110"

definition OVERRIDE_GAS_PRICE_PERCENTAGE_MULTIPLIER :: u128 where
  "OVERRIDE_GAS_PRICE_PERCENTAGE_MULTIPLIER = 120"

definition PERCENTAGE_DIVIDER :: u128 where
  "PERCENTAGE_DIVIDER = 100"

definition DEFAULT_CONSTANT_GAS_COST :: u128 where
  "DEFAULT_CONSTANT_GAS_COST =
     (DEFAULT_AGGREGATOR_GAS_COST * DEFAULT_AGGREGATOR_FEE_PERCENTAGE_MULTIPLIER) div PERCENTAGE_DIVIDER
     + BATCHER_SUBMISSION_BASE_GAS_COST"

definition DEFAULT_MAX_FEE_PER_PROOF :: u128 where
  "DEFAULT_MAX_FEE_PER_PROOF = ADDITIONAL_SUBMISSION_GAS_COST_PER_PROOF * 100000000000"

definition CBOR_ARRAY_MAX_OVERHEAD :: nat where
  "CBOR_ARRAY_MAX_OVERHEAD = 9"

definition INSTANT_MAX_FEE_BATCH_SIZE :: nat where
  "INSTANT_MAX_FEE_BATCH_SIZE = 1"

definition DEFAULT_MAX_FEE_BATCH_SIZE :: nat where
  "DEFAULT_MAX_FEE_BATCH_SIZE = 10"

definition ETHEREUM_CALL_MAX_RETRIES :: nat where
  "ETHEREUM_CALL_MAX_RETRIES = 5"

definition BUMP_MAX_RETRIES :: nat where
  "BUMP_MAX_RETRIES = 33"

definition EXPECTED_PROTOCOL_VERSION :: u16 where
  "EXPECTED_PROTOCOL_VERSION = 4"

lemmas sdk_constants =
  GAS_PRICE_INCREMENT_PERCENTAGE_PER_ITERATION_def DEFAULT_AGGREGATOR_GAS_COST_def
  BATCHER_SUBMISSION_BASE_GAS_COST_def ADDITIONAL_SUBMISSION_GAS_COST_PER_PROOF_def
  RESPOND_TO_TASK_FEE_LIMIT_PERCENTAGE_MULTIPLIER_def
  DEFAULT_AGGREGATOR_FEE_PERCENTAGE_MULTIPLIER_def GAS_PRICE_PERCENTAGE_MULTIPLIER_def
  OVERRIDE_GAS_PRICE_PERCENTAGE_MULTIPLIER_def PERCENTAGE_DIVIDER_def
  DEFAULT_MAX_FEE_PER_PROOF_def CBOR_ARRAY_MAX_OVERHEAD_def INSTANT_MAX_FEE_BATCH_SIZE_def
  DEFAULT_MAX_FEE_BATCH_SIZE_def

lemma DEFAULT_CONSTANT_GAS_COST_value: "DEFAULT_CONSTANT_GAS_COST = 537500"
  by (simp add: DEFAULT_CONSTANT_GAS_COST_def sdk_constants)

section \<open>Proofs\<close>

datatype ProvingSystemId =
    GnarkPlonkBls12_381
  | GnarkPlonkBn254
  | GnarkGroth16Bn254
  | SP1
  | Risc0
  | CircomGroth16Bn256

text \<open>The discriminant, \<open>proving_system as u8\<close> and \<open>as u64\<close>.\<close>

fun proving_system_discr :: "ProvingSystemId \<Rightarrow> nat" where
  "proving_system_discr GnarkPlonkBls12_381 = 0"
| "proving_system_discr GnarkPlonkBn254 = 1"
| "proving_system_discr GnarkGroth16Bn254 = 2"
| "proving_system_discr SP1 = 3"
| "proving_system_discr Risc0 = 4"
| "proving_system_discr CircomGroth16Bn256 = 5"

fun proving_system_display :: "ProvingSystemId \<Rightarrow> string" where
  "proving_system_display GnarkPlonkBls12_381 = ''GnarkPlonkBls12_381''"
| "proving_system_display GnarkPlonkBn254 = ''GnarkPlonkBn254''"
| "proving_system_display GnarkGroth16Bn254 = ''GnarkGroth16Bn254''"
| "proving_system_display SP1 = ''SP1''"
| "proving_system_display Risc0 = ''Risc0''"
| "proving_system_display CircomGroth16Bn256 = ''CircomGroth16Bn256''"

record VerificationData =
  proving_system :: ProvingSystemId
  proof_bytes :: bytes
  pub_input :: "bytes option"
  verification_key :: "bytes option"
  vm_program_code :: "bytes option"
  proof_generator_addr :: address

record NoncedVerificationData =
  verification_data :: VerificationData
  nonce :: u256
  max_fee :: u256
  chain_id :: u256
  payment_service_addr :: address

fun option_len :: "bytes option \<Rightarrow> nat" where
  "option_len None = 0"
| "option_len (Some b) = length b"

definition CBOR_OVERHEAD_BYTES :: nat where
  "CBOR_OVERHEAD_BYTES = 1024"

definition cbor_size_upper_bound :: "NoncedVerificationData \<Rightarrow> nat" where
  "cbor_size_upper_bound nvd =
     (let vd = verification_data nvd in
      length (proof_bytes vd) + option_len (pub_input vd) + option_len (verification_key vd)
      + option_len (vm_program_code vd) + CBOR_OVERHEAD_BYTES)"

lemma cbor_size_pos [simp]: "0 < cbor_size_upper_bound nvd"
  by (simp add: cbor_size_upper_bound_def CBOR_OVERHEAD_BYTES_def Let_def)

datatype FeeEstimationType = FeeDefault | FeeInstant | FeeCustom nat

section \<open>Commitments\<close>

text \<open>Big-endian bytes of a word (\<open>to_big_endian\<close>, and the conversion of an address).\<close>

definition be_bytes :: "nat \<Rightarrow> 'a::len word \<Rightarrow> bytes" where
  "be_bytes n w = map (\<lambda>i. ucast (drop_bit (8 * i) w)) (rev [0..<n])"

record VerificationDataCommitment =
  proof_commitment :: bytes
  pub_input_commitment :: bytes
  proving_system_aux_data_commitment :: bytes
  vdc_proof_generator_addr :: bytes

definition zero32 :: bytes where
  "zero32 = replicate 32 0"

definition verification_data_into_commitment ::
    "(bytes \<Rightarrow> bytes) \<Rightarrow> VerificationData \<Rightarrow> VerificationDataCommitment" where
  "verification_data_into_commitment keccak vd =
     (let proving_system_byte = of_nat (proving_system_discr (proving_system vd)) in
      \<lparr> proof_commitment = keccak (proof_bytes vd),
        pub_input_commitment = (case pub_input vd of None \<Rightarrow> zero32 | Some p \<Rightarrow> keccak p),
        proving_system_aux_data_commitment =
          (case vm_program_code vd of
             Some code \<Rightarrow> keccak (code @ [proving_system_byte])
           | None \<Rightarrow> (case verification_key vd of
                 Some vk \<Rightarrow> keccak (vk @ [proving_system_byte])
               | None \<Rightarrow> zero32)),
        vdc_proof_generator_addr = be_bytes 20 (proof_generator_addr vd) \<rparr>)"

definition nonced_into_commitment ::
    "(bytes \<Rightarrow> bytes) \<Rightarrow> NoncedVerificationData \<Rightarrow> VerificationDataCommitment" where
  "nonced_into_commitment keccak nvd = verification_data_into_commitment keccak (verification_data nvd)"

definition hash_data :: "(bytes \<Rightarrow> bytes) \<Rightarrow> VerificationDataCommitment \<Rightarrow> bytes" where
  "hash_data keccak leaf =
     keccak (proof_commitment leaf @ pub_input_commitment leaf
             @ proving_system_aux_data_commitment leaf @ vdc_proof_generator_addr leaf)"

definition hash_new_parent :: "(bytes \<Rightarrow> bytes) \<Rightarrow> bytes \<Rightarrow> bytes \<Rightarrow> bytes" where
  "hash_new_parent keccak child_1 child_2 = keccak (child_1 @ child_2)"

definition get_vk_commitment :: "(bytes \<Rightarrow> bytes) \<Rightarrow> bytes \<Rightarrow> ProvingSystemId \<Rightarrow> bytes" where
  "get_vk_commitment keccak vk ps = keccak (vk @ [of_nat (proving_system_discr ps)])"

section \<open>The signed EIP-712 payload\<close>

definition ascii_bytes :: "string \<Rightarrow> bytes" where
  "ascii_bytes s = map of_char s"

definition NONCED_VERIFICATION_DATA_TYPE :: bytes where
  "NONCED_VERIFICATION_DATA_TYPE =
     ascii_bytes ''NoncedVerificationData(bytes32 verification_data_hash,uint256 nonce,uint256 max_fee)''"

record EIP712Domain =
  dom_name :: "string option"
  dom_version :: "string option"
  dom_chain_id :: "u256 option"
  dom_verifying_contract :: "address option"
  dom_salt :: "bytes option"

definition eip712_domain :: "NoncedVerificationData \<Rightarrow> EIP712Domain" where
  "eip712_domain nvd =
     \<lparr> dom_name = Some ''Aligned'', dom_version = Some ''1'', dom_chain_id = Some (chain_id nvd),
       dom_verifying_contract = Some (payment_service_addr nvd), dom_salt = None \<rparr>"

definition type_hash :: "(bytes \<Rightarrow> bytes) \<Rightarrow> bytes" where
  "type_hash keccak = keccak NONCED_VERIFICATION_DATA_TYPE"

text \<open>What \<open>struct_hash\<close> feeds to its last Keccak, and the hash itself.\<close>

definition struct_preimage :: "(bytes \<Rightarrow> bytes) \<Rightarrow> NoncedVerificationData \<Rightarrow> bytes" where
  "struct_preimage keccak nvd =
     keccak NONCED_VERIFICATION_DATA_TYPE
     @ hash_data keccak (verification_data_into_commitment keccak (verification_data nvd))
     @ be_bytes 32 (nonce nvd) @ be_bytes 32 (max_fee nvd)"

definition struct_hash :: "(bytes \<Rightarrow> bytes) \<Rightarrow> NoncedVerificationData \<Rightarrow> bytes" where
  "struct_hash keccak nvd = keccak (struct_preimage keccak nvd)"

record signature =
  sig_r :: u256
  sig_s :: u256
  sig_v :: u64

record SubmitProofMessage =
  msg_verification_data :: NoncedVerificationData
  msg_signature :: signature

datatype VerifySignatureError = RecoverTypedDataError string | EncodeError string

text \<open>
  The ECDSA operations of \<open>ethers\<close> on a signature and typed data: recovery of the signer, the
  EIP-712 encoding of the data, and the check of a recovered address against the hash.
\<close>

record ecdsa =
  recover_typed_data :: "signature \<Rightarrow> NoncedVerificationData \<Rightarrow> string + address"
  encode_eip712 :: "NoncedVerificationData \<Rightarrow> string + bytes"
  sig_verify :: "signature \<Rightarrow> bytes \<Rightarrow> address \<Rightarrow> string + unit"

definition verify_signature :: "ecdsa \<Rightarrow> SubmitProofMessage \<Rightarrow> VerifySignatureError + address" where
  "verify_signature E m =
     (case recover_typed_data E (msg_signature m) (msg_verification_data m) of
        Inl e \<Rightarrow> Inl (RecoverTypedDataError e)
      | Inr recovered \<Rightarrow>
        (case encode_eip712 E (msg_verification_data m) of
           Inl e \<Rightarrow> Inl (EncodeError e)
         | Inr hashed_data \<Rightarrow>
           (case sig_verify E (msg_signature m) hashed_data recovered of
              Inl e \<Rightarrow> Inl (RecoverTypedDataError e)
            | Inr _ \<Rightarrow> Inr recovered)))"

section \<open>Wire messages\<close>

datatype ClientMessage =
    GetNonceForAddress address
  | SubmitProof SubmitProofMessage
  | GetLastMaxFee address

text \<open>
  The Merkle tree of \<open>lambdaworks\<close> over the batch commitments: building from the leaves, the
  root, the inclusion path of a position and the check of a path against a root.
\<close>

record 'tree merkle_ops =
  mt_build :: "VerificationDataCommitment list \<Rightarrow> 'tree option"
  mt_root :: "'tree \<Rightarrow> bytes"
  mt_proof_by_pos :: "'tree \<Rightarrow> nat \<Rightarrow> (bytes list) option"
  mt_verify :: "bytes list \<Rightarrow> bytes \<Rightarrow> nat \<Rightarrow> VerificationDataCommitment \<Rightarrow> bool"

record BatchInclusionData =
  batch_merkle_root :: bytes
  batch_inclusion_proof :: "bytes list"
  index_in_batch :: nat
  user_nonce :: u256

definition BatchInclusionData_new ::
    "'tree merkle_ops \<Rightarrow> nat \<Rightarrow> 'tree \<Rightarrow> u256 \<Rightarrow> BatchInclusionData option" where
  "BatchInclusionData_new M idx t un =
     map_option (\<lambda>path. \<lparr> batch_merkle_root = mt_root M t, batch_inclusion_proof = path,
                          index_in_batch = idx, user_nonce = un \<rparr>)
       (mt_proof_by_pos M t idx)"

record AlignedVerificationData =
  avd_verification_data_commitment :: VerificationDataCommitment
  avd_batch_merkle_root :: bytes
  avd_batch_inclusion_proof :: "bytes list"
  avd_index_in_batch :: nat

definition AlignedVerificationData_new ::
    "VerificationDataCommitment \<Rightarrow> BatchInclusionData \<Rightarrow> AlignedVerificationData" where
  "AlignedVerificationData_new vdc bid =
     \<lparr> avd_verification_data_commitment = vdc,
       avd_batch_merkle_root = batch_merkle_root bid,
       avd_batch_inclusion_proof = batch_inclusion_proof bid,
       avd_index_in_batch = index_in_batch bid \<rparr>"

datatype ProofInvalidReason = RejectedProof | VerifierNotSupported | DisabledVerifier ProvingSystemId

fun proof_invalid_reason_display :: "ProofInvalidReason \<Rightarrow> string" where
  "proof_invalid_reason_display VerifierNotSupported = ''Verifier not supported''"
| "proof_invalid_reason_display (DisabledVerifier p) = ''Disabled verifier: '' @ proving_system_display p"
| "proof_invalid_reason_display RejectedProof = ''Proof did not verify''"

datatype SubmitProofResponseMessage =
    BatchInclusion BatchInclusionData
  | ProtocolVersion u16
  | CreateNewTaskError string string
  | InvalidProof ProofInvalidReason
  | BatchReset
  | ErrorMsg string
  | InvalidNonce
  | InvalidSignature
  | ProofTooLarge
  | InvalidMaxFee
  | InsufficientBalance address
  | InvalidChainId
  | InvalidReplacementMessage
  | AddToBatchError
  | EthRpcError
  | InvalidPaymentServiceAddress address address
  | UnderpricedProof
  | ServerBusy
  | UserFundsUnlocked
  | ProofReplaced

datatype GetNonceResponseMessage =
    Nonce u256
  | NonceEthRpcError string
  | NonceInvalidRequest string
  | NonceServerBusy

datatype GetLastMaxFeeResponseMessage =
    LastMaxFee u256
  | FeeInvalidRequest string
  | FeeServerBusy

section \<open>Networks\<close>

datatype Network =
    Devnet | Holesky | HoleskyStage | Hoodi | Mainnet | MainnetStage | Sepolia
  | CustomNet string string string

fun aligned_service_manager_str :: "Network \<Rightarrow> string" where
  "aligned_service_manager_str Devnet = ''0x851356ae760d987E095750cCeb3bC6014560891C''"
| "aligned_service_manager_str Holesky = ''0x58F280BeBE9B34c9939C3C39e0890C81f163B623''"
| "aligned_service_manager_str HoleskyStage = ''0x9C5231FC88059C086Ea95712d105A2026048c39B''"
| "aligned_service_manager_str Hoodi = ''0x87CD431F160e88EC34fA48EC6F6cF7F2C0E8248c''"
| "aligned_service_manager_str Mainnet = ''0xeF2A435e5EE44B2041100EF8cbC8ae035166606c''"
| "aligned_service_manager_str MainnetStage = ''0x96b6a29D7B98519Ae66E6398BD27A76B30a5dC3f''"
| "aligned_service_manager_str Sepolia = ''0xFf731AB7b3653dc66878DC77E851D174f472d137''"
| "aligned_service_manager_str (CustomNet s _ _) = s"

fun batcher_payment_service_str :: "Network \<Rightarrow> string" where
  "batcher_payment_service_str Devnet = ''0x7bc06c482DEAd17c0e297aFbC32f6e63d3846650''"
| "batcher_payment_service_str Holesky = ''0x815aeCA64a974297942D2Bbf034ABEe22a38A003''"
| "batcher_payment_service_str HoleskyStage = ''0x7577Ec4ccC1E6C529162ec8019A49C13F6DAd98b''"
| "batcher_payment_service_str Hoodi = ''0x041af25Fce2413570aaa0029D36DeA1eFdeff083''"
| "batcher_payment_service_str Mainnet = ''0xb0567184A52cB40956df6333510d6eF35B89C8de''"
| "batcher_payment_service_str MainnetStage = ''0x88ad27EfBeF16b6fC5b2E40c5155d61876f847c5''"
| "batcher_payment_service_str Sepolia = ''0x403dE630751e148bD71BFFcE762E5667C0825399''"
| "batcher_payment_service_str (CustomNet _ s _) = s"

fun aligned_proof_agg_service_str :: "Network \<Rightarrow> string" where
  "aligned_proof_agg_service_str Devnet = ''0xcbEAF3BDe82155F56486Fb5a1072cb8baAf547cc''"
| "aligned_proof_agg_service_str Holesky = ''0xe84CD4084d8131841CE6DC265361f81F4C59a1d4''"
| "aligned_proof_agg_service_str HoleskyStage = ''0x7Eace34A8d4C4CacE633946C6F7CF4BeF3F33513''"
| "aligned_proof_agg_service_str Hoodi = ''0xEFeD2fd949995BE1a1C7f61AbFC0A33412c37f95''"
| "aligned_proof_agg_service_str Mainnet = ''0x0''"
| "aligned_proof_agg_service_str MainnetStage = ''0x0''"
| "aligned_proof_agg_service_str Sepolia = ''0xb5D46304c30B1AeB3a8Da6ab599c336f7946C8A4''"
| "aligned_proof_agg_service_str (CustomNet _ s _) = s"

text \<open>\<open>H160::from_str(..).unwrap()\<close>: \<open>None\<close> is the panic of the \<open>unwrap\<close>.\<close>

definition get_aligned_service_manager_address ::
    "(string \<Rightarrow> address option) \<Rightarrow> Network \<Rightarrow> address option" where
  "get_aligned_service_manager_address from_str n = from_str (aligned_service_manager_str n)"

definition get_batcher_payment_service_address ::
    "(string \<Rightarrow> address option) \<Rightarrow> Network \<Rightarrow> address option" where
  "get_batcher_payment_service_address from_str n = from_str (batcher_payment_service_str n)"

definition get_aligned_proof_agg_service_address ::
    "(string \<Rightarrow> address option) \<Rightarrow> Network \<Rightarrow> address option" where
  "get_aligned_proof_agg_service_address from_str n = from_str (aligned_proof_agg_service_str n)"

fun get_batcher_url :: "Network \<Rightarrow> string" where
  "get_batcher_url Devnet = ''ws://localhost:8080''"
| "get_batcher_url Holesky = ''wss://batcher.alignedlayer.com''"
| "get_batcher_url HoleskyStage = ''wss://stage.batcher.alignedlayer.com''"
| "get_batcher_url Hoodi = ''wss://hoodi.batcher.alignedlayer.com''"
| "get_batcher_url Mainnet = ''wss://mainnet.batcher.alignedlayer.com''"
| "get_batcher_url MainnetStage = ''wss://mainnetstage.batcher.alignedlayer.com''"
| "get_batcher_url Sepolia = ''wss://sepolia.batcher.alignedlayer.com''"
| "get_batcher_url (CustomNet _ _ s) = s"

section \<open>Lemmas\<close>

lemma length_be_bytes [simp]: "length (be_bytes n w) = n"
  by (simp add: be_bytes_def)

lemma be_bytes_inj:
  fixes v w :: "'a::len word"
  assumes "LENGTH('a) \<le> 8 * n" and eq: "be_bytes n v = be_bytes n w"
  shows "v = w"
proof (rule bit_word_eqI)
  fix k assume k: "k < LENGTH('a)"
  define i where "i = k div 8"
  have i: "i < n" using k assms(1) by (simp add: i_def)
  have "ucast (drop_bit (8 * i) v) = (ucast (drop_bit (8 * i) w) :: byte)"
    using eq i by (simp add: be_bytes_def map_eq_conv)
  then have "bit (ucast (drop_bit (8 * i) v) :: byte) (k mod 8) =
             bit (ucast (drop_bit (8 * i) w) :: byte) (k mod 8)"
    by simp
  moreover have "8 * i + k mod 8 = k" by (simp add: i_def)
  moreover have "k mod 8 < LENGTH(8)"
    using mod_less_divisor [of 8 k] by (simp del: mod_less_divisor)
  ultimately show "bit v k = bit w k"
    using k by (simp add: bit_ucast_iff bit_drop_bit_eq add.commute)
qed

end
