(* ===== verification/Fees.thy ===== *)
theory Fees
  imports Sdk_Types
begin

text \<open>
  The fee arithmetic of the batcher and of the SDK: the fee each proof of a batch is charged
  (\<open>batch_queue.rs\<close>), the estimate clients use (\<open>verification_layer/mod.rs\<close>), the constant part of
  the gas cost and the parameters of \<open>createNewTask\<close> (\<open>lib.rs\<close>), and the gas price bump used to
  override a stuck transaction (\<open>eth/utils.rs\<close>). \<open>u128\<close> arithmetic wraps, \<open>U256\<close> arithmetic
  panics on overflow (\<open>None\<close>), and so does a division by zero.
\<close>

definition gas_per_proof :: "u128 \<Rightarrow> nat \<Rightarrow> u128 option" where
  "gas_per_proof constant_gas_cost batch_len =
     (if (of_nat batch_len :: u128) = 0 then None
      else Some ((constant_gas_cost + ADDITIONAL_SUBMISSION_GAS_COST_PER_PROOF * of_nat batch_len)
                 div of_nat batch_len))"

definition calculate_fee_per_proof :: "nat \<Rightarrow> u256 \<Rightarrow> u128 \<Rightarrow> u256 option" where
  "calculate_fee_per_proof batch_len gas_price constant_gas_cost =
     Option.bind (gas_per_proof constant_gas_cost batch_len)
       (\<lambda>g. checked_mul (ucast g) gas_price)"

definition constant_gas_cost :: "u128 \<Rightarrow> u128 \<Rightarrow> u128" where
  "constant_gas_cost aggregator_fee_percentage_multiplier aggregator_gas_cost =
     (aggregator_fee_percentage_multiplier * aggregator_gas_cost) div PERCENTAGE_DIVIDER
     + BATCHER_SUBMISSION_BASE_GAS_COST"

definition calculate_fee_per_proof_with_gas_price :: "nat \<Rightarrow> u256 \<Rightarrow> u256 option" where
  "calculate_fee_per_proof_with_gas_price num_proofs_in_batch gas_price =
     Option.bind (gas_per_proof DEFAULT_CONSTANT_GAS_COST num_proofs_in_batch) (\<lambda>g.
     Option.bind (checked_mul (ucast g) gas_price) (\<lambda>x.
     Option.bind (checked_mul x (ucast GAS_PRICE_PERCENTAGE_MULTIPLIER)) (\<lambda>y.
     Some (y div ucast PERCENTAGE_DIVIDER))))"

definition estimate_fee_per_proof :: "FeeEstimationType \<Rightarrow> u256 \<Rightarrow> u256 option" where
  "estimate_fee_per_proof t gas_price =
     (case t of
        FeeDefault \<Rightarrow> calculate_fee_per_proof_with_gas_price DEFAULT_MAX_FEE_BATCH_SIZE gas_price
      | FeeInstant \<Rightarrow> calculate_fee_per_proof_with_gas_price INSTANT_MAX_FEE_BATCH_SIZE gas_price
      | FeeCustom n \<Rightarrow> calculate_fee_per_proof_with_gas_price n gas_price)"

text \<open>The gas price a new block's batch is built with (\<open>handle_new_block\<close>).\<close>

definition modified_gas_price :: "u256 \<Rightarrow> u256 option" where
  "modified_gas_price gas_price =
     Option.bind (checked_mul gas_price (ucast GAS_PRICE_PERCENTAGE_MULTIPLIER))
       (\<lambda>x. Some (x div ucast PERCENTAGE_DIVIDER))"

record CreateNewTaskFeeParams =
  fee_for_aggregator :: u256
  fee_per_proof :: u256
  fp_gas_price :: u256
  respond_to_task_fee_limit :: u256

definition create_new_task_fee_params ::
    "u128 \<Rightarrow> u128 \<Rightarrow> nat \<Rightarrow> u256 \<Rightarrow> CreateNewTaskFeeParams option" where
  "create_new_task_fee_params multiplier aggregator_gas_cost num_proofs_in_batch gas_price =
     Option.bind (gas_per_proof (constant_gas_cost multiplier aggregator_gas_cost)
                    num_proofs_in_batch) (\<lambda>g.
     Option.bind (checked_mul (ucast g) gas_price) (\<lambda>fpp.
     Option.bind (checked_mul (ucast aggregator_gas_cost) gas_price) (\<lambda>a.
     Option.bind (checked_mul a (ucast multiplier)) (\<lambda>b.
     let ffa = b div ucast PERCENTAGE_DIVIDER in
     Option.bind (checked_mul ffa (ucast RESPOND_TO_TASK_FEE_LIMIT_PERCENTAGE_MULTIPLIER)) (\<lambda>c.
     Some \<lparr> fee_for_aggregator = ffa, fee_per_proof = fpp, fp_gas_price = gas_price,
            respond_to_task_fee_limit = c div ucast PERCENTAGE_DIVIDER \<rparr>)))))"

definition calculate_bumped_gas_price :: "u256 \<Rightarrow> u256 \<Rightarrow> nat \<Rightarrow> u256 option" where
  "calculate_bumped_gas_price previous_gas_price current_gas_price iteration =
     Option.bind (checked_add (ucast OVERRIDE_GAS_PRICE_PERCENTAGE_MULTIPLIER)
                    (of_nat (GAS_PRICE_INCREMENT_PERCENTAGE_PER_ITERATION * iteration))) (\<lambda>m.
     Option.bind (checked_mul previous_gas_price m) (\<lambda>p.
     Option.bind (checked_mul current_gas_price m) (\<lambda>c.
     Some (max (c div ucast PERCENTAGE_DIVIDER) (p div ucast PERCENTAGE_DIVIDER)))))"

section \<open>Gas per proof\<close>

text \<open>Inputs for which the \<open>u128\<close> computation does not wrap.\<close>

definition gas_in_range :: "u128 \<Rightarrow> nat \<Rightarrow> bool" where
  "gas_in_range c n \<longleftrightarrow> 0 < n \<and> unat c + 2000 * n < 2 ^ 128"

lemma gas_per_proof_exact:
  assumes "gas_in_range c n"
  obtains g where "gas_per_proof c n = Some g" "unat g = unat c div n + 2000"
proof
  from assms have n: "n < 2 ^ 128" "0 < n" and r: "unat c + 2000 * n < 2 ^ 128"
    by (auto simp: gas_in_range_def)
  have un: "unat (of_nat n :: u128) = n"
    using n by (simp add: unat_of_nat)
  then have nz: "(of_nat n :: u128) \<noteq> 0" using n by auto
  have m: "unat ((2000 :: u128) * of_nat n) = 2000 * n"
    using r un by (simp add: unat_word_ariths)
  have s: "unat (c + 2000 * of_nat n) = unat c + 2000 * n"
    using r m by (simp add: unat_word_ariths)
  let ?g = "(c + 2000 * of_nat n) div of_nat n"
  show "gas_per_proof c n = Some ?g"
    using nz by (simp add: gas_per_proof_def sdk_constants)
  have "unat ?g = (unat c + 2000 * n) div n"
    by (simp add: unat_div s un)
  then show "unat ?g = unat c div n + 2000"
    using n by simp
qed

lemma unat_ucast_u128 [simp]: "unat (ucast (g :: u128) :: u256) = unat g"
  unfolding unsigned_ucast_eq by (rule take_bit_nat_eq_self) (rule order_less_trans [OF unsigned_less], simp)

lemma gas_per_proof_SomeD:
  "gas_in_range c n \<Longrightarrow> gas_per_proof c n = Some g \<Longrightarrow> unat g = unat c div n + 2000"
  by (metis gas_per_proof_exact option.inject)

lemma calculate_fee_per_proof_Some:
  assumes "gas_in_range c n" "calculate_fee_per_proof n gp c = Some f"
  shows "unat f = (unat c div n + 2000) * unat gp"
  using assms gas_per_proof_SomeD [OF assms(1)]
  by (auto simp: calculate_fee_per_proof_def checked_simps bind_eq_Some_conv)

lemma calculate_fee_per_proof_defined:
  assumes "gas_in_range c n" "(unat c div n + 2000) * unat gp < 2 ^ 256"
  obtains f where "calculate_fee_per_proof n gp c = Some f"
proof -
  obtain g where g: "gas_per_proof c n = Some g" "unat g = unat c div n + 2000"
    by (rule gas_per_proof_exact [OF assms(1)])
  then have "checked_mul (ucast g) gp \<noteq> None"
    using assms(2) by (simp add: checked_mul_None)
  then show ?thesis
    using that g by (auto simp: calculate_fee_per_proof_def)
qed

lemma calculate_fee_zero: "calculate_fee_per_proof 0 gp c = None"
  by (simp add: calculate_fee_per_proof_def gas_per_proof_def)

lemma mult_div_le_div_mult: "0 < d \<Longrightarrow> a * (b div d) \<le> a * b div d" for a b d :: nat
  by (simp add: less_eq_div_iff_mult_less_eq mult.assoc)

lemma unat_constants [simp]:
  "unat PERCENTAGE_DIVIDER = 100"
  "unat GAS_PRICE_PERCENTAGE_MULTIPLIER = 110"
  "unat OVERRIDE_GAS_PRICE_PERCENTAGE_MULTIPLIER = 120"
  "unat RESPOND_TO_TASK_FEE_LIMIT_PERCENTAGE_MULTIPLIER = 250"
  by (simp_all add: sdk_constants)

lemma modified_gas_price_Some:
  "modified_gas_price gp = Some m \<Longrightarrow> unat m = unat gp * 110 div 100"
  by (auto simp: modified_gas_price_def bind_eq_Some_conv checked_simps unat_div)

lemma fee_estimate_Some:
  assumes "gas_in_range DEFAULT_CONSTANT_GAS_COST n"
    and "calculate_fee_per_proof_with_gas_price n gp = Some e"
  shows "unat e = (537500 div n + 2000) * unat gp * 110 div 100"
  using assms gas_per_proof_SomeD [OF assms(1)]
  by (auto simp: calculate_fee_per_proof_with_gas_price_def bind_eq_Some_conv checked_simps unat_div
      DEFAULT_CONSTANT_GAS_COST_value)

lemma fee_params_Some:
  assumes "create_new_task_fee_params multi cost n gp = Some p"
  shows "calculate_fee_per_proof n gp (constant_gas_cost multi cost) = Some (fee_per_proof p)"
    and "fp_gas_price p = gp"
    and "unat (fee_for_aggregator p) = unat cost * unat gp * unat multi div 100"
    and "unat (respond_to_task_fee_limit p) = unat (fee_for_aggregator p) * 250 div 100"
  using assms
  by (auto simp: create_new_task_fee_params_def calculate_fee_per_proof_def bind_eq_Some_conv
      checked_simps unat_div Let_def)

lemma gas_in_range_default: "0 < n \<Longrightarrow> n < 2 ^ 100 \<Longrightarrow> gas_in_range DEFAULT_CONSTANT_GAS_COST n"
  by (simp add: gas_in_range_def DEFAULT_CONSTANT_GAS_COST_value)

section \<open>Properties\<close>

text \<open>The size of the batch that an estimate is made for.\<close>

definition estimated_batch_size :: "FeeEstimationType \<Rightarrow> nat" where
  "estimated_batch_size t =
     (case t of FeeDefault \<Rightarrow> DEFAULT_MAX_FEE_BATCH_SIZE | FeeInstant \<Rightarrow> INSTANT_MAX_FEE_BATCH_SIZE | FeeCustom n \<Rightarrow> n)"

lemma estimate_fee_per_proof_eq:
  "estimate_fee_per_proof t gp = calculate_fee_per_proof_with_gas_price (estimated_batch_size t) gp"
  by (cases t) (simp_all add: estimate_fee_per_proof_def estimated_batch_size_def)

text \<open>
  Claim C24. The fee the SDK estimates, of whatever type, covers what the batcher charges in any batch of at least the
  size the estimate is made for, built at the same network gas price, by a batcher whose configured multiplier and aggregator
  gas cost give a constant cost of at most the SDK's default: rounding in the two computations never makes
  the estimate fall short. (A batcher that is configured to charge more is not covered: the SDK does not ask it.)
\<close>

theorem estimate_covers_charged_fee:
  assumes "estimate_fee_per_proof t gas_price = Some est"
    and "estimated_batch_size t \<le> m" "m < 2 ^ 100"
    and "constant_gas_cost multiplier aggregator_gas_cost \<le> DEFAULT_CONSTANT_GAS_COST"
    and "modified_gas_price gas_price = Some mgp"
    and "calculate_fee_per_proof m mgp (constant_gas_cost multiplier aggregator_gas_cost) = Some f"
  shows "f \<le> est"
proof -
  let ?n = "estimated_batch_size t" and ?c = "constant_gas_cost multiplier aggregator_gas_cost" and ?g = "unat gas_price"
  have e: "calculate_fee_per_proof_with_gas_price ?n gas_price = Some est" using assms(1) estimate_fee_per_proof_eq by simp
  have n: "0 < ?n"
    using e by (cases "?n = 0") (auto simp: calculate_fee_per_proof_with_gas_price_def gas_per_proof_def)
  have c: "unat ?c \<le> 537500" using assms(4) by (simp add: word_le_nat_alt DEFAULT_CONSTANT_GAS_COST_value)
  have r: "gas_in_range DEFAULT_CONSTANT_GAS_COST ?n" "gas_in_range ?c m"
    using n assms(2,3) c gas_in_range_default [of ?n] by (auto simp: gas_in_range_def)
  have "unat f = (unat ?c div m + 2000) * (?g * 110 div 100)"
    using calculate_fee_per_proof_Some [OF r(2) assms(6)] modified_gas_price_Some [OF assms(5)] by simp
  also have "\<dots> \<le> (537500 div ?n + 2000) * (?g * 110 div 100)"
  proof (intro mult_right_mono add_right_mono)
    have "unat ?c div m \<le> 537500 div m" by (rule div_le_mono [OF c])
    also have "\<dots> \<le> 537500 div ?n" using n assms(2) by (intro div_le_mono2)
    finally show "unat ?c div m \<le> 537500 div ?n" .
  qed simp
  also have "\<dots> \<le> (537500 div ?n + 2000) * (?g * 110) div 100"
    by (rule mult_div_le_div_mult) simp
  also have "\<dots> = unat est"
    using fee_estimate_Some [OF r(1) e] by (simp add: mult.assoc)
  finally show ?thesis by (simp add: word_le_nat_alt)
qed

theorem estimate_covers_charged_fee_witness:
  "estimate_fee_per_proof (FeeCustom 10) 1000 = Some 61325000 \<and>
   (39152300 :: u256) \<le> the (estimate_fee_per_proof (FeeCustom 10) 1000)"
proof -
  have "estimate_fee_per_proof (FeeCustom 10) 1000 = Some 61325000" "modified_gas_price 1000 = Some 1100"
    "estimated_batch_size (FeeCustom 10) = 10" "constant_gas_cost 125 330000 = 537500"
    "DEFAULT_CONSTANT_GAS_COST = 537500" "calculate_fee_per_proof 16 1100 537500 = Some 39152300"
    by (simp_all add: estimate_fee_per_proof_def calculate_fee_per_proof_with_gas_price_def modified_gas_price_def
        calculate_fee_per_proof_def gas_per_proof_def DEFAULT_CONSTANT_GAS_COST_value sdk_constants
        checked_mul_def estimated_batch_size_def constant_gas_cost_def)
  then show ?thesis
    using estimate_covers_charged_fee [of "FeeCustom 10" 1000 61325000 16 125 330000 1100 39152300] by simp
qed

text \<open>
  Claim C25. The fees of a batch never exceed its cost and miss it by less than one gas unit per
  proof: charging every one of the \<open>n\<close> proofs the fee per proof collects at most the price of the
  gas the batch uses, and more than that price minus \<open>n\<close> gas units.
\<close>

theorem batch_fees_bound_cost:
  assumes "gas_in_range c n" "calculate_fee_per_proof n gas_price c = Some f" "0 < gas_price"
  shows "n * unat f \<le> (unat c + 2000 * n) * unat gas_price \<and>
         (unat c + 2000 * n) * unat gas_price < n * unat f + n * unat gas_price"
proof
  have n: "0 < n" using assms(1) by (simp add: gas_in_range_def)
  have f: "unat f = (unat c div n + 2000) * unat gas_price"
    by (rule calculate_fee_per_proof_Some [OF assms(1,2)])
  have "n * (unat c div n + 2000) \<le> unat c + 2000 * n"
    by (simp add: algebra_simps)
  then show "n * unat f \<le> (unat c + 2000 * n) * unat gas_price"
    unfolding f by (metis mult.assoc mult_le_mono1)
  have g: "0 < unat gas_price" using assms(3) by (simp add: word_less_nat_alt)
  have "unat c < n * (unat c div n) + n"
    using n by (metis dividend_less_times_div mult_Suc_right add.commute)
  then have "unat c + 2000 * n < n * (unat c div n + 2000) + n"
    by (simp add: algebra_simps)
  then have "(unat c + 2000 * n) * unat gas_price < (n * (unat c div n + 2000) + n) * unat gas_price"
    using g by simp
  then show "(unat c + 2000 * n) * unat gas_price < n * unat f + n * unat gas_price"
    unfolding f by (simp add: algebra_simps)
qed

theorem batch_fees_bound_cost_witness:
  "3 * unat (1811660 :: u256) \<le> (unat (537500 :: u128) + 2000 * 3) * unat (10 :: u256)"
proof -
  have "calculate_fee_per_proof 3 10 537500 = Some 1811660" "gas_in_range 537500 3"
    by (simp_all add: calculate_fee_per_proof_def gas_per_proof_def sdk_constants checked_mul_def
        gas_in_range_def)
  then show ?thesis
    using batch_fees_bound_cost [of 537500 3 10 1811660] by simp
qed

text \<open>
  Claim C26. A cancelling transaction always outbids: the bumped gas price is at least
  20 percent (rounded down) above both the gas price used before and the current one, it grows with
  the iteration, and it is strictly above the previous price as soon as that is at least 5 wei.
\<close>

theorem bumped_gas_price_outbids:
  assumes "calculate_bumped_gas_price previous current iteration = Some p"
    and "5 * iteration < 2 ^ 64"
  shows "unat previous * (120 + 5 * iteration) div 100 \<le> unat p \<and>
         unat current * (120 + 5 * iteration) div 100 \<le> unat p \<and>
         (5 \<le> previous \<longrightarrow> previous < p)"
proof -
  have i: "unat (of_nat (5 * iteration) :: u256) = 5 * iteration"
    unfolding unat_of_nat by (rule mod_less) (use assms(2) in simp)
  obtain m a b where m: "unat (m :: u256) = 120 + 5 * iteration"
    and a: "unat a = unat previous * unat m" and b: "unat b = unat current * unat m"
    and p: "p = max (b div ucast PERCENTAGE_DIVIDER) (a div ucast PERCENTAGE_DIVIDER)"
    using assms(1) i
    unfolding calculate_bumped_gas_price_def GAS_PRICE_INCREMENT_PERCENTAGE_PER_ITERATION_def
      bind_eq_Some_conv checked_simps option.inject
    by (metis unat_constants(3) unat_ucast_u128)
  have pa: "unat previous * (120 + 5 * iteration) div 100 \<le> unat p"
    and pb: "unat current * (120 + 5 * iteration) div 100 \<le> unat p"
    using p a b m by (auto simp: max_def word_le_nat_alt unat_div)
  have "previous < p" if "5 \<le> previous"
  proof -
    have ge: "5 \<le> unat previous" using that by (simp add: word_le_nat_alt)
    have "unat previous * 120 div 100 \<le> unat previous * (120 + 5 * iteration) div 100"
      by (intro div_le_mono mult_le_mono2) simp
    moreover have "unat previous < unat previous * 120 div 100" using ge by linarith
    ultimately show ?thesis using pa by (simp add: word_less_nat_alt)
  qed
  with pa pb show ?thesis by blast
qed

theorem bumped_gas_price_outbids_witness:
  "unat (1500 :: u256) * (120 + 5 * 1) div 100 \<le> unat (1875 :: u256) \<and> (1500 :: u256) < 1875"
proof -
  have "calculate_bumped_gas_price 1500 1200 1 = Some 1875"
    by (simp add: calculate_bumped_gas_price_def sdk_constants checked_add_def checked_mul_def max_def)
  then show ?thesis
    using bumped_gas_price_outbids [of 1500 1200 1 1875] by simp
qed

end
