(* ===== verification/Errors.thy ===== *)
theory Errors
  imports Prelude
begin

text \<open>
  The error values of the batcher (\<open>batcher/src/types/errors.rs\<close>) and the decoding of the revert
  data of \<open>createNewTask\<close> into a \<open>TransactionSendError\<close>. How \<open>ethers\<close> prints bytes and how the
  \<open>hex\<close> crate decodes them is the interface \<open>hex_codec\<close>.
\<close>

datatype TransactionSendError =
    NoProofSubmitters
  | NoFeePerProof
  | InsufficientFeeForAggregator
  | SubmissionInsufficientBalance address
  | BatchAlreadySubmitted
  | InsufficientFunds
  | OnlyBatcherAllowed
  | Generic string

datatype BatcherError =
    TcpListenerError string
  | ConnectionError string
  | BatchVerifiedEventStreamError string
  | EthereumSubscriptionError string
  | SignatureError string
  | BatchUploadError string
  | TaskCreationError string
  | ReceiptNotFoundError
  | TransactionSendErr TransactionSendError
  | MaxRetriesReachedError
  | SerializationErr string
  | GasPriceError
  | DisabledVerifiersError string
  | BatchCostTooHigh
  | WsSinkEmpty
  | AddressNotFoundInUserStates address
  | QueueRemoveError string
  | StateCorruptedAndFlushed string
  | EthereumProviderError string

text \<open>\<open>Address::from_slice\<close>: the big-endian value of exactly 20 bytes, a panic otherwise.\<close>

fun be_value :: "bytes \<Rightarrow> nat" where
  "be_value [] = 0"
| "be_value (b # bs) = unat b * 256 ^ length bs + be_value bs"

definition address_from_slice :: "bytes \<Rightarrow> address option" where
  "address_from_slice bs = (if length bs = 20 then Some (of_nat (be_value bs)) else None)"

record hex_ops =
  bytes_to_string :: "bytes \<Rightarrow> string"
  hex_encode :: "bytes \<Rightarrow> string"
  hex_decode :: "string \<Rightarrow> bytes option"

text \<open>\<open>s.get(a..b)\<close> on an ASCII string: \<open>None\<close> when the range leaves the string.\<close>

definition str_get :: "string \<Rightarrow> nat \<Rightarrow> nat \<Rightarrow> string option" where
  "str_get s a b = (if a \<le> b \<and> b \<le> length s then Some (take (b - a) (drop a s)) else None)"

definition decode_sender :: "hex_ops \<Rightarrow> string \<Rightarrow> address option" where
  "decode_sender H byte_string =
     (case Option.bind (str_get byte_string 34 74) (hex_decode H) of
        None \<Rightarrow> Some 0
      | Some bs \<Rightarrow> address_from_slice bs)"

text \<open>\<open>From<Bytes> for TransactionSendError\<close>; \<open>None\<close> is the panic of \<open>Address::from_slice\<close>.\<close>

definition transaction_send_error_from :: "hex_ops \<Rightarrow> bytes \<Rightarrow> TransactionSendError option" where
  "transaction_send_error_from H e =
     (let byte_string = bytes_to_string H e;
          str_code = (if 10 \<le> length byte_string then take 10 byte_string else [])
      in if str_code = ''0xc43ac290'' then Some NoProofSubmitters
         else if str_code = ''0xa3a8658a'' then Some NoFeePerProof
         else if str_code = ''0x7899ec71'' then Some InsufficientFeeForAggregator
         else if str_code = ''0x3102f10c'' then Some BatchAlreadySubmitted
         else if str_code = ''0x5c54305e'' then Some InsufficientFunds
         else if str_code = ''0x152bc288'' then Some OnlyBatcherAllowed
         else if str_code = ''0x4f779ceb'' then
           map_option SubmissionInsufficientBalance (decode_sender H byte_string)
         else Some (Generic (''Unknown bytestring error: '' @ byte_string)))"

section \<open>The printed form of bytes\<close>

locale hex_codec =
  fixes H :: hex_ops
  assumes to_string: "bytes_to_string H bs = ''0x'' @ hex_encode H bs"
    and enc_append: "hex_encode H (as @ bs) = hex_encode H as @ hex_encode H bs"
    and enc_length: "length (hex_encode H bs) = 2 * length bs"
    and decode_enc: "hex_decode H (hex_encode H bs) = Some bs"
    and decode_length: "hex_decode H s = Some bs \<Longrightarrow> length s = 2 * length bs"
begin

text \<open>The slice \<open>34..74\<close> of the printed revert data is the encoding of bytes 16 to 36.\<close>

lemma sender_slice:
  assumes "length pre = 16" "length addr = 20"
  shows "str_get (bytes_to_string H (pre @ addr @ rest)) 34 74 = Some (hex_encode H addr)"
  using assms by (simp add: str_get_def to_string enc_append enc_length)

lemma decode_sender_ok:
  assumes "length pre = 16" "length addr = 20"
  shows "decode_sender H (bytes_to_string H (pre @ addr @ rest)) = address_from_slice addr"
  using sender_slice [OF assms] by (simp add: decode_sender_def decode_enc)

lemma selector_slice:
  assumes "length sel = 4"
  shows "take 10 (bytes_to_string H (sel @ rest)) = ''0x'' @ hex_encode H sel"
    and "10 \<le> length (bytes_to_string H (sel @ rest))"
  using assms by (simp_all add: to_string enc_append enc_length)

lemma decode_insufficient_balance:
  assumes sel: "length sel = 4" "hex_encode H sel = ''4f779ceb''"
    and pad: "length pad = 12" and addr: "length addr = 20"
  shows "transaction_send_error_from H (sel @ pad @ addr @ rest) =
         Some (SubmissionInsufficientBalance (of_nat (be_value addr)))"
proof -
  have "decode_sender H (bytes_to_string H ((sel @ pad) @ addr @ rest)) = address_from_slice addr"
    using sel pad addr by (intro decode_sender_ok) auto
  then show ?thesis
    using selector_slice [OF sel(1), of "pad @ addr @ rest"] sel(2) addr
    by (simp add: transaction_send_error_from_def Let_def address_from_slice_def)
qed

text \<open>The slice has 40 characters, so its decoding has the 20 bytes \<open>from_slice\<close> asks for.\<close>

lemma decode_sender_total: "decode_sender H s \<noteq> None"
proof -
  have "length bs = 20" if "hex_decode H (take 40 (drop 34 s)) = Some bs" "74 \<le> length s" for bs
    using decode_length [OF that(1)] that(2) by simp
  then show ?thesis
    by (auto simp: decode_sender_def str_get_def address_from_slice_def bind_eq_Some_conv
        split: option.splits)
qed

lemma transaction_send_error_total: "transaction_send_error_from H e \<noteq> None"
  using decode_sender_total by (simp add: transaction_send_error_from_def Let_def)

end

text \<open>Lower-case hexadecimal, the printed form the documentation gives.\<close>

definition hex_digit :: "nat \<Rightarrow> char" where
  "hex_digit n = ''0123456789abcdef'' ! n"

definition hex_encode_bytes :: "bytes \<Rightarrow> string" where
  "hex_encode_bytes bs = concat (map (\<lambda>b. [hex_digit (unat b div 16), hex_digit (unat b mod 16)]) bs)"

fun hex_value :: "char \<Rightarrow> nat option" where
  "hex_value c =
     (let n = of_char c :: nat in
      if 48 \<le> n \<and> n \<le> 57 then Some (n - 48)
      else if 97 \<le> n \<and> n \<le> 102 then Some (n - 87)
      else if 65 \<le> n \<and> n \<le> 70 then Some (n - 55) else None)"

fun hex_decode_list :: "string \<Rightarrow> bytes option" where
  "hex_decode_list [] = Some []"
| "hex_decode_list [_] = None"
| "hex_decode_list (a # b # s) =
     Option.bind (hex_value a) (\<lambda>h. Option.bind (hex_value b) (\<lambda>l.
       map_option (Cons (of_nat (16 * h + l))) (hex_decode_list s)))"

definition std_hex :: hex_ops where
  "std_hex = \<lparr> bytes_to_string = (\<lambda>bs. ''0x'' @ hex_encode_bytes bs),
     hex_encode = hex_encode_bytes, hex_decode = hex_decode_list \<rparr>"

lemma hex_value_digit: "n < 16 \<Longrightarrow> hex_value (hex_digit n) = Some n"
proof -
  have "\<forall>n \<in> {0..<16}. hex_value (hex_digit n) = Some n"
    unfolding hex_digit_def by code_simp
  then show "n < 16 \<Longrightarrow> hex_value (hex_digit n) = Some n" by simp
qed

lemma hex_decode_encode: "hex_decode_list (hex_encode_bytes bs) = Some bs"
proof (induction bs)
  case (Cons b bs)
  have b: "unat b < 256" using unsigned_less [of b] by simp
  then have "unat b div 16 < 16" by linarith
  moreover have "(of_nat (16 * (unat b div 16) + unat b mod 16) :: byte) = b"
    unfolding mult_div_mod_eq by simp
  then have "16 * of_nat (unat b div 16) + of_nat (unat b mod 16) = b"
    by (simp only: of_nat_add of_nat_mult of_nat_numeral)
  ultimately show ?case
    using Cons by (simp add: hex_encode_bytes_def hex_value_digit del: hex_value.simps)
qed (simp add: hex_encode_bytes_def)

lemma hex_decode_length: "hex_decode_list s = Some bs \<Longrightarrow> length s = 2 * length bs"
  by (induction s arbitrary: bs rule: hex_decode_list.induct)
    (auto simp: bind_eq_Some_conv simp del: hex_value.simps)

interpretation std_hex: hex_codec std_hex
  by unfold_locales
    (auto simp: std_hex_def hex_encode_bytes_def hex_decode_encode [unfolded hex_encode_bytes_def]
       sum_list_triv length_concat comp_def hex_decode_length)

text \<open>
  Claim C27. Decoding the revert data of \<open>createNewTask\<close> never panics, and revert data that starts
  with the selector of \<open>SubmissionInsufficientBalance\<close> followed by the ABI encoding of an address
  (12 bytes of padding, the 20 bytes of the address) decodes to that error with that address.
\<close>

theorem revert_data_decoding:
  assumes "hex_codec H"
  shows "transaction_send_error_from H e \<noteq> None \<and>
    (length sel = 4 \<and> hex_encode H sel = ''4f779ceb'' \<and> length pad = 12 \<and> length addr = 20 \<longrightarrow>
       transaction_send_error_from H (sel @ pad @ addr @ rest) =
         Some (SubmissionInsufficientBalance (of_nat (be_value addr))))"
  using hex_codec.transaction_send_error_total [OF assms]
    hex_codec.decode_insufficient_balance [OF assms]
  by blast

theorem revert_data_decoding_witness:
  "transaction_send_error_from std_hex
     ([79, 119, 156, 235] @ replicate 12 0 @ (replicate 19 0 @ [7]) @ replicate 64 0) =
   Some (SubmissionInsufficientBalance 7)"
proof -
  have sel: "length [79, 119, 156, 235 :: byte] = 4 \<and>
      hex_encode std_hex [79, 119, 156, 235] = ''4f779ceb'' \<and>
      length (replicate 12 0 :: bytes) = 12 \<and> length (replicate 19 0 @ [7] :: bytes) = 20"
    by (simp add: std_hex_def hex_encode_bytes_def hex_digit_def)
  have "be_value (replicate n 0 @ [7]) = 7" for n
    by (induction n) auto
  then have addr: "of_nat (be_value (replicate 19 0 @ [7])) = (7 :: address)"
    by (simp only: of_nat_numeral)
  show ?thesis
    using revert_data_decoding [OF std_hex.hex_codec_axioms,
        THEN conjunct2, THEN mp, OF sel, of "replicate 64 0"]
    unfolding addr .
qed

end
