(* ===== verification/Batch_Queue.thy ===== *)
theory Batch_Queue
  imports Priority_Queue Fees Errors
begin

text \<open>
  The batch queue (\<open>batcher/src/types/batch_queue.rs\<close>), the batch state around it
  (\<open>batch_state.rs\<close>) and the cached user state (\<open>user_state.rs\<close>). The queue itself is an instance
  of the interface of \<open>Priority_Queue\<close>; the definitions take its operations as their argument \<open>Q\<close>.
  The loops of \<open>extract_batch_directly\<close> are partial functions on the queue: that they end is proved
  from the contract of the queue, in the locale \<open>batch_pq\<close>.
\<close>

type_synonym sink = nat

record BatchQueueEntry =
  nonced_verification_data :: NoncedVerificationData
  verification_data_commitment :: VerificationDataCommitment
  messaging_sink :: "sink option"
  entry_signature :: signature
  sender :: address

abbreviation entry_fee :: "BatchQueueEntry \<Rightarrow> u256" where
  "entry_fee e \<equiv> max_fee (nonced_verification_data e)"

abbreviation entry_nonce :: "BatchQueueEntry \<Rightarrow> u256" where
  "entry_nonce e \<equiv> nonce (nonced_verification_data e)"

abbreviation entry_size :: "BatchQueueEntry \<Rightarrow> nat" where
  "entry_size e \<equiv> cbor_size_upper_bound (nonced_verification_data e)"

definition BatchQueueEntry_new ::
    "NoncedVerificationData \<Rightarrow> VerificationDataCommitment \<Rightarrow> sink \<Rightarrow> signature \<Rightarrow> address
     \<Rightarrow> BatchQueueEntry" where
  "BatchQueueEntry_new nvd vdc ws sig addr =
     \<lparr> nonced_verification_data = nvd, verification_data_commitment = vdc,
       messaging_sink = Some ws, entry_signature = sig, sender = addr \<rparr>"

text \<open>The identity of an entry: \<open>PartialEq\<close> and \<open>Hash\<close> look at the sender and the nonce only.\<close>

definition entry_key :: "BatchQueueEntry \<Rightarrow> address \<times> u256" where
  "entry_key e = (sender e, entry_nonce e)"

section \<open>Priorities\<close>

datatype BatchQueueEntryPriority =
  BatchQueueEntryPriority (prio_max_fee: u256) (prio_nonce: u256)

datatype ordering = Less | Equal | Greater

fun u256_cmp :: "u256 \<Rightarrow> u256 \<Rightarrow> ordering" where
  "u256_cmp a b = (if a < b then Less else if a = b then Equal else Greater)"

definition prio_cmp :: "BatchQueueEntryPriority \<Rightarrow> BatchQueueEntryPriority \<Rightarrow> ordering" where
  "prio_cmp self other =
     (let ord = u256_cmp (prio_max_fee other) (prio_max_fee self) in
      if ord = Equal then u256_cmp (prio_nonce self) (prio_nonce other) else ord)"

instantiation BatchQueueEntryPriority :: linorder
begin

definition less_eq_BatchQueueEntryPriority ::
    "BatchQueueEntryPriority \<Rightarrow> BatchQueueEntryPriority \<Rightarrow> bool" where
  "less_eq_BatchQueueEntryPriority a b \<longleftrightarrow> prio_cmp a b \<noteq> Greater"

definition less_BatchQueueEntryPriority ::
    "BatchQueueEntryPriority \<Rightarrow> BatchQueueEntryPriority \<Rightarrow> bool" where
  "less_BatchQueueEntryPriority a b \<longleftrightarrow> prio_cmp a b = Less"

instance
  by standard
    (auto simp: less_eq_BatchQueueEntryPriority_def less_BatchQueueEntryPriority_def prio_cmp_def
      Let_def split: if_splits intro: BatchQueueEntryPriority.expand)

end

lemma prio_le_iff:
  "a \<le> b \<longleftrightarrow> prio_max_fee b < prio_max_fee a
     \<or> prio_max_fee a = prio_max_fee b \<and> prio_nonce a \<le> prio_nonce b"
  for a b :: BatchQueueEntryPriority
  by (auto simp: less_eq_BatchQueueEntryPriority_def prio_cmp_def Let_def)

definition prio_of :: "BatchQueueEntry \<Rightarrow> BatchQueueEntryPriority" where
  "prio_of e = BatchQueueEntryPriority (entry_fee e) (entry_nonce e)"

type_synonym 'q bq_ops = "('q, BatchQueueEntry, BatchQueueEntryPriority) pq_ops"
type_synonym item = "BatchQueueEntry \<times> BatchQueueEntryPriority"

section \<open>Size of a batch\<close>

definition calculate_batch_size :: "'q bq_ops \<Rightarrow> 'q \<Rightarrow> BatcherError + nat" where
  "calculate_batch_size Q q =
     Inr (CBOR_ARRAY_MAX_OVERHEAD
          + foldl (\<lambda>acc x. acc + entry_size (fst x)) 0 (pq_iter Q q))"

section \<open>Extracting a batch\<close>

text \<open>Whether the entry at the top has to leave; \<open>None\<close> is a panic in the fee computation.\<close>

definition should_remove ::
    "'q bq_ops \<Rightarrow> u256 \<Rightarrow> nat \<Rightarrow> nat \<Rightarrow> u128 \<Rightarrow> 'q \<Rightarrow> nat \<Rightarrow> bool option" where
  "should_remove Q gas_price max_batch_byte_size max_batch_proof_qty constant_cost q batch_size =
     (case pq_peek Q q of
        None \<Rightarrow> Some False
      | Some (entry, _) \<Rightarrow>
        (let batch_len = pq_len Q q in
         map_option (\<lambda>fee_per_proof.
             max_batch_byte_size < batch_size \<or> entry_fee entry < fee_per_proof
             \<or> max_batch_proof_qty < batch_len)
           (calculate_fee_per_proof batch_len gas_price constant_cost)))"

partial_function (option) reject_loop ::
    "'q bq_ops \<Rightarrow> u256 \<Rightarrow> nat \<Rightarrow> nat \<Rightarrow> u128 \<Rightarrow> 'q \<Rightarrow> nat \<Rightarrow> item list
     \<Rightarrow> (item list, 'q) res option" where
  "reject_loop Q gas_price max_size max_qty cost q batch_size rejected =
     (case should_remove Q gas_price max_size max_qty cost q batch_size of
        None \<Rightarrow> Some (Panicked, q)
      | Some remove \<Rightarrow>
        if remove then
          (case pq_pop Q q of
             None \<Rightarrow> Some (Panicked, q)
           | Some (x, q') \<Rightarrow>
             reject_loop Q gas_price max_size max_qty cost q'
               (batch_size - entry_size (fst x)) (rejected @ [x]))
        else Some (Ret rejected, q))"

text \<open>\<open>while let Some((entry, _)) = batch_queue.pop()\<close>\<close>

partial_function (option) drain_loop ::
    "'q bq_ops \<Rightarrow> 'q \<Rightarrow> BatchQueueEntry list \<Rightarrow> (BatchQueueEntry list \<times> 'q) option" where
  "drain_loop Q q batch =
     (case pq_pop Q q of
        None \<Rightarrow> Some (batch, q)
      | Some (x, q') \<Rightarrow> drain_loop Q q' (batch @ [fst x]))"

definition push_all :: "'q bq_ops \<Rightarrow> 'q \<Rightarrow> item list \<Rightarrow> 'q" where
  "push_all Q q xs = foldl (\<lambda>q (e, p). pq_push Q q e p) q xs"

definition extract_batch_directly ::
    "'q bq_ops \<Rightarrow> 'q \<Rightarrow> u256 \<Rightarrow> nat \<Rightarrow> nat \<Rightarrow> u128
     \<Rightarrow> (BatcherError + BatchQueueEntry list, 'q) res" where
  "extract_batch_directly Q q gas_price max_batch_byte_size max_batch_proof_qty constant_cost =
     (case calculate_batch_size Q q of
        Inl e \<Rightarrow> (Ret (Inl e), q)
      | Inr batch_size \<Rightarrow>
        (case reject_loop Q gas_price max_batch_byte_size max_batch_proof_qty constant_cost
                q batch_size [] of
           None \<Rightarrow> (Stuck, q)
         | Some r \<Rightarrow> and_then r (\<lambda>rejected_entries q.
             if pq_is_empty Q q
             then (Ret (Inl BatchCostTooHigh), push_all Q q rejected_entries)
             else (case drain_loop Q q [] of
                     None \<Rightarrow> (Stuck, q)
                   | Some (batch_for_posting, q) \<Rightarrow>
                     (Ret (Inr batch_for_posting), push_all Q q rejected_entries)))))"

section \<open>Batch state and user state\<close>

record 'q BatchState =
  batch_queue :: 'q
  max_size :: nat

definition BatchState_new :: "'q bq_ops \<Rightarrow> nat \<Rightarrow> 'q BatchState" where
  "BatchState_new Q n = \<lparr> batch_queue = pq_new Q, max_size = n \<rparr>"

definition get_entry :: "'q bq_ops \<Rightarrow> 'q BatchState \<Rightarrow> address \<Rightarrow> u256 \<Rightarrow> BatchQueueEntry option" where
  "get_entry Q bs addr n =
     find (\<lambda>e. sender e = addr \<and> entry_nonce e = n) (map fst (pq_iter Q (batch_queue bs)))"

definition user_fees :: "item list \<Rightarrow> address \<Rightarrow> u256 list" where
  "user_fees xs addr = map (entry_fee \<circ> fst) (filter (\<lambda>x. sender (fst x) = addr) xs)"

definition get_user_min_fee_in_batch :: "'q bq_ops \<Rightarrow> 'q BatchState \<Rightarrow> address \<Rightarrow> u256" where
  "get_user_min_fee_in_batch Q bs addr =
     (case user_fees (pq_iter Q (batch_queue bs)) addr of
        [] \<Rightarrow> u256_max
      | f # fs \<Rightarrow> foldl min f fs)"

definition replacement_entry_is_valid :: "'q bq_ops \<Rightarrow> 'q BatchState \<Rightarrow> BatchQueueEntry \<Rightarrow> bool" where
  "replacement_entry_is_valid Q bs r =
     (\<not> list_ex (\<lambda>(e, _). sender e = sender r \<and> entry_nonce e < entry_nonce r
                          \<and> entry_fee e < entry_fee r)
         (pq_iter Q (batch_queue bs)))"

definition is_queue_full :: "'q bq_ops \<Rightarrow> 'q BatchState \<Rightarrow> bool" where
  "is_queue_full Q bs = (max_size bs \<le> pq_len Q (batch_queue bs))"

record UserState =
  us_nonce :: u256
  last_max_fee_limit :: u256
  total_fees_in_queue :: u256
  proofs_in_batch :: u64

definition UserState_new :: "u256 \<Rightarrow> UserState" where
  "UserState_new n =
     \<lparr> us_nonce = n, last_max_fee_limit = u256_max, total_fees_in_queue = 0, proofs_in_batch = 0 \<rparr>"

section \<open>What the extraction promises\<close>

definition sizes_sum :: "item list \<Rightarrow> nat" where
  "sizes_sum xs = sum_list (map (entry_size \<circ> fst) xs)"

definition fee_ok :: "u256 \<Rightarrow> u128 \<Rightarrow> item list \<Rightarrow> bool" where
  "fee_ok gp cost xs \<longleftrightarrow>
     (\<exists>f. calculate_fee_per_proof (length xs) gp cost = Some f \<and> (\<forall>x \<in> set xs. f \<le> entry_fee (fst x)))"

text \<open>A set of entries that may be posted together.\<close>

definition acceptable :: "u256 \<Rightarrow> nat \<Rightarrow> nat \<Rightarrow> u128 \<Rightarrow> item list \<Rightarrow> bool" where
  "acceptable gp max_bytes max_qty cost xs \<longleftrightarrow>
     CBOR_ARRAY_MAX_OVERHEAD + sizes_sum xs \<le> max_bytes \<and> length xs \<le> max_qty \<and> fee_ok gp cost xs"

text \<open>Every entry is queued under the priority of its own fee and nonce.\<close>

definition prio_ok :: "item list \<Rightarrow> bool" where
  "prio_ok xs \<longleftrightarrow> (\<forall>x \<in> set xs. snd x = prio_of (fst x))"

text \<open>The fee computation does not panic for any batch of at most \<open>n\<close> proofs.\<close>

definition fees_defined :: "u256 \<Rightarrow> u128 \<Rightarrow> nat \<Rightarrow> bool" where
  "fees_defined gp cost n \<longleftrightarrow> (\<forall>k. 0 < k \<and> k \<le> n \<longrightarrow> calculate_fee_per_proof k gp cost \<noteq> None)"

definition prio_desc :: "item list \<Rightarrow> bool" where
  "prio_desc xs = sorted_wrt (\<lambda>x y. snd y \<le> snd x) xs"

lemma foldl_sizes: "foldl (\<lambda>acc x. acc + entry_size (fst x)) n xs = n + sizes_sum xs"
  by (induction xs arbitrary: n) (auto simp: sizes_sum_def)

lemma sizes_sum_mset: "mset xs = mset ys \<Longrightarrow> sizes_sum xs = sizes_sum ys"
  unfolding sizes_sum_def by (rule sum_list_mset)

lemma acceptable_mset:
  assumes "mset xs = mset ys"
  shows "acceptable gp b n c xs = acceptable gp b n c ys"
  using sizes_sum_mset [OF assms] mset_eq_set [OF assms] mset_eq_size [OF assms]
  by (simp add: acceptable_def fee_ok_def)

lemma prio_ok_mset: "mset xs = mset ys \<Longrightarrow> prio_ok xs = prio_ok ys"
  by (auto simp: prio_ok_def dest: mset_eq_set)

lemma fee_of_prio_le: "prio_of a \<le> prio_of b \<Longrightarrow> entry_fee b \<le> entry_fee a"
  by (auto simp: prio_le_iff prio_of_def)

text \<open>
  The contract of the rejecting loop: \<open>whole\<close> is split into the rejected entries, in the order of
  their removal (lowest fee first), and the rest; the rest can be posted together or is empty,
  and before each removal the entries still there could not.
\<close>

definition rejects :: "u256 \<Rightarrow> nat \<Rightarrow> nat \<Rightarrow> u128 \<Rightarrow> item list \<Rightarrow> item list \<Rightarrow> item list \<Rightarrow> bool" where
  "rejects gp mb mq cost whole rej rest \<longleftrightarrow>
     mset whole = mset rej + mset rest \<and>
     (rest = [] \<or> acceptable gp mb mq cost rest) \<and>
     prio_desc rej \<and> (\<forall>x \<in> set rej. \<forall>y \<in> set rest. snd y \<le> snd x) \<and>
     (\<forall>k < length rej. \<not> acceptable gp mb mq cost (drop k rej @ rest))"

lemma rejects_Nil: "xs = [] \<or> acceptable gp mb mq cost xs \<Longrightarrow> rejects gp mb mq cost xs [] xs"
  by (auto simp: rejects_def prio_desc_def)

lemma rejects_Cons:
  assumes r: "rejects gp mb mq cost xs' rej rest"
    and m: "mset xs = add_mset x (mset xs')" and top: "\<forall>y \<in> set xs. snd y \<le> snd x"
    and na: "\<not> acceptable gp mb mq cost xs"
  shows "rejects gp mb mq cost xs (x # rej) rest"
proof -
  have s: "set xs = insert x (set rej \<union> set rest)"
    using r m by (metis rejects_def set_mset_add_mset_insert set_mset_mset set_mset_union)
  have "mset xs = mset (x # rej @ rest)"
    using r m by (simp add: rejects_def)
  then have "\<not> acceptable gp mb mq cost (x # rej @ rest)"
    using na acceptable_mset by blast
  moreover have "\<not> acceptable gp mb mq cost (drop k rej @ rest)" if "k < length rej" for k
    using r that by (simp add: rejects_def)
  ultimately have "\<not> acceptable gp mb mq cost (drop k (x # rej) @ rest)"
    if "k < length (x # rej)" for k
    using that by (cases k) auto
  then show ?thesis
    using r m top s by (auto simp: rejects_def prio_desc_def)
qed

lemma rejects_rest_mset:
  assumes "mset rest = mset rest'"
  shows "rejects gp mb mq cost whole rej rest = rejects gp mb mq cost whole rej rest'"
proof -
  have "acceptable gp mb mq cost (drop k rej @ rest) = acceptable gp mb mq cost (drop k rej @ rest')" for k
    using assms by (intro acceptable_mset) simp
  moreover have "rest = [] \<longleftrightarrow> rest' = []"
    using mset_eq_size [OF assms] by (metis length_0_conv)
  ultimately show ?thesis
    using assms mset_eq_set [OF assms] acceptable_mset [OF assms] by (simp add: rejects_def)
qed

lemma prio_desc_take_drop:
  assumes "prio_desc xs" "x \<in> set (take (Suc k) xs)" "z \<in> set (drop k xs)"
  shows "snd z \<le> snd x"
proof -
  obtain i where i: "i < Suc k" "i < length xs" "x = xs ! i"
    using assms(2) by (auto simp: in_set_conv_nth)
  obtain j where j: "k + j < length xs" "z = xs ! (k + j)"
    using assms(3) by (auto simp: in_set_conv_nth) (metis add.commute less_diff_conv)
  show ?thesis
  proof (cases "i = k + j")
    case False
    then have "i < k + j" using i(1) by linarith
    then show ?thesis
      using assms(1) i j sorted_wrt_nth_less unfolding prio_desc_def by blast
  qed (use i j in simp)
qed

lemma rejects_optimal:
  assumes r: "rejects gp mb mq cost whole rej rest" and ok: "prio_ok whole"
    and bytes: "CBOR_ARRAY_MAX_OVERHEAD + sizes_sum whole \<le> mb"
    and sub: "mset ys \<subseteq># mset whole" and acc: "acceptable gp mb mq cost ys"
  shows "length ys \<le> length rest"
proof (rule ccontr)
  assume "\<not> ?thesis"
  then have gt: "length rest < length ys" by simp
  have whole: "mset whole = mset (rej @ rest)" using r by (simp add: rejects_def)
  have le: "length ys \<le> length rej + length rest"
    using size_mset_mono [OF sub] mset_eq_size [OF whole] by simp
  define k where "k = length rej + length rest - length ys"
  have k: "k < length rej" using gt le by (simp add: k_def)
  let ?zs = "drop k rej @ rest"
  have len: "length ?zs = length ys" using k le gt by (simp add: k_def)
  obtain f where f: "calculate_fee_per_proof (length ys) gp cost = Some f"
    and fys: "\<forall>y \<in> set ys. f \<le> entry_fee (fst y)"
    using acc by (auto simp: acceptable_def fee_ok_def)
  have "sizes_sum whole = sizes_sum (take k rej) + sizes_sum ?zs"
    using sizes_sum_mset [OF whole] append_take_drop_id [of k rej]
    by (metis add.assoc map_append sizes_sum_def sum_list_append)
  then have "CBOR_ARRAY_MAX_OVERHEAD + sizes_sum ?zs \<le> mb" using bytes by simp
  moreover have "\<not> acceptable gp mb mq cost ?zs" using r k by (simp add: rejects_def)
  moreover have "length ?zs \<le> mq" using acc len by (simp add: acceptable_def)
  ultimately have "\<not> fee_ok gp cost ?zs" by (auto simp: acceptable_def)
  then obtain z where z: "z \<in> set ?zs" "entry_fee (fst z) < f"
    unfolding fee_ok_def len f by (auto simp: not_le)
  have low: "entry_fee (fst x) < f" if "x \<in> set (take (Suc k) rej)" for x
  proof -
    have "snd z \<le> snd x"
      using r z(1) that prio_desc_take_drop [of rej x k z] in_set_takeD [OF that]
      by (auto simp: rejects_def)
    moreover have "x \<in> set whole" "z \<in> set whole"
      using that z(1) mset_eq_set [OF whole] by (auto dest: in_set_takeD in_set_dropD)
    ultimately have "entry_fee (fst x) \<le> entry_fee (fst z)"
      using ok fee_of_prio_le by (metis prio_ok_def)
    then show ?thesis using z(2) by simp
  qed
  let ?P = "\<lambda>x. f \<le> entry_fee (fst x)"
  have none: "filter ?P (take (Suc k) rej) = []" using low by (fastforce simp: filter_empty_conv)
  have "filter ?P (rej @ rest) = filter ?P (drop (Suc k) rej @ rest)"
    using none append_take_drop_id [of "Suc k" rej] by (metis append_Nil filter_append)
  then have "length (filter ?P (rej @ rest)) \<le> length (drop (Suc k) rej @ rest)"
    by (metis length_filter_le)
  also have "\<dots> < length ys" using len k by simp
  finally have small: "size (filter_mset ?P (mset whole)) < length ys"
    unfolding whole by (metis mset_filter size_mset)
  have "filter ?P ys = ys" using fys by simp
  then have "length ys = size (filter_mset ?P (mset ys))" by (metis mset_filter size_mset)
  also have "\<dots> \<le> size (filter_mset ?P (mset whole))"
    by (intro size_mset_mono multiset_filter_mono sub)
  finally show False using small by simp
qed

locale batch_pq = priority_queue entry_key Q
  for Q :: "('q, BatchQueueEntry, BatchQueueEntryPriority) pq_ops"
begin

lemma calculate_batch_size_sum:
  "calculate_batch_size Q q = Inr (CBOR_ARRAY_MAX_OVERHEAD + sizes_sum (pq_iter Q q))"
  by (simp add: calculate_batch_size_def foldl_sizes)

text \<open>The entry at the top has the lowest fee, so it decides for all of them.\<close>

lemma should_remove_acceptable:
  assumes ok: "prio_ok (pq_iter Q q)" and ne: "pq_iter Q q \<noteq> []"
    and fd: "fees_defined gp cost (length (pq_iter Q q))"
  shows "should_remove Q gp mb mq cost q (CBOR_ARRAY_MAX_OVERHEAD + sizes_sum (pq_iter Q q)) =
         Some (\<not> acceptable gp mb mq cost (pq_iter Q q))"
proof -
  obtain x where x: "pq_peek Q q = Some x"
    using ne peek_None [of q] by (cases "pq_peek Q q") auto
  have top: "x \<in> set (pq_iter Q q)" "\<And>y. y \<in> set (pq_iter Q q) \<Longrightarrow> snd y \<le> snd x"
    using peek_Some [OF x] by auto
  obtain f where f: "calculate_fee_per_proof (length (pq_iter Q q)) gp cost = Some f"
    using fd ne by (fastforce simp: fees_defined_def)
  have "entry_fee (fst x) \<le> entry_fee (fst y)" if "y \<in> set (pq_iter Q q)" for y
    using top that ok by (metis fee_of_prio_le prio_ok_def)
  then have "f \<le> entry_fee (fst x) \<longleftrightarrow> (\<forall>y \<in> set (pq_iter Q q). f \<le> entry_fee (fst y))"
    using top(1) by (meson order_trans)
  then show ?thesis
    using x f by (auto simp: should_remove_def Let_def len_iter acceptable_def fee_ok_def
        split: prod.splits)
qed

lemma should_remove_empty: "pq_iter Q q = [] \<Longrightarrow> should_remove Q gp mb mq cost q n = Some False"
  using peek_None [of q] by (simp add: should_remove_def)

text \<open>
  The rejecting loop ends; it removes entries from the lowest fee on, each one because the
  entries still queued could not be posted together, until what is left can be (or nothing is).
\<close>

lemma reject_loop_spec:
  assumes "prio_ok (pq_iter Q q)" "fees_defined gp cost (length (pq_iter Q q))"
    and "n = CBOR_ARRAY_MAX_OVERHEAD + sizes_sum (pq_iter Q q)"
  shows "\<exists>rej q'. reject_loop Q gp mb mq cost q n acc = Some (Ret (acc @ rej), q')
           \<and> rejects gp mb mq cost (pq_iter Q q) rej (pq_iter Q q')"
  using assms
proof (induction "length (pq_iter Q q)" arbitrary: q n acc)
  case 0
  then have "pq_iter Q q = []" by simp
  then show ?case
    using should_remove_empty rejects_Nil
    by (subst reject_loop.simps) (fastforce simp del: reject_loop.simps)
next
  case (Suc k)
  have ne: "pq_iter Q q \<noteq> []" using Suc.hyps(2) by auto
  show ?case
  proof (cases "acceptable gp mb mq cost (pq_iter Q q)")
    case True
    then have "should_remove Q gp mb mq cost q n = Some False"
      using Suc.prems ne should_remove_acceptable by auto
    then have "reject_loop Q gp mb mq cost q n acc = Some (Ret (acc @ []), q)"
      by (subst reject_loop.simps) simp
    then show ?thesis using rejects_Nil [OF disjI2 [OF True]] by blast
  next
    case False
    obtain x q' where pop: "pq_pop Q q = Some (x, q')"
      using ne pop_None [of q] by (cases "pq_pop Q q") auto
    have len: "length (pq_iter Q q') = k" using pop_length [OF pop] Suc.hyps(2) by simp
    have m: "mset (pq_iter Q q) = add_mset x (mset (pq_iter Q q'))" by (rule pop_mset [OF pop])
    then have ok': "prio_ok (pq_iter Q q')"
      using Suc.prems(1) prio_ok_mset [of "pq_iter Q q" "x # pq_iter Q q'"] by (simp add: prio_ok_def)
    have fd': "fees_defined gp cost (length (pq_iter Q q'))"
      using Suc.prems(2) Suc.hyps(2) len by (auto simp: fees_defined_def)
    have "sizes_sum (pq_iter Q q) = entry_size (fst x) + sizes_sum (pq_iter Q q')"
      using sizes_sum_mset [of "pq_iter Q q" "x # pq_iter Q q'"] m by (simp add: sizes_sum_def)
    then have n': "n - entry_size (fst x) = CBOR_ARRAY_MAX_OVERHEAD + sizes_sum (pq_iter Q q')"
      using Suc.prems(3) by simp
    have "should_remove Q gp mb mq cost q n = Some True"
      using False Suc.prems ne should_remove_acceptable by auto
    then have step: "reject_loop Q gp mb mq cost q n acc =
        reject_loop Q gp mb mq cost q' (n - entry_size (fst x)) (acc @ [x])"
      using pop by (subst reject_loop.simps) simp
    obtain rej q'' where "reject_loop Q gp mb mq cost q' (n - entry_size (fst x)) (acc @ [x])
         = Some (Ret ((acc @ [x]) @ rej), q'')"
      and "rejects gp mb mq cost (pq_iter Q q') rej (pq_iter Q q'')"
      using Suc.hyps(1) [OF len [symmetric] ok' fd' n'] by blast
    then show ?thesis
      using step rejects_Cons [OF _ m _ False] pop_Some [OF pop] by (metis append_Cons append_assoc append_Nil)
  qed
qed

lemma drain_loop_spec:
  "\<exists>xs q'. drain_loop Q q acc = Some (acc @ map fst xs, q') \<and> mset xs = mset (pq_iter Q q)
     \<and> prio_desc xs \<and> pq_iter Q q' = []"
proof (induction "length (pq_iter Q q)" arbitrary: q acc)
  case 0
  then have "pq_pop Q q = None" using pop_None [of q] by simp
  then have "drain_loop Q q acc = Some (acc @ map fst [], q)"
    by (subst drain_loop.simps) simp
  moreover have "pq_iter Q q = []" using 0 by simp
  ultimately show ?case by (metis mset.simps(1) prio_desc_def sorted_wrt.simps(1))
next
  case (Suc k)
  then have "pq_iter Q q \<noteq> []" by auto
  then obtain x q' where pop: "pq_pop Q q = Some (x, q')"
    using pop_None [of q] by (cases "pq_pop Q q") auto
  have "k = length (pq_iter Q q')" using pop_length [OF pop] Suc.hyps(2) by simp
  from Suc.hyps(1) [OF this, of "acc @ [fst x]"] obtain xs q'' where
    d: "drain_loop Q q' (acc @ [fst x]) = Some ((acc @ [fst x]) @ map fst xs, q'')"
    and m: "mset xs = mset (pq_iter Q q')" and s: "prio_desc xs" and e: "pq_iter Q q'' = []"
    by blast
  have "drain_loop Q q acc = Some (acc @ map fst (x # xs), q'')"
    using pop d by (subst drain_loop.simps) simp
  moreover have "mset (x # xs) = mset (pq_iter Q q)" using pop_mset [OF pop] m by simp
  moreover have "prio_desc (x # xs)"
    using s pop_Some [OF pop] mset_eq_set [OF m] mset_diff_set
    by (fastforce simp: prio_desc_def)
  ultimately show ?case using e by blast
qed

lemma push_all_mset:
  assumes "distinct (map (entry_key \<circ> fst) (xs @ pq_iter Q q))"
  shows "mset (pq_iter Q (push_all Q q xs)) = mset xs + mset (pq_iter Q q)"
  using assms
proof (induction xs arbitrary: q)
  case (Cons x xs)
  obtain e p where x: "x = (e, p)" by (cases x)
  have fresh: "entry_key e \<notin> entry_key ` fst ` set (pq_iter Q q)"
    using Cons.prems x by (auto simp: image_image)
  have m: "mset (pq_iter Q (pq_push Q q e p)) = mset (x # pq_iter Q q)"
    using push_new_key [OF fresh] x by simp
  then have "mset (xs @ pq_iter Q (pq_push Q q e p)) = mset ((x # xs) @ pq_iter Q q)"
    by simp
  then have "distinct (map (entry_key \<circ> fst) (xs @ pq_iter Q (pq_push Q q e p)))"
    using Cons.prems distinct_map_mset by blast
  from Cons.IH [OF this] m show ?case
    by (simp add: push_all_def x)
qed (simp add: push_all_def)

lemma push_back:
  assumes "mset (pq_iter Q q0) = mset rej + rest" "pq_iter Q q = []"
  shows "mset (pq_iter Q (push_all Q q rej)) = mset rej"
proof -
  have "distinct (map (entry_key \<circ> fst) rej)"
    using distinct_keys [of q0] assms(1)
    by (metis distinct_append distinct_map_mset ex_mset map_append mset_append)
  then show ?thesis using push_all_mset [of rej q] assms(2) by simp
qed

lemma extract_cases:
  assumes "prio_ok (pq_iter Q q)" "fees_defined gp cost (length (pq_iter Q q))"
  obtains (batch) rej xs q' where "extract_batch_directly Q q gp mb mq cost = (Ret (Inr (map fst xs)), q')"
      "rejects gp mb mq cost (pq_iter Q q) rej xs" "xs \<noteq> []" "prio_desc xs"
      "mset (pq_iter Q q') = mset rej"
    | (too_costly) rej q' where "extract_batch_directly Q q gp mb mq cost = (Ret (Inl BatchCostTooHigh), q')"
      "rejects gp mb mq cost (pq_iter Q q) rej []" "mset (pq_iter Q q') = mset (pq_iter Q q)"
proof -
  obtain rej q1 where l: "reject_loop Q gp mb mq cost q
        (CBOR_ARRAY_MAX_OVERHEAD + sizes_sum (pq_iter Q q)) [] = Some (Ret rej, q1)"
    and r: "rejects gp mb mq cost (pq_iter Q q) rej (pq_iter Q q1)"
    using reject_loop_spec [OF assms refl, of mb mq "[]"] by auto
  have m: "mset (pq_iter Q q) = mset rej + mset (pq_iter Q q1)" using r by (simp add: rejects_def)
  show ?thesis
  proof (cases "pq_iter Q q1 = []")
    case True
    show ?thesis
    proof (rule too_costly)
      show "extract_batch_directly Q q gp mb mq cost = (Ret (Inl BatchCostTooHigh), push_all Q q1 rej)"
        using l True by (simp add: extract_batch_directly_def calculate_batch_size_sum is_empty_iter)
      show "rejects gp mb mq cost (pq_iter Q q) rej []" using r True by simp
      show "mset (pq_iter Q (push_all Q q1 rej)) = mset (pq_iter Q q)"
        using push_back [OF m True] m True by simp
    qed
  next
    case False
    obtain xs q2 where d: "drain_loop Q q1 [] = Some (map fst xs, q2)"
      and xs: "mset xs = mset (pq_iter Q q1)" "prio_desc xs" and e: "pq_iter Q q2 = []"
      using drain_loop_spec [of q1 "[]"] by auto
    show ?thesis
    proof (rule batch)
      show "extract_batch_directly Q q gp mb mq cost = (Ret (Inr (map fst xs)), push_all Q q2 rej)"
        using l d False
        by (simp add: extract_batch_directly_def calculate_batch_size_sum is_empty_iter)
      show "rejects gp mb mq cost (pq_iter Q q) rej xs"
        using r xs(1) rejects_rest_mset by metis
      show "xs \<noteq> []" using False xs(1) by auto
      show "mset (pq_iter Q (push_all Q q2 rej)) = mset rej" by (rule push_back [OF m e])
    qed (rule xs(2))
  qed
qed

end

interpretation lbq: batch_pq "list_pq entry_key"
  by unfold_locales

section \<open>Properties of the extraction\<close>

lemma fees_definedI:
  assumes "gas_in_range cost n" "(unat cost + 2000) * unat gp < 2 ^ 256"
  shows "fees_defined gp cost n"
  unfolding fees_defined_def
proof (intro allI impI)
  fix k assume k: "0 < k \<and> k \<le> n"
  have r: "gas_in_range cost k" using assms(1) k by (auto simp: gas_in_range_def)
  have "(unat cost div k + 2000) * unat gp \<le> (unat cost + 2000) * unat gp"
    by (intro mult_le_mono1 add_le_mono1 div_le_dividend)
  then have "(unat cost div k + 2000) * unat gp < 2 ^ 256" using assms(2) by linarith
  then show "calculate_fee_per_proof k gp cost \<noteq> None"
    using calculate_fee_per_proof_defined [OF r] by (metis option.distinct(1))
qed

text \<open>
  What a returned batch satisfies: it is not empty, in order of increasing fee, its serialized size
  and its length are within the limits, and every entry's \<open>max_fee\<close> covers the fee per proof of a
  batch of exactly that length.
\<close>

definition postable :: "u256 \<Rightarrow> nat \<Rightarrow> nat \<Rightarrow> u128 \<Rightarrow> BatchQueueEntry list \<Rightarrow> bool" where
  "postable gp max_bytes max_qty cost batch \<longleftrightarrow>
     batch \<noteq> [] \<and> sorted_wrt (\<lambda>a b. prio_of b \<le> prio_of a) batch \<and>
     CBOR_ARRAY_MAX_OVERHEAD + sum_list (map entry_size batch) \<le> max_bytes \<and>
     length batch \<le> max_qty \<and>
     (\<exists>f. calculate_fee_per_proof (length batch) gp cost = Some f \<and> (\<forall>e \<in> set batch. f \<le> entry_fee e))"

lemma postable_map_fst:
  assumes "acceptable gp mb mq cost xs" "xs \<noteq> []" "prio_desc xs" "prio_ok xs"
  shows "postable gp mb mq cost (map fst xs)"
proof -
  have "sorted_wrt (\<lambda>x y. prio_of (fst y) \<le> prio_of (fst x)) xs"
    using assms(3,4) unfolding prio_desc_def prio_ok_def
    by (auto elim!: sorted_wrt_mono_rel [rotated]) (metis fst_conv snd_conv)
  then show ?thesis
    using assms(1,2) by (auto simp: postable_def acceptable_def fee_ok_def sizes_sum_def sorted_wrt_map comp_def)
qed

context batch_pq
begin

lemma extract_directly_spec:
  assumes "prio_ok (pq_iter Q q)" "fees_defined gp cost (length (pq_iter Q q))"
  shows "\<exists>r q'. extract_batch_directly Q q gp max_bytes max_qty cost = (Ret r, q') \<and>
    (case r of
       Inr batch \<Rightarrow> postable gp max_bytes max_qty cost batch \<and>
          mset (pq_iter Q q) = mset (map (\<lambda>e. (e, prio_of e)) batch) + mset (pq_iter Q q') \<and>
          (\<forall>x \<in> set (pq_iter Q q'). \<forall>e \<in> set batch. entry_fee (fst x) \<le> entry_fee e)
     | Inl err \<Rightarrow> err = BatchCostTooHigh \<and> mset (pq_iter Q q') = mset (pq_iter Q q))"
proof (rule extract_cases [OF assms(1,2), of max_bytes max_qty])
  fix rej xs q'
  assume e: "extract_batch_directly Q q gp max_bytes max_qty cost = (Ret (Inr (map fst xs)), q')"
    and r: "rejects gp max_bytes max_qty cost (pq_iter Q q) rej xs" and ne: "xs \<noteq> []"
    and d: "prio_desc xs" and m: "mset (pq_iter Q q') = mset rej"
  have whole: "mset (pq_iter Q q) = mset rej + mset xs" using r by (simp add: rejects_def)
  then have "prio_ok (rej @ xs)" using assms(1) prio_ok_mset [of "pq_iter Q q" "rej @ xs"] by simp
  then have ok: "\<And>x. x \<in> set rej \<union> set xs \<Longrightarrow> snd x = prio_of (fst x)" by (auto simp: prio_ok_def)
  have pairs: "map (\<lambda>e. (e, prio_of e)) (map fst xs) = xs"
    unfolding map_map by (rule map_idI) (use ok in \<open>auto simp: prod_eq_iff\<close>)
  have "entry_fee (fst x) \<le> entry_fee (fst y)" if "x \<in> set (pq_iter Q q')" "y \<in> set xs" for x y
    using that r mset_eq_set [OF m] ok by (metis UnI1 UnI2 fee_of_prio_le rejects_def)
  moreover have "postable gp max_bytes max_qty cost (map fst xs)"
    using r ne d ok by (intro postable_map_fst) (auto simp: rejects_def prio_ok_def)
  ultimately show ?thesis using e whole m pairs by (intro exI conjI [OF e]) (auto simp del: map_map)
next
  fix rej q'
  assume "extract_batch_directly Q q gp max_bytes max_qty cost = (Ret (Inl BatchCostTooHigh), q')"
    "mset (pq_iter Q q') = mset (pq_iter Q q)"
  then show ?thesis by (intro exI conjI) auto
qed

end

text \<open>
  Claim C3. \<open>extract_batch_directly\<close> always returns. A batch it returns can be posted; the batch
  and the queue left behind partition the old queue (entries and priorities), and no entry left
  behind offers a higher fee than an entry of the batch. An error is \<open>BatchCostTooHigh\<close> and leaves
  the contents of the queue unchanged.
\<close>

theorem extract_batch_directly_correct:
  assumes "batch_pq Q" "prio_ok (pq_iter Q q)" "fees_defined gp cost (length (pq_iter Q q))"
  shows "\<exists>r q'. extract_batch_directly Q q gp max_bytes max_qty cost = (Ret r, q') \<and>
    (case r of
       Inr batch \<Rightarrow> postable gp max_bytes max_qty cost batch \<and>
          mset (pq_iter Q q) = mset (map (\<lambda>e. (e, prio_of e)) batch) + mset (pq_iter Q q') \<and>
          (\<forall>x \<in> set (pq_iter Q q'). \<forall>e \<in> set batch. entry_fee (fst x) \<le> entry_fee e)
     | Inl err \<Rightarrow> err = BatchCostTooHigh \<and> mset (pq_iter Q q') = mset (pq_iter Q q))"
  by (rule batch_pq.extract_directly_spec [OF assms])

text \<open>Two queued proofs of one user, used to evaluate the definitions.\<close>

definition sample_vd :: VerificationData where
  "sample_vd = \<lparr> proving_system = SP1, proof_bytes = [1, 2], pub_input = Some [4],
                 verification_key = None, vm_program_code = Some [7], proof_generator_addr = 9 \<rparr>"

definition sample_entry :: "address \<Rightarrow> u256 \<Rightarrow> u256 \<Rightarrow> BatchQueueEntry" where
  "sample_entry a n f =
     BatchQueueEntry_new
       \<lparr> verification_data = sample_vd, nonce = n, max_fee = f, chain_id = 1, payment_service_addr = 5 \<rparr>
       (verification_data_into_commitment id sample_vd) 1 \<lparr> sig_r = 1, sig_s = 2, sig_v = 3 \<rparr> a"

definition sample_item :: "address \<Rightarrow> u256 \<Rightarrow> u256 \<Rightarrow> item" where
  "sample_item a n f = (sample_entry a n f, prio_of (sample_entry a n f))"

lemmas sample_defs = sample_item_def sample_entry_def BatchQueueEntry_new_def

lemma sample_entry_simps [simp]:
  "sender (sample_entry a n f) = a" "entry_nonce (sample_entry a n f) = n"
  "entry_fee (sample_entry a n f) = f" "entry_size (sample_entry a n f) = 1028"
  "fst (sample_item a n f) = sample_entry a n f"
  "snd (sample_item a n f) = BatchQueueEntryPriority f n"
  "entry_key (sample_entry a n f) = (a, n)" "messaging_sink (sample_entry a n f) = Some 1"
  by (simp_all add: sample_defs sample_vd_def cbor_size_upper_bound_def CBOR_OVERHEAD_BYTES_def
      prio_of_def entry_key_def)

lemma case_sample_item [simp]:
  "(case sample_item a n f of (e, p) \<Rightarrow> g e p) = g (sample_entry a n f) (BatchQueueEntryPriority f n)"
  by (simp add: case_prod_beta)

lemma sample_item_eq_iff [simp]:
  "sample_item a n f = sample_item a' n' f' \<longleftrightarrow> a = a' \<and> n = n' \<and> f = f'"
  by (metis entry_key_def fst_conv sample_entry_simps)

lemma prio_ok_samples [simp]: "prio_ok [] = True" "prio_ok (sample_item a n f # xs) = prio_ok xs"
  by (auto simp: prio_ok_def sample_item_def)

definition sample_queue :: "item list" where
  "sample_queue = [sample_item 1 0 600000, sample_item 1 1 5]"

lemma sample_queue_dedup [simp]: "dedup entry_key sample_queue = sample_queue"
  by (simp add: sample_queue_def)

lemma sample_fees_defined: "fees_defined 1 537500 2"
  by (rule fees_definedI) (simp_all add: gas_in_range_def)

lemma sample_extract:
  "extract_batch_directly (list_pq entry_key) sample_queue 1 100000 10 537500
   = (Ret (Inr [sample_entry 1 0 600000]), [sample_item 1 1 5])"
  by (simp add: extract_batch_directly_def calculate_batch_size_def reject_loop.simps drain_loop.simps
      should_remove_def sample_queue_def push_all_def pushed_def drop_key_def
      calculate_fee_per_proof_def gas_per_proof_def sdk_constants checked_mul_def
      less_BatchQueueEntryPriority_def prio_cmp_def Let_def)
    (simp add: sample_item_def prio_of_def)

theorem extract_batch_directly_correct_witness:
  "\<exists>r q'. extract_batch_directly (list_pq entry_key) sample_queue 1 100000 10 537500 = (Ret r, q') \<and>
    (case r of
       Inr batch \<Rightarrow> postable 1 100000 10 537500 batch \<and>
          mset (pq_iter (list_pq entry_key) sample_queue)
            = mset (map (\<lambda>e. (e, prio_of e)) batch) + mset (pq_iter (list_pq entry_key) q') \<and>
          (\<forall>x \<in> set (pq_iter (list_pq entry_key) q'). \<forall>e \<in> set batch. entry_fee (fst x) \<le> entry_fee e)
     | Inl err \<Rightarrow> err = BatchCostTooHigh \<and>
          mset (pq_iter (list_pq entry_key) q') = mset (pq_iter (list_pq entry_key) sample_queue))"
  by (rule extract_batch_directly_correct [OF lbq.batch_pq_axioms])
    (use sample_fees_defined in \<open>simp_all add: sample_queue_def numeral_2_eq_2\<close>)

text \<open>
  Claim C19. The batch is as long as it can be: when the byte limit does not bind, no collection of
  queued entries, however chosen, that could be posted together is longer than the batch
  returned, and if \<open>BatchCostTooHigh\<close> is returned then no non-empty collection could be posted.
\<close>

theorem extract_batch_directly_optimal:
  assumes "batch_pq Q" "prio_ok (pq_iter Q q)" "fees_defined gp cost (length (pq_iter Q q))"
    and "CBOR_ARRAY_MAX_OVERHEAD + sizes_sum (pq_iter Q q) \<le> max_bytes"
    and "mset ys \<subseteq># mset (pq_iter Q q)" "acceptable gp max_bytes max_qty cost ys"
    and "extract_batch_directly Q q gp max_bytes max_qty cost = (Ret r, q')"
  shows "length ys \<le> (case r of Inr batch \<Rightarrow> length batch | Inl _ \<Rightarrow> 0)"
proof (rule batch_pq.extract_cases [OF assms(1,2,3), of max_bytes max_qty])
  fix rej xs q''
  assume "extract_batch_directly Q q gp max_bytes max_qty cost = (Ret (Inr (map fst xs)), q'')"
    "rejects gp max_bytes max_qty cost (pq_iter Q q) rej xs"
  then show ?thesis
    using rejects_optimal [of gp max_bytes max_qty cost "pq_iter Q q" rej xs ys] assms by simp
next
  fix rej q''
  assume "extract_batch_directly Q q gp max_bytes max_qty cost = (Ret (Inl BatchCostTooHigh), q'')"
    "rejects gp max_bytes max_qty cost (pq_iter Q q) rej []"
  then show ?thesis
    using rejects_optimal [of gp max_bytes max_qty cost "pq_iter Q q" rej "[]" ys] assms by simp
qed

theorem extract_batch_directly_optimal_witness:
  "length [sample_item 1 0 600000] \<le> length [sample_entry 1 0 600000]"
proof -
  have "acceptable 1 100000 10 537500 [sample_item 1 0 600000]"
    by (simp add: acceptable_def fee_ok_def sizes_sum_def calculate_fee_per_proof_def gas_per_proof_def
        sdk_constants checked_mul_def)
  then show ?thesis
    using extract_batch_directly_optimal [OF lbq.batch_pq_axioms, of sample_queue 1 537500 100000
        "[sample_item 1 0 600000]" 10] sample_extract sample_fees_defined
    by (simp add: sample_queue_def sizes_sum_def sdk_constants numeral_2_eq_2)
qed

end
