(* ===== verification/Retry.thy ===== *)
theory Retry
  imports Errors Fees
begin

text \<open>
  Retrying calls to Ethereum: \<open>batcher/src/retry/mod.rs\<close>, the retryable calls of
  \<open>batcher_retryables.rs\<close> and the wrappers of \<open>eth/utils.rs\<close>. The retry driver itself is the
  \<open>backon\<close> crate: its contract is the locale \<open>backon\<close> (attempts are made in order, one more after
  each retryable failure, at most \<open>max_times\<close> of them beyond the first). A retried closure is the
  function from the attempt's number to that attempt's result; the delays between attempts are
  time only and are left out. Every Ethereum endpoint is an oracle: the result of the call made to
  the main or the fallback provider at a given attempt.
\<close>

section \<open>The driver\<close>

datatype 'e RetryError = Transient 'e | Permanent 'e

fun inner :: "'e RetryError \<Rightarrow> 'e" where
  "inner (Transient e) = e"
| "inner (Permanent e) = e"

fun is_transient :: "'e RetryError + 'a \<Rightarrow> bool" where
  "is_transient (Inl (Transient _)) = True"
| "is_transient (Inl (Permanent _)) = False"
| "is_transient (Inr _) = False"

record backon_ops =
  last_attempt :: "nat \<Rightarrow> (nat \<Rightarrow> bool) \<Rightarrow> nat"

definition retry_function ::
    "backon_ops \<Rightarrow> (nat \<Rightarrow> 'e RetryError + 'a) \<Rightarrow> nat \<Rightarrow> 'e RetryError + 'a" where
  "retry_function B f max_times = f (last_attempt B max_times (\<lambda>i. is_transient (f i)))"

locale backon =
  fixes B :: backon_ops
  assumes attempts_bounded: "last_attempt B m p \<le> m"
    and earlier_retryable: "i < last_attempt B m p \<Longrightarrow> p i"
    and stops: "last_attempt B m p < m \<Longrightarrow> \<not> p (last_attempt B m p)"
begin

text \<open>The attempt whose result is returned is the first that may not be retried, if any.\<close>

lemma last_attempt_first:
  assumes "\<not> p n" "n \<le> m" "\<And>i. i < n \<Longrightarrow> p i"
  shows "last_attempt B m p = n"
proof (rule antisym)
  show "last_attempt B m p \<le> n"
    using assms(1) earlier_retryable [of n m p] by (meson not_le)
  show "n \<le> last_attempt B m p"
  proof (rule ccontr)
    assume "\<not> n \<le> last_attempt B m p"
    then have "p (last_attempt B m p)" "last_attempt B m p < m" using assms by auto
    then show False using stops by blast
  qed
qed

lemma last_attempt_exhausted:
  assumes "\<And>i. i \<le> m \<Longrightarrow> p i"
  shows "last_attempt B m p = m"
  using attempts_bounded [of m p] stops [of m p] assms by (meson le_neq_implies_less)

lemma retry_first_final:
  assumes "\<not> is_transient (f n)" "n \<le> m" "\<And>i. i < n \<Longrightarrow> is_transient (f i)"
  shows "retry_function B f m = f n"
  unfolding retry_function_def
  by (subst last_attempt_first [where n = n]) (use assms in auto)

lemma retry_exhausted:
  assumes "\<And>i. i \<le> m \<Longrightarrow> is_transient (f i)"
  shows "retry_function B f m = f m"
  unfolding retry_function_def by (subst last_attempt_exhausted) (use assms in auto)

lemma retry_cases:
  obtains (final) n where "n \<le> m" "\<not> is_transient (f n)" "\<And>i. i < n \<Longrightarrow> is_transient (f i)"
      "retry_function B f m = f n"
    | (exhausted) "\<And>i. i \<le> m \<Longrightarrow> is_transient (f i)" "retry_function B f m = f m"
proof (cases "\<exists>n \<le> m. \<not> is_transient (f n)")
  case True
  then have ex: "\<exists>n. n \<le> m \<and> \<not> is_transient (f n)" by blast
  define n where "n = (LEAST n. n \<le> m \<and> \<not> is_transient (f n))"
  have n: "n \<le> m" "\<not> is_transient (f n)"
    using LeastI_ex [OF ex] by (simp_all add: n_def)
  have before: "is_transient (f i)" if "i < n" for i
    using not_less_Least [of i "\<lambda>n. n \<le> m \<and> \<not> is_transient (f n)"] that n(1) by (simp add: n_def)
  show ?thesis
    by (rule final [OF n before]) (use retry_first_final [of f n m] n before in blast)+
next
  case False
  then have "\<And>i. i \<le> m \<Longrightarrow> is_transient (f i)" by blast
  with exhausted retry_exhausted show ?thesis by blast
qed

end

fun first_stop :: "nat \<Rightarrow> (nat \<Rightarrow> bool) \<Rightarrow> nat \<Rightarrow> nat" where
  "first_stop 0 p i = i"
| "first_stop (Suc k) p i = (if p i then first_stop k p (Suc i) else i)"

definition std_backon :: backon_ops where
  "std_backon = \<lparr> last_attempt = (\<lambda>m p. first_stop m p 0) \<rparr>"

lemma first_stop_bounds: "i \<le> first_stop k p i \<and> first_stop k p i \<le> i + k"
  by (induction k p i rule: first_stop.induct) auto

lemma first_stop_before: "i \<le> j \<Longrightarrow> j < first_stop k p i \<Longrightarrow> p j"
proof (induction k p i rule: first_stop.induct)
  case (2 k p i)
  then show ?case by (cases "j = i") (auto split: if_splits)
qed simp

lemma first_stop_at: "first_stop k p i < i + k \<Longrightarrow> \<not> p (first_stop k p i)"
  by (induction k p i rule: first_stop.induct) auto

interpretation std_backon: backon std_backon
proof unfold_locales
  fix m i p
  show "last_attempt std_backon m p \<le> m"
    using first_stop_bounds [of 0 m p] by (simp add: std_backon_def)
  show "i < last_attempt std_backon m p \<Longrightarrow> p i"
    using first_stop_before [of 0 i m p] by (simp add: std_backon_def)
  show "last_attempt std_backon m p < m \<Longrightarrow> \<not> p (last_attempt std_backon m p)"
    using first_stop_at [of m p 0] by (simp add: std_backon_def)
qed

section \<open>Ethereum endpoints\<close>

datatype provider = MainRpc | FallbackRpc

text \<open>Outcome of sending or simulating \<open>createNewTask\<close>, and of waiting for the receipt.\<close>

datatype contract_result = Sent | Revert bytes | OtherContractError string

datatype wait_result = WaitTimeout | WaitError string | NoReceipt | Receipt nat

record task_args =
  ta_merkle_root :: bytes
  ta_data_pointer :: string
  ta_proof_submitters :: "address list"
  ta_fee_params :: CreateNewTaskFeeParams

record eth_env =
  driver :: backon_ops
  hex :: hex_ops
  user_balances :: "provider \<Rightarrow> nat \<Rightarrow> address \<Rightarrow> string + u256"
  user_nonces :: "provider \<Rightarrow> nat \<Rightarrow> address \<Rightarrow> string + u256"
  user_unlock_block :: "provider \<Rightarrow> nat \<Rightarrow> address \<Rightarrow> string + u256"
  rpc_gas_price :: "provider \<Rightarrow> nat \<Rightarrow> string + u256"
  rpc_block_number :: "provider \<Rightarrow> nat \<Rightarrow> string + u64"
  rpc_disabled_verifiers :: "provider \<Rightarrow> string + u256"
  rpc_transaction_count :: "provider \<Rightarrow> nat \<Rightarrow> string + u256"
  unlocked_events :: "provider \<Rightarrow> nat \<Rightarrow> u64 \<Rightarrow> u64 \<Rightarrow> string + address list"
  send_create_task :: "provider \<Rightarrow> nat \<Rightarrow> task_args \<Rightarrow> contract_result"
  call_create_task :: "provider \<Rightarrow> nat \<Rightarrow> task_args \<Rightarrow> contract_result"
  wait_create_task :: "nat \<Rightarrow> wait_result"
  send_cancel_tx :: "provider \<Rightarrow> nat \<Rightarrow> u256 \<Rightarrow> u256 \<Rightarrow> string + unit"
  wait_cancel_tx :: "nat \<Rightarrow> wait_result"

text \<open>The main provider first, the fallback when it fails; a failure of both is transient.\<close>

fun with_fallback :: "'e + 'a \<Rightarrow> 'e + 'a \<Rightarrow> 'e RetryError + 'a" where
  "with_fallback (Inr a) _ = Inr a"
| "with_fallback (Inl _) (Inr a) = Inr a"
| "with_fallback (Inl _) (Inl e) = Inl (Transient e)"

definition get_user_balance_retryable :: "eth_env \<Rightarrow> address \<Rightarrow> nat \<Rightarrow> string RetryError + u256" where
  "get_user_balance_retryable E addr i =
     with_fallback (user_balances E MainRpc i addr) (user_balances E FallbackRpc i addr)"

definition get_user_nonce_from_ethereum_retryable ::
    "eth_env \<Rightarrow> address \<Rightarrow> nat \<Rightarrow> string RetryError + u256" where
  "get_user_nonce_from_ethereum_retryable E addr i =
     with_fallback (user_nonces E MainRpc i addr) (user_nonces E FallbackRpc i addr)"

definition get_current_nonce_retryable :: "eth_env \<Rightarrow> nat \<Rightarrow> string RetryError + u256" where
  "get_current_nonce_retryable E i =
     with_fallback (rpc_transaction_count E MainRpc i) (rpc_transaction_count E FallbackRpc i)"

definition user_balance_is_unlocked_retryable ::
    "eth_env \<Rightarrow> address \<Rightarrow> nat \<Rightarrow> unit RetryError + bool" where
  "user_balance_is_unlocked_retryable E addr i =
     (case user_unlock_block E MainRpc i addr of
        Inr unlock_block \<Rightarrow> Inr (unlock_block \<noteq> 0)
      | Inl _ \<Rightarrow> (case user_unlock_block E FallbackRpc i addr of
           Inr unlock_block \<Rightarrow> Inr (unlock_block \<noteq> 0)
         | Inl _ \<Rightarrow> Inl (Transient ())))"

definition get_gas_price_retryable :: "eth_env \<Rightarrow> nat \<Rightarrow> string RetryError + u256" where
  "get_gas_price_retryable E i =
     with_fallback (rpc_gas_price E MainRpc i) (rpc_gas_price E FallbackRpc i)"

definition get_current_block_number_retryable :: "eth_env \<Rightarrow> nat \<Rightarrow> string RetryError + u64" where
  "get_current_block_number_retryable E i =
     with_fallback (rpc_block_number E MainRpc i) (rpc_block_number E FallbackRpc i)"

definition query_balance_unlocked_events_retryable ::
    "eth_env \<Rightarrow> u64 \<Rightarrow> u64 \<Rightarrow> nat \<Rightarrow> string RetryError + address list" where
  "query_balance_unlocked_events_retryable E from_block to_block i =
     with_fallback (unlocked_events E MainRpc i from_block to_block)
       (unlocked_events E FallbackRpc i from_block to_block)"

text \<open>
  The error of a reverted transaction. The decoding cannot panic
  (\<open>hex_codec.transaction_send_error_total\<close>), so its \<open>None\<close> is collapsed into a generic error.
\<close>

definition revert_error :: "hex_ops \<Rightarrow> bytes \<Rightarrow> BatcherError RetryError" where
  "revert_error H e =
     Permanent (TransactionSendErr
       (case transaction_send_error_from H e of Some x \<Rightarrow> x | None \<Rightarrow> Generic ''panic''))"

definition wait_for_receipt :: "wait_result \<Rightarrow> BatcherError RetryError + nat" where
  "wait_for_receipt w =
     (case w of
        WaitTimeout \<Rightarrow> Inl (Permanent ReceiptNotFoundError)
      | WaitError _ \<Rightarrow> Inl (Permanent ReceiptNotFoundError)
      | NoReceipt \<Rightarrow> Inl (Permanent ReceiptNotFoundError)
      | Receipt r \<Rightarrow> Inr r)"

definition create_new_task_retryable ::
    "eth_env \<Rightarrow> task_args \<Rightarrow> nat \<Rightarrow> BatcherError RetryError + nat" where
  "create_new_task_retryable E a i =
     (case send_create_task E MainRpc i a of
        Sent \<Rightarrow> wait_for_receipt (wait_create_task E i)
      | Revert err \<Rightarrow> Inl (revert_error (hex E) err)
      | OtherContractError _ \<Rightarrow>
        (case send_create_task E FallbackRpc i a of
           Sent \<Rightarrow> wait_for_receipt (wait_create_task E i)
         | Revert err \<Rightarrow> Inl (revert_error (hex E) err)
         | OtherContractError err \<Rightarrow> Inl (Transient (TransactionSendErr (Generic err)))))"

definition simulate_create_new_task_retryable ::
    "eth_env \<Rightarrow> task_args \<Rightarrow> nat \<Rightarrow> BatcherError RetryError + unit" where
  "simulate_create_new_task_retryable E a i =
     (case call_create_task E MainRpc i a of
        Sent \<Rightarrow> Inr ()
      | Revert err \<Rightarrow> Inl (revert_error (hex E) err)
      | OtherContractError _ \<Rightarrow>
        (case call_create_task E FallbackRpc i a of
           Sent \<Rightarrow> Inr ()
         | Revert err \<Rightarrow> Inl (revert_error (hex E) err)
         | OtherContractError err \<Rightarrow> Inl (Transient (TransactionSendErr (Generic err)))))"

section \<open>Retried calls\<close>

definition get_current_nonce :: "eth_env \<Rightarrow> string + u256" where
  "get_current_nonce E =
     map_sum inner id (retry_function (driver E) (get_current_nonce_retryable E) ETHEREUM_CALL_MAX_RETRIES)"

definition get_gas_price :: "eth_env \<Rightarrow> string + u256" where
  "get_gas_price E =
     map_sum inner id (retry_function (driver E) (get_gas_price_retryable E) ETHEREUM_CALL_MAX_RETRIES)"

definition get_current_block_number :: "eth_env \<Rightarrow> string RetryError + u64" where
  "get_current_block_number E =
     retry_function (driver E) (get_current_block_number_retryable E) ETHEREUM_CALL_MAX_RETRIES"

definition query_balance_unlocked_events ::
    "eth_env \<Rightarrow> u64 \<Rightarrow> u64 \<Rightarrow> string RetryError + address list" where
  "query_balance_unlocked_events E from_block to_block =
     retry_function (driver E) (query_balance_unlocked_events_retryable E from_block to_block)
       ETHEREUM_CALL_MAX_RETRIES"

definition get_user_nonce_from_ethereum :: "eth_env \<Rightarrow> address \<Rightarrow> string RetryError + u256" where
  "get_user_nonce_from_ethereum E addr =
     retry_function (driver E) (get_user_nonce_from_ethereum_retryable E addr) ETHEREUM_CALL_MAX_RETRIES"

definition get_user_balance :: "eth_env \<Rightarrow> address \<Rightarrow> u256 option" where
  "get_user_balance E addr =
     (case retry_function (driver E) (get_user_balance_retryable E addr) ETHEREUM_CALL_MAX_RETRIES of
        Inr b \<Rightarrow> Some b | Inl _ \<Rightarrow> None)"

definition user_balance_is_unlocked :: "eth_env \<Rightarrow> address \<Rightarrow> bool" where
  "user_balance_is_unlocked E addr =
     (case retry_function (driver E) (user_balance_is_unlocked_retryable E addr)
             ETHEREUM_CALL_MAX_RETRIES of
        Inr unlocked \<Rightarrow> unlocked | Inl _ \<Rightarrow> False)"

definition disabled_verifiers_call :: "eth_env \<Rightarrow> string + u256" where
  "disabled_verifiers_call E =
     (case rpc_disabled_verifiers E MainRpc of
        Inr v \<Rightarrow> Inr v | Inl _ \<Rightarrow> rpc_disabled_verifiers E FallbackRpc)"

section \<open>Cancelling a transaction\<close>

definition cancel_create_new_task_retryable ::
    "eth_env \<Rightarrow> u256 \<Rightarrow> nat \<Rightarrow> string RetryError + nat" where
  "cancel_create_new_task_retryable E bumped_gas_price i =
     (case get_current_nonce E of
        Inl e \<Rightarrow> Inl (Transient e)
      | Inr current_nonce \<Rightarrow>
        (case with_fallback (send_cancel_tx E MainRpc i current_nonce bumped_gas_price)
                (send_cancel_tx E FallbackRpc i current_nonce bumped_gas_price) of
           Inl e \<Rightarrow> Inl (Transient (inner e))
         | Inr _ \<Rightarrow>
           (case wait_cancel_tx E i of
              WaitTimeout \<Rightarrow> Inl (Transient ''Timeout while waiting for transaction inclusion: deadline has elapsed'')
            | WaitError e \<Rightarrow> Inl (Transient e)
            | NoReceipt \<Rightarrow> Inl (Transient ''Receipt not found'')
            | Receipt r \<Rightarrow> Inr r)))"

text \<open>
  The closure of \<open>cancel_create_new_task_tx\<close> keeps the iteration and the last gas price across its
  attempts: the state before attempt \<open>i\<close>, and the attempt itself. The network gas price is read by
  \<open>get_gas_price\<close>, the price at attempt \<open>i\<close> being an argument. \<open>None\<close> is a panic in the bump,
  which ends the task: it is the final result \<open>Inr None\<close> of the closure.
\<close>

fun cancel_state :: "(nat \<Rightarrow> string + u256) \<Rightarrow> u256 \<Rightarrow> nat \<Rightarrow> (nat \<times> u256) option" where
  "cancel_state gp old 0 = Some (0, old)"
| "cancel_state gp old (Suc i) =
     Option.bind (cancel_state gp old i) (\<lambda>(iteration, previous_gas_price).
       case gp i of
         Inl _ \<Rightarrow> Some (iteration, previous_gas_price)
       | Inr current \<Rightarrow>
         map_option (\<lambda>bumped. (Suc iteration, bumped))
           (calculate_bumped_gas_price previous_gas_price current iteration))"

definition cancel_attempt_price :: "(nat \<Rightarrow> string + u256) \<Rightarrow> u256 \<Rightarrow> nat \<Rightarrow> u256 option" where
  "cancel_attempt_price gp old i = map_option snd (cancel_state gp old (Suc i))"

definition cancel_create_new_task_tx ::
    "eth_env \<Rightarrow> (nat \<Rightarrow> string + u256) \<Rightarrow> u256 \<Rightarrow> string RetryError + nat option" where
  "cancel_create_new_task_tx E gp old_tx_gas_price =
     retry_function (driver E)
       (\<lambda>i. case gp i of
              Inl e \<Rightarrow> Inl (Transient e)
            | Inr _ \<Rightarrow>
              (case cancel_attempt_price gp old_tx_gas_price i of
                 None \<Rightarrow> Inr None
               | Some bumped_gas_price \<Rightarrow>
                 map_sum id Some (cancel_create_new_task_retryable E bumped_gas_price i)))
       BUMP_MAX_RETRIES"

end
