(* ===== verification/Zk_Utils.thy ===== *)
theory Zk_Utils
  imports Sdk_Types
begin

unbundle bit_operations_syntax

text \<open>
  Pre-verification of a proof by the batcher (\<open>batcher/src/zk_utils/mod.rs\<close>) and its back ends
  (\<open>sp1/mod.rs\<close>, \<open>risc_zero/mod.rs\<close>, \<open>gnark/mod.rs\<close>, \<open>circom/verifier.rs\<close>). The provers' SDKs and the
  Go verifiers reached over FFI are the operations of \<open>zk_ops\<close>. The result \<open>None\<close> of
  \<open>verify_internal\<close> is a panic of the blocking task, which \<open>verify\<close> turns into a rejection.
\<close>

record zk_ops =
  sp1_setup :: "bytes \<Rightarrow> bytes option"
  sp1_decode :: "bytes \<Rightarrow> (bytes \<times> bytes) option"
  sp1_verify :: "bytes \<times> bytes \<Rightarrow> bytes \<Rightarrow> bool"
  risc0_decode :: "bytes \<Rightarrow> bytes option"
  risc0_verify :: "bytes \<Rightarrow> bytes \<Rightarrow> bytes \<Rightarrow> bool"
  VerifyGnarkPlonkProofBN254 :: "bytes \<Rightarrow> bytes \<Rightarrow> bytes \<Rightarrow> bool"
  VerifyGnarkPlonkProofBLS12_381 :: "bytes \<Rightarrow> bytes \<Rightarrow> bytes \<Rightarrow> bool"
  VerifyGnarkGroth16ProofBN254 :: "bytes \<Rightarrow> bytes \<Rightarrow> bytes \<Rightarrow> bool"
  VerifyCircomGroth16ProofBN256 :: "bytes \<Rightarrow> bytes \<Rightarrow> bytes \<Rightarrow> bool"

text \<open>A decoded SP1 proof is the pair of its public values and the rest of it.\<close>

definition verify_sp1_proof :: "zk_ops \<Rightarrow> bytes \<Rightarrow> bytes \<Rightarrow> bytes \<Rightarrow> bool option" where
  "verify_sp1_proof Z proof public_inputs elf =
     (if proof = [] \<or> elf = [] then Some False
      else case sp1_setup Z elf of
        None \<Rightarrow> None
      | Some vk \<Rightarrow>
        (case sp1_decode Z proof of
           None \<Rightarrow> Some False
         | Some p \<Rightarrow> if fst p \<noteq> public_inputs then Some False else Some (sp1_verify Z p vk)))"

definition verify_risc_zero_proof :: "zk_ops \<Rightarrow> bytes \<Rightarrow> bytes \<Rightarrow> bytes \<Rightarrow> bool" where
  "verify_risc_zero_proof Z inner_receipt_bytes image_id public_input =
     (if inner_receipt_bytes = [] \<or> image_id = [] then False
      else case risc0_decode Z inner_receipt_bytes of
        None \<Rightarrow> False
      | Some inner_receipt \<Rightarrow> risc0_verify Z inner_receipt public_input image_id)"

fun verify_gnark :: "zk_ops \<Rightarrow> ProvingSystemId \<Rightarrow> bytes \<Rightarrow> bytes \<Rightarrow> bytes \<Rightarrow> bool" where
  "verify_gnark Z GnarkPlonkBn254 p i vk = VerifyGnarkPlonkProofBN254 Z p i vk"
| "verify_gnark Z GnarkPlonkBls12_381 p i vk = VerifyGnarkPlonkProofBLS12_381 Z p i vk"
| "verify_gnark Z GnarkGroth16Bn254 p i vk = VerifyGnarkGroth16ProofBN254 Z p i vk"
| "verify_gnark Z _ p i vk = False"

fun verify_circom :: "zk_ops \<Rightarrow> ProvingSystemId \<Rightarrow> bytes \<Rightarrow> bytes \<Rightarrow> bytes \<Rightarrow> bool" where
  "verify_circom Z CircomGroth16Bn256 p i vk = VerifyCircomGroth16ProofBN256 Z p i vk"
| "verify_circom Z _ p i vk = False"

definition unwrap_or_default :: "bytes option \<Rightarrow> bytes" where
  "unwrap_or_default x = (case x of None \<Rightarrow> [] | Some b \<Rightarrow> b)"

text \<open>\<open>copy_from_slice\<close> into the 32 bytes of an image id panics on any other length.\<close>

definition verify_internal :: "zk_ops \<Rightarrow> VerificationData \<Rightarrow> bool option" where
  "verify_internal Z vd =
     (let ps = proving_system vd in
      if ps = SP1 then
        (case vm_program_code vd of
           None \<Rightarrow> Some False
         | Some elf \<Rightarrow> verify_sp1_proof Z (proof_bytes vd) (unwrap_or_default (pub_input vd)) elf)
      else if ps = Risc0 then
        (case vm_program_code vd of
           None \<Rightarrow> Some False
         | Some image_id \<Rightarrow>
           if length image_id \<noteq> 32 then None
           else Some (verify_risc_zero_proof Z (proof_bytes vd) image_id
                        (unwrap_or_default (pub_input vd))))
      else if ps = CircomGroth16Bn256 then
        (case pub_input vd of
           None \<Rightarrow> Some False
         | Some i \<Rightarrow> (case verification_key vd of
              None \<Rightarrow> Some False
            | Some vk \<Rightarrow> Some (verify_circom Z ps (proof_bytes vd) i vk)))
      else
        (case verification_key vd of
           None \<Rightarrow> Some False
         | Some vk \<Rightarrow> (case pub_input vd of
              None \<Rightarrow> Some False
            | Some i \<Rightarrow> Some (verify_gnark Z ps (proof_bytes vd) i vk))))"

definition verify :: "zk_ops \<Rightarrow> VerificationData \<Rightarrow> bool" where
  "verify Z vd = (case verify_internal Z vd of None \<Rightarrow> False | Some b \<Rightarrow> b)"

definition is_verifier_disabled :: "u256 \<Rightarrow> ProvingSystemId \<Rightarrow> bool" where
  "is_verifier_disabled disabled_verifiers ps \<longleftrightarrow>
     disabled_verifiers AND push_bit (proving_system_discr ps) 1 \<noteq> 0"

section \<open>Properties\<close>

lemma discr_inj: "proving_system_discr a = proving_system_discr b \<longleftrightarrow> a = b"
  by (cases a; cases b) auto

lemma discr_bound: "proving_system_discr a < LENGTH(256)"
  by (cases a) auto

lemma is_verifier_disabled_bit: "is_verifier_disabled dv ps \<longleftrightarrow> bit dv (proving_system_discr ps)"
proof -
  have "dv AND push_bit n 1 \<noteq> 0 \<longleftrightarrow> bit dv n" if "n < LENGTH(256)" for n
    using that by (auto simp: bit_eq_iff [where 'a = u256] bit_simps)
  then show ?thesis using discr_bound by (simp add: is_verifier_disabled_def)
qed

text \<open>The bitmap the service manager publishes for a list of disabled systems.\<close>

definition verifier_bitmap :: "ProvingSystemId list \<Rightarrow> u256" where
  "verifier_bitmap pss = foldr (\<lambda>p w. push_bit (proving_system_discr p) 1 OR w) pss 0"

lemma bit_verifier_bitmap:
  "bit (verifier_bitmap pss) (proving_system_discr p) \<longleftrightarrow> p \<in> set pss"
  using discr_bound
  by (induction pss) (auto simp: verifier_bitmap_def bit_simps discr_inj dest: sym)

text \<open>
  A bitmap of disabled verifiers disables exactly the proving systems whose bit, the
  discriminant of the system, is set in it.
\<close>

lemma is_verifier_disabled_exact: "is_verifier_disabled (verifier_bitmap pss) ps \<longleftrightarrow> ps \<in> set pss"
  by (simp add: is_verifier_disabled_bit bit_verifier_bitmap)

text \<open>
  A proof the pre-verification accepts carries what its proving system needs and was
  accepted by that system's own verifier on exactly the submitted proof, public input and program
  or key: for SP1 the public values inside the proof are the submitted public input, for Risc0 the
  image id has 32 bytes. A panic inside a verifier is never an acceptance.
\<close>

lemma verify_accepts_only_verified:
  assumes "verify Z vd"
  shows "case proving_system vd of
      SP1 \<Rightarrow> \<exists>elf vk p. vm_program_code vd = Some elf \<and> elf \<noteq> [] \<and> proof_bytes vd \<noteq> [] \<and>
               sp1_setup Z elf = Some vk \<and> sp1_decode Z (proof_bytes vd) = Some p \<and>
               fst p = unwrap_or_default (pub_input vd) \<and> sp1_verify Z p vk
    | Risc0 \<Rightarrow> \<exists>img r. vm_program_code vd = Some img \<and> length img = 32 \<and>
               risc0_decode Z (proof_bytes vd) = Some r \<and>
               risc0_verify Z r (unwrap_or_default (pub_input vd)) img
    | CircomGroth16Bn256 \<Rightarrow> \<exists>i vk. pub_input vd = Some i \<and> verification_key vd = Some vk \<and>
               VerifyCircomGroth16ProofBN256 Z (proof_bytes vd) i vk
    | gnark \<Rightarrow> \<exists>i vk. pub_input vd = Some i \<and> verification_key vd = Some vk \<and>
               verify_gnark Z gnark (proof_bytes vd) i vk"
  using assms
  by (cases "proving_system vd")
    (auto simp: verify_def verify_internal_def verify_sp1_proof_def verify_risc_zero_proof_def
      split: option.splits if_splits)

definition sample_zk :: zk_ops where
  "sample_zk = \<lparr> sp1_setup = (\<lambda>elf. Some elf), sp1_decode = (\<lambda>p. Some ([4], p)),
     sp1_verify = (\<lambda>p vk. vk = [7]), risc0_decode = Some, risc0_verify = (\<lambda>_ _ _. False),
     VerifyGnarkPlonkProofBN254 = (\<lambda>_ _ _. False), VerifyGnarkPlonkProofBLS12_381 = (\<lambda>_ _ _. False),
     VerifyGnarkGroth16ProofBN254 = (\<lambda>_ _ _. False), VerifyCircomGroth16ProofBN256 = (\<lambda>_ _ _. False) \<rparr>"

end
