(* ===== verification/Batcher_State.thy ===== *)
theory Batcher_State
  imports Batch_Queue Retry Zk_Utils
begin

text \<open>
  The state of the batcher (\<open>struct Batcher\<close> of \<open>batcher/src/lib.rs\<close>), its environment, and the
  operations that keep the cached user states in step with the queue.

  The configuration and everything outside the repository (Ethereum, signatures, hashes, proof
  verifiers, the Merkle tree, the object store) is one record, \<open>batcher_env\<close>, passed to every
  operation. Each lock acquisition that the code bounds by a timeout, or tries without waiting,
  has its outcome in \<open>lock_outcomes\<close>. Acquisitions without a timeout succeed, unless the same task
  already holds the lock in a conflicting mode: then the task waits for itself, and the result is
  \<open>Stuck\<close>. \<open>debug_address\<close> and \<open>debug_retry_error\<close> are the \<open>Debug\<close> forms that error messages contain.
  Messages written to a client's sink, in the handler or in a task it spawns, are
  appended to \<open>outbox\<close>; logging and telemetry have no effect on the state and are left out.
\<close>

section \<open>Environment\<close>

record NonPayingConfig =
  np_address :: address
  np_replacement :: address

record BatcherConfig =
  cfg_chain_id :: u256
  cfg_payment_service :: address
  min_block_interval :: u64
  max_proof_size :: nat
  max_batch_byte_size :: nat
  max_batch_proof_qty :: nat
  pre_verification_is_enabled :: bool
  non_paying_config :: "NonPayingConfig option"
  aggregator_fee_percentage_multiplier :: u128
  aggregator_gas_cost :: u128
  amount_of_proofs_for_min_max_fee :: nat
  min_bump_percentage :: u256
  download_endpoint :: string
  download_endpoint_secondary :: "string option"

record lock_outcomes =
  user_states_read :: "nat \<Rightarrow> bool"
  user_states_write :: bool
  user_lock :: "address \<Rightarrow> bool"
  user_try_lock :: "address \<Rightarrow> bool"
  batch_lock :: bool
  batch_try_lock :: bool

record ('q, 't) batcher_env =
  pq :: "'q bq_ops"
  cfg :: BatcherConfig
  eth :: eth_env
  crypto :: ecdsa
  keccak :: "bytes \<Rightarrow> bytes"
  zk :: zk_ops
  merkle :: "'t merkle_ops"
  lk :: lock_outcomes
  cbor_serialize_batch :: "VerificationData list \<Rightarrow> string + bytes"
  cbor_serialize_response :: "SubmitProofResponseMessage \<Rightarrow> string + bytes"
  s3_upload :: "bool \<Rightarrow> nat \<Rightarrow> bytes \<Rightarrow> string \<Rightarrow> string + unit"
  cancel_gas_prices :: "nat \<Rightarrow> string + u256"
  debug_address :: "address \<Rightarrow> string"
  debug_retry_error :: "string RetryError \<Rightarrow> string"

section \<open>State\<close>

datatype out_msg =
    SubmitResp SubmitProofResponseMessage
  | NonceResp GetNonceResponseMessage
  | FeeResp GetLastMaxFeeResponseMessage
  | CloseSink

record BatcherMetrics =
  open_connections :: int
  received_proofs :: nat
  sent_batches :: nat
  reverted_batches :: nat
  canceled_batches :: nat
  user_errors :: "(string \<times> string) list"
  gas_price_used_on_latest_batch :: u64
  broken_ws_connections :: nat
  queue_len :: nat
  queue_size_bytes :: nat
  user_lock_timeouts :: nat
  batch_lock_timeouts :: nat
  user_states_lock_timeouts :: nat
  unlocked_event_polling_batch_lock_timeouts :: nat
  available_data_services :: nat

record 'q batcher =
  batch_state :: "'q BatchState"
  user_states :: "address \<rightharpoonup> UserState"
  last_uploaded_batch_block :: u64
  posting_batch :: bool
  disabled_verifiers :: u256
  current_min_max_fee :: u256
  metrics :: BatcherMetrics
  outbox :: "(sink \<times> out_msg) list"

abbreviation queue_items :: "('q, 't) batcher_env \<Rightarrow> 'q batcher \<Rightarrow> item list" where
  "queue_items N s \<equiv> pq_iter (pq N) (batch_queue (batch_state s))"

definition send_message :: "sink \<Rightarrow> out_msg \<Rightarrow> 'q batcher \<Rightarrow> 'q batcher" where
  "send_message ws m s = s\<lparr>outbox := outbox s @ [(ws, m)]\<rparr>"

text \<open>The message to the sink of an entry, which only tests leave empty.\<close>

definition notify :: "sink option \<Rightarrow> out_msg \<Rightarrow> 'q batcher \<Rightarrow> 'q batcher" where
  "notify ws m s = (case ws of None \<Rightarrow> s | Some w \<Rightarrow> send_message w m s)"

definition notify_all :: "out_msg \<Rightarrow> BatchQueueEntry list \<Rightarrow> 'q batcher \<Rightarrow> 'q batcher" where
  "notify_all m es s = foldl (\<lambda>s e. notify (messaging_sink e) m s) s es"

definition user_error :: "string \<Rightarrow> string \<Rightarrow> 'q batcher \<Rightarrow> 'q batcher" where
  "user_error l1 l2 s =
     s\<lparr>metrics := (metrics s)\<lparr>user_errors := user_errors (metrics s) @ [(l1, l2)]\<rparr>\<rparr>"

definition inc_user_states_lock_timeouts :: "'q batcher \<Rightarrow> 'q batcher" where
  "inc_user_states_lock_timeouts s =
     s\<lparr>metrics := (metrics s)\<lparr>user_states_lock_timeouts := Suc (user_states_lock_timeouts (metrics s))\<rparr>\<rparr>"

definition update_queue_metrics :: "nat \<Rightarrow> nat \<Rightarrow> 'q batcher \<Rightarrow> 'q batcher" where
  "update_queue_metrics len bytes s =
     s\<lparr>metrics := (metrics s)\<lparr>queue_len := len, queue_size_bytes := bytes\<rparr>\<rparr>"

definition set_queue :: "'q \<Rightarrow> 'q batcher \<Rightarrow> 'q batcher" where
  "set_queue q s = s\<lparr>batch_state := (batch_state s)\<lparr>batch_queue := q\<rparr>\<rparr>"

definition set_user :: "address \<Rightarrow> UserState \<Rightarrow> 'q batcher \<Rightarrow> 'q batcher" where
  "set_user a u s = s\<lparr>user_states := (user_states s)(a \<mapsto> u)\<rparr>"

lemmas batcher_updates =
  send_message_def user_error_def inc_user_states_lock_timeouts_def update_queue_metrics_def
  set_queue_def set_user_def

text \<open>What the bookkeeping operations leave alone.\<close>

lemma frame_simps [simp]:
  "batch_state (send_message ws m s) = batch_state s"
  "user_states (send_message ws m s) = user_states s"
  "batch_state (user_error l1 l2 s) = batch_state s"
  "user_states (user_error l1 l2 s) = user_states s"
  "batch_state (inc_user_states_lock_timeouts s) = batch_state s"
  "user_states (inc_user_states_lock_timeouts s) = user_states s"
  "batch_state (update_queue_metrics l n s) = batch_state s"
  "user_states (update_queue_metrics l n s) = user_states s"
  "batch_state (notify w m s) = batch_state s"
  "user_states (notify w m s) = user_states s"
  "batch_queue (batch_state (set_queue q s)) = q"
  "max_size (batch_state (set_queue q s)) = max_size (batch_state s)"
  "user_states (set_queue q s) = user_states s"
  "batch_state (set_user a u s) = batch_state s"
  "user_states (set_user a u s) = (user_states s)(a \<mapsto> u)"
  "outbox (send_message ws m s) = outbox s @ [(ws, m)]"
  "outbox (user_error l1 l2 s) = outbox s"
  "posting_batch (send_message ws m s) = posting_batch s"
  "posting_batch (set_user a u s) = posting_batch s"
  "posting_batch (set_queue q s) = posting_batch s"
  "outbox (set_user a u s) = outbox s"
  "outbox (set_queue q s) = outbox s"
  by (simp_all add: batcher_updates notify_def split: option.splits)

lemma notify_all_frame [simp]:
  "batch_state (notify_all m es s) = batch_state s"
  "user_states (notify_all m es s) = user_states s"
  unfolding notify_all_def by (induction es arbitrary: s; simp)+

section \<open>Locks with a timeout\<close>

definition try_user_lock_with_timeout ::
    "('q, 't) batcher_env \<Rightarrow> address \<Rightarrow> 'q batcher \<Rightarrow> bool \<times> 'q batcher" where
  "try_user_lock_with_timeout N addr s =
     (if user_lock (lk N) addr then (True, s)
      else (False, s\<lparr>metrics := (metrics s)\<lparr>user_lock_timeouts := Suc (user_lock_timeouts (metrics s))\<rparr>\<rparr>))"

definition try_batch_lock_with_timeout ::
    "('q, 't) batcher_env \<Rightarrow> 'q batcher \<Rightarrow> bool \<times> 'q batcher" where
  "try_batch_lock_with_timeout N s =
     (if batch_lock (lk N) then (True, s)
      else (False, s\<lparr>metrics := (metrics s)\<lparr>batch_lock_timeouts := Suc (batch_lock_timeouts (metrics s))\<rparr>\<rparr>))"

lemma try_lock_frame:
  "try_user_lock_with_timeout N a s = (b, t) \<Longrightarrow> batch_state t = batch_state s \<and> user_states t = user_states s"
  "try_batch_lock_with_timeout N s = (b, t) \<Longrightarrow> batch_state t = batch_state s \<and> user_states t = user_states s"
  by (auto simp: try_user_lock_with_timeout_def try_batch_lock_with_timeout_def split: if_splits)

section \<open>User states of evicted proofs\<close>

text \<open>What the running task holds of the \<open>user_states\<close> lock (a \<open>tokio\<close> read-write lock).\<close>

datatype guard = NoGuard | ReadGuard | WriteGuard

definition write_blocks :: "guard \<Rightarrow> bool" where
  "write_blocks g \<longleftrightarrow> g \<noteq> NoGuard"

definition read_blocks :: "guard \<Rightarrow> bool" where
  "read_blocks g \<longleftrightarrow> g = WriteGuard"

text \<open>The fee of the last entry of a user in the iteration order of the queue.\<close>

definition last_fee_of :: "item list \<Rightarrow> address \<Rightarrow> u256 option" where
  "last_fee_of xs addr =
     (case rev (filter (\<lambda>x. sender (fst x) = addr) xs) of
        [] \<Rightarrow> None
      | x # _ \<Rightarrow> Some (entry_fee (fst x)))"

text \<open>The four assignments to the user state; a panic keeps the ones before it.\<close>

definition evict_from_user_state :: "u256 \<Rightarrow> u256 \<Rightarrow> UserState \<Rightarrow> (unit, UserState) res" where
  "evict_from_user_state fee new_limit u =
     (let u = u\<lparr>proofs_in_batch := proofs_in_batch u - 1\<rparr> in
      or_panic (checked_sub (us_nonce u) 1) u (\<lambda>n.
      let u = u\<lparr>us_nonce := n\<rparr> in
      or_panic (checked_sub (total_fees_in_queue u) fee) u (\<lambda>t.
      (Ret (), u\<lparr>total_fees_in_queue := t, last_max_fee_limit := new_limit\<rparr>))))"

definition update_evicted_user_state_with_lock ::
    "('q, 't) batcher_env \<Rightarrow> guard \<Rightarrow> BatchQueueEntry \<Rightarrow> UserState \<Rightarrow> 'q batcher \<Rightarrow> (unit, 'q batcher) res" where
  "update_evicted_user_state_with_lock N g removed_entry u s =
     (let addr = sender removed_entry in
      case last_fee_of (queue_items N s) addr of
        None \<Rightarrow> if write_blocks g then (Stuck, s)
                else (Ret (), s\<lparr>user_states := (user_states s)(addr := None)\<rparr>)
      | Some new_last_max_fee_limit \<Rightarrow>
        (case evict_from_user_state (entry_fee removed_entry) new_last_max_fee_limit u of
           (r, u') \<Rightarrow> (r, set_user addr u' s)))"

text \<open>The version of the restoration path, which looks the user up itself.\<close>

definition update_evicted_user_state_async ::
    "('q, 't) batcher_env \<Rightarrow> guard \<Rightarrow> BatchQueueEntry \<Rightarrow> 'q batcher \<Rightarrow> (unit option, 'q batcher) res" where
  "update_evicted_user_state_async N g removed_entry s =
     (let addr = sender removed_entry in
      case last_fee_of (queue_items N s) addr of
        None \<Rightarrow> if write_blocks g then (Stuck, s)
                else (Ret (Some ()), s\<lparr>user_states := (user_states s)(addr := None)\<rparr>)
      | Some new_last_max_fee_limit \<Rightarrow>
        if read_blocks g then (Stuck, s)
        else (case user_states s addr of
          None \<Rightarrow> (Ret None, s)
        | Some u \<Rightarrow>
          (case evict_from_user_state (entry_fee removed_entry) new_last_max_fee_limit u of
             (r, u') \<Rightarrow> and_then (r, set_user addr u' s) (\<lambda>_ s. (Ret (Some ()), s)))))"

section \<open>User states recomputed from the queue\<close>

type_synonym user_data = "address \<rightharpoonup> u64 \<times> u256 \<times> u256"

definition user_data_step :: "user_data \<Rightarrow> BatchQueueEntry \<Rightarrow> user_data option" where
  "user_data_step m e =
     (let addr = sender e; fee = entry_fee e in
      case (case m addr of None \<Rightarrow> (0, fee, 0) | Some d \<Rightarrow> d) of
        (proof_count, max_fee_limit, tot) \<Rightarrow>
          map_option (\<lambda>tot'. m(addr \<mapsto> (proof_count + 1,
                                     if fee < max_fee_limit then fee else max_fee_limit, tot')))
            (checked_add tot fee))"

fun user_data_loop :: "user_data \<Rightarrow> item list \<Rightarrow> user_data option" where
  "user_data_loop m [] = Some m"
| "user_data_loop m (x # xs) = Option.bind (user_data_step m (fst x)) (\<lambda>m. user_data_loop m xs)"

definition calculate_new_user_states_data :: "'q bq_ops \<Rightarrow> 'q \<Rightarrow> user_data option" where
  "calculate_new_user_states_data Q q = user_data_loop (\<lambda>_. None) (pq_iter Q q)"

text \<open>The new state of a user from the data recomputed for the queue.\<close>

definition refreshed :: "(u64 \<times> u256 \<times> u256) option \<Rightarrow> UserState \<Rightarrow> UserState" where
  "refreshed d u =
     (case d of
        Some (proof_count, min_max_fee_in_queue, tot) \<Rightarrow>
          u\<lparr>proofs_in_batch := proof_count, total_fees_in_queue := tot,
            last_max_fee_limit := min_max_fee_in_queue\<rparr>
      | None \<Rightarrow>
          u\<lparr>proofs_in_batch := 0, total_fees_in_queue := 0, last_max_fee_limit := u256_max\<rparr>)"

text \<open>The loop over the affected users, a set, in some order without repetition.\<close>

fun update_user_states_from_queue_state ::
    "('q, 't) batcher_env \<Rightarrow> address list \<Rightarrow> 'q batcher \<Rightarrow> (unit, 'q batcher) res" where
  "update_user_states_from_queue_state N [] s = (Ret (), s)"
| "update_user_states_from_queue_state N (addr # rest) s =
     (case user_states s addr of
        None \<Rightarrow> update_user_states_from_queue_state N rest s
      | Some u \<Rightarrow>
        or_panic (calculate_new_user_states_data (pq N) (batch_queue (batch_state s))) s (\<lambda>d.
          update_user_states_from_queue_state N rest (set_user addr (refreshed (d addr) u) s)))"

definition senders_of :: "BatchQueueEntry list \<Rightarrow> address list" where
  "senders_of es = remdups (map sender es)"

fun cleanup_loop :: "('q, 't) batcher_env \<Rightarrow> user_data \<Rightarrow> address list \<Rightarrow> 'q batcher \<Rightarrow> 'q batcher" where
  "cleanup_loop N d [] s = s"
| "cleanup_loop N d (addr # rest) s =
     cleanup_loop N d rest
       (if d addr = None then
          (case user_states s addr of
             Some u \<Rightarrow> if user_try_lock (lk N) addr
                       then set_user addr (u\<lparr>last_max_fee_limit := u256_max\<rparr>) s else s
           | None \<Rightarrow> s)
        else s)"

definition cleanup_user_states_after_successful_submission ::
    "('q, 't) batcher_env \<Rightarrow> BatchQueueEntry list \<Rightarrow> 'q batcher \<Rightarrow> (unit, 'q batcher) res" where
  "cleanup_user_states_after_successful_submission N finalized_batch s =
     (if \<not> batch_try_lock (lk N) then (Ret (), s)
      else or_panic (calculate_new_user_states_data (pq N) (batch_queue (batch_state s))) s (\<lambda>d.
        (Ret (), cleanup_loop N d (senders_of finalized_batch) s)))"

end
