(* ===== verification/Submit_Proof.thy ===== *)
theory Submit_Proof
  imports Batcher_State
begin

text \<open>
  Client messages of the batcher (\<open>batcher/src/lib.rs\<close>): the checks on a submitted proof, its way
  into the queue, replacement of a queued proof, eviction from a full queue, and the queries for
  the nonce and the last max fee. \<open>handle_submit_proof_msg\<close> is composed of the phases its comments
  name; a phase that returns early sends its answer and has the result \<open>None\<close>.
\<close>

section \<open>Non-paying addresses\<close>

definition has_to_pay :: "BatcherConfig \<Rightarrow> address \<Rightarrow> bool" where
  "has_to_pay c addr =
     (non_paying_config c = None
      \<or> (case non_paying_config c of None \<Rightarrow> False | Some np \<Rightarrow> np_address np \<noteq> addr))"

definition get_nonpaying_replacement_addr :: "BatcherConfig \<Rightarrow> address option" where
  "get_nonpaying_replacement_addr c = map_option np_replacement (non_paying_config c)"

text \<open>\<open>None\<close> is the panic of the \<open>unwrap\<close>.\<close>

definition aligned_payment_address :: "BatcherConfig \<Rightarrow> address option" where
  "aligned_payment_address c = map_option np_replacement (non_paying_config c)"

section \<open>Checks on a message\<close>

definition reply :: "sink \<Rightarrow> SubmitProofResponseMessage \<Rightarrow> 'q batcher \<Rightarrow> 'q batcher" where
  "reply ws m s = send_message ws (SubmitResp m) s"

definition msg_signature_is_valid ::
    "('q, 't) batcher_env \<Rightarrow> SubmitProofMessage \<Rightarrow> sink \<Rightarrow> 'q batcher \<Rightarrow> address option \<times> 'q batcher" where
  "msg_signature_is_valid N m ws s =
     (case verify_signature (crypto N) m of
        Inl _ \<Rightarrow> (None, user_error ''invalid_signature'' [] (reply ws InvalidSignature s))
      | Inr addr \<Rightarrow> (Some addr, s))"

definition msg_proof_size_is_valid ::
    "('q, 't) batcher_env \<Rightarrow> SubmitProofMessage \<Rightarrow> sink \<Rightarrow> 'q batcher \<Rightarrow> bool \<times> 'q batcher" where
  "msg_proof_size_is_valid N m ws s =
     (if max_proof_size (cfg N) < cbor_size_upper_bound (msg_verification_data m)
      then (False, user_error ''proof_too_large'' [] (reply ws ProofTooLarge s))
      else (True, s))"

definition msg_chain_id_is_valid ::
    "('q, 't) batcher_env \<Rightarrow> SubmitProofMessage \<Rightarrow> sink \<Rightarrow> 'q batcher \<Rightarrow> bool \<times> 'q batcher" where
  "msg_chain_id_is_valid N m ws s =
     (if chain_id (msg_verification_data m) \<noteq> cfg_chain_id (cfg N)
      then (False, user_error ''invalid_chain_id'' [] (reply ws InvalidChainId s))
      else (True, s))"

definition msg_batcher_payment_addr_is_valid ::
    "('q, 't) batcher_env \<Rightarrow> SubmitProofMessage \<Rightarrow> sink \<Rightarrow> 'q batcher \<Rightarrow> bool \<times> 'q batcher" where
  "msg_batcher_payment_addr_is_valid N m ws s =
     (let addr = payment_service_addr (msg_verification_data m) in
      if addr \<noteq> cfg_payment_service (cfg N)
      then (False, user_error ''invalid_payment_service_address'' []
              (reply ws (InvalidPaymentServiceAddress addr (cfg_payment_service (cfg N))) s))
      else (True, s))"

definition msg_covers_minimum_max_fee :: "u256 \<Rightarrow> 'q batcher \<Rightarrow> bool" where
  "msg_covers_minimum_max_fee msg_max_fee s = (current_min_max_fee s \<le> msg_max_fee)"

definition msg_user_balance_is_locked ::
    "('q, 't) batcher_env \<Rightarrow> address \<Rightarrow> sink \<Rightarrow> 'q batcher \<Rightarrow> bool \<times> 'q batcher" where
  "msg_user_balance_is_locked N addr ws s =
     (if user_balance_is_unlocked (eth N) addr
      then (False, user_error ''insufficient_balance'' [] (reply ws (InsufficientBalance addr) s))
      else (True, s))"

text \<open>\<open>None\<close> is the panic of the \<open>U256\<close> addition.\<close>

definition verify_user_has_enough_balance :: "u256 \<Rightarrow> u256 \<Rightarrow> u256 \<Rightarrow> bool option" where
  "verify_user_has_enough_balance user_balance user_accumulated_fee new_msg_max_fee =
     map_option (\<lambda>required_balance. required_balance \<le> user_balance)
       (checked_add user_accumulated_fee new_msg_max_fee)"

definition verify_proof_if_enabled ::
    "('q, 't) batcher_env \<Rightarrow> VerificationData \<Rightarrow> sink \<Rightarrow> 'q batcher \<Rightarrow> bool \<times> 'q batcher" where
  "verify_proof_if_enabled N vd ws s =
     (if \<not> pre_verification_is_enabled (cfg N) then (True, s)
      else if is_verifier_disabled (disabled_verifiers s) (proving_system vd) then
        (False, user_error ''disabled_verifier'' (proving_system_display (proving_system vd))
           (reply ws (InvalidProof (DisabledVerifier (proving_system vd))) s))
      else if \<not> verify (zk N) vd then
        (False, user_error ''rejected_proof'' (proving_system_display (proving_system vd))
           (reply ws (InvalidProof RejectedProof) s))
      else (True, s))"

section \<open>Submission\<close>

text \<open>The first phase: validations over the message, and the address that pays for it.\<close>

definition validate_message ::
    "('q, 't) batcher_env \<Rightarrow> SubmitProofMessage \<Rightarrow> sink \<Rightarrow> 'q batcher
     \<Rightarrow> ((address \<times> NoncedVerificationData) option, 'q batcher) res" where
  "validate_message N m ws s =
     (let s = s\<lparr>metrics := (metrics s)\<lparr>received_proofs := Suc (received_proofs (metrics s))\<rparr>\<rparr>;
          (ok, s) = msg_chain_id_is_valid N m ws s in
      if \<not> ok then (Ret None, s) else
      let (ok, s) = msg_batcher_payment_addr_is_valid N m ws s in
      if \<not> ok then (Ret None, s) else
      let (ok, s) = msg_proof_size_is_valid N m ws s in
      if \<not> ok then (Ret None, s) else
      case msg_signature_is_valid N m ws s of
        (None, s) \<Rightarrow> (Ret None, s)
      | (Some addr_in_msg, s) \<Rightarrow>
        and_then
          (if has_to_pay (cfg N) addr_in_msg
           then (Ret (addr_in_msg, msg_verification_data m), s)
           else or_panic (aligned_payment_address (cfg N)) s (\<lambda>addr.
             (Ret (addr, (msg_verification_data m)\<lparr>max_fee := ucast (DEFAULT_MAX_FEE_PER_PROOF * 100)\<rparr>), s)))
          (\<lambda>(addr, nvd) s.
             if \<not> msg_covers_minimum_max_fee (max_fee nvd) s
             then (Ret None, reply ws UnderpricedProof s)
             else let (ok, s) = msg_user_balance_is_locked N addr ws s in
               if ok then (Ret (Some (addr, nvd)), s) else (Ret None, s)))"

text \<open>
  The second phase: the cached state of the user, created with the nonce on Ethereum when missing,
  and its lock. From here on the user's own lock is held.
\<close>

definition lock_user_state ::
    "('q, 't) batcher_env \<Rightarrow> address \<Rightarrow> sink \<Rightarrow> 'q batcher \<Rightarrow> (UserState option, 'q batcher) res" where
  "lock_user_state N addr ws s =
     and_some
       (if \<not> user_states_read (lk N) 0
        then (Ret None, reply ws ServerBusy (inc_user_states_lock_timeouts s))
        else if user_states s addr \<noteq> None then (Ret (Some ()), s)
        else (case get_user_nonce_from_ethereum (eth N) addr of
           Inl _ \<Rightarrow> (Ret None, user_error ''eth_rpc_error'' [] (reply ws EthRpcError s))
         | Inr ethereum_user_nonce \<Rightarrow>
           if user_states_write (lk N)
           then (Ret (Some ()), set_user addr (UserState_new ethereum_user_nonce) s)
           else (Ret None, reply ws ServerBusy (inc_user_states_lock_timeouts s))))
       (\<lambda>_ s.
        if \<not> user_states_read (lk N) 1
        then (Ret None, reply ws ServerBusy (inc_user_states_lock_timeouts s))
        else (case user_states s addr of
           None \<Rightarrow> (Ret None, user_error ''batcher_state_error'' [] (reply ws AddToBatchError s))
         | Some u \<Rightarrow>
           let (ok, s) = try_user_lock_with_timeout N addr s in
           if ok then (Ret (Some u), s) else (Ret None, reply ws ServerBusy s)))"

text \<open>The third phase, up to the comparison of the nonces.\<close>

definition check_balance ::
    "('q, 't) batcher_env \<Rightarrow> address \<Rightarrow> NoncedVerificationData \<Rightarrow> UserState \<Rightarrow> sink \<Rightarrow> 'q batcher
     \<Rightarrow> (unit option, 'q batcher) res" where
  "check_balance N addr nvd u ws s =
     (case get_user_balance (eth N) addr of
        None \<Rightarrow> (Ret None, user_error ''eth_rpc_error'' [] (reply ws EthRpcError s))
      | Some user_balance \<Rightarrow>
        or_panic (verify_user_has_enough_balance user_balance (total_fees_in_queue u) (max_fee nvd)) s
          (\<lambda>enough. if enough then (Ret (Some ()), s)
             else (Ret None, user_error ''insufficient_balance'' []
                     (reply ws (InsufficientBalance addr) s))))"

section \<open>Replacement of a queued proof\<close>

text \<open>The least fee that may replace \<open>original_max_fee\<close>; \<open>None\<close> is a panic.\<close>

definition min_bump :: "u256 \<Rightarrow> u256 \<Rightarrow> u256 option" where
  "min_bump bump_percentage original_max_fee =
     Option.bind (checked_mul original_max_fee bump_percentage)
       (\<lambda>x. checked_add original_max_fee (x div 100))"

definition replacement_of ::
    "('q, 't) batcher_env \<Rightarrow> BatchQueueEntry \<Rightarrow> NoncedVerificationData \<Rightarrow> signature \<Rightarrow> sink \<Rightarrow> BatchQueueEntry" where
  "replacement_of N entry nvd sig ws =
     entry\<lparr>entry_signature := sig,
           verification_data_commitment :=
             verification_data_into_commitment (keccak N) (verification_data nvd),
           nonced_verification_data := nvd,
           messaging_sink := Some ws\<rparr>"

definition queue_replace :: "'q bq_ops \<Rightarrow> 'q \<Rightarrow> BatchQueueEntry \<Rightarrow> BatchQueueEntryPriority \<Rightarrow> 'q" where
  "queue_replace Q q e p =
     pq_push Q (case pq_remove Q q e of None \<Rightarrow> q | Some (_, q') \<Rightarrow> q') e p"

text \<open>The replacement in the queue and in the user state; a panic keeps the assignments before it.\<close>

definition apply_replacement ::
    "('q, 't) batcher_env \<Rightarrow> u256 \<Rightarrow> BatchQueueEntry \<Rightarrow> address \<Rightarrow> UserState \<Rightarrow> 'q batcher
     \<Rightarrow> (unit, 'q batcher) res" where
  "apply_replacement N original_max_fee replacement_entry addr u s =
     (let s = set_queue (queue_replace (pq N) (batch_queue (batch_state s)) replacement_entry
                (BatchQueueEntryPriority (entry_fee replacement_entry) (entry_nonce replacement_entry))) s;
          u = u\<lparr>last_max_fee_limit := get_user_min_fee_in_batch (pq N) (batch_state s) addr\<rparr>;
          s = set_user addr u s in
      or_panic (checked_sub (entry_fee replacement_entry) original_max_fee) s (\<lambda>fee_difference.
      or_panic (checked_add (total_fees_in_queue u) fee_difference) s (\<lambda>t.
      (Ret (), set_user addr (u\<lparr>total_fees_in_queue := t\<rparr>) s))))"

definition handle_replacement_message ::
    "('q, 't) batcher_env \<Rightarrow> NoncedVerificationData \<Rightarrow> sink \<Rightarrow> signature \<Rightarrow> address \<Rightarrow> UserState \<Rightarrow> 'q batcher
     \<Rightarrow> (unit, 'q batcher) res" where
  "handle_replacement_message N nvd ws sig addr u s =
     (let (ok, s) = try_batch_lock_with_timeout N s in
      if \<not> ok then (Ret (), reply ws ServerBusy s) else
      case get_entry (pq N) (batch_state s) addr (nonce nvd) of
        None \<Rightarrow> (Ret (), user_error ''invalid_nonce'' [] (reply ws InvalidNonce s))
      | Some entry \<Rightarrow>
        or_panic (min_bump (min_bump_percentage (cfg N)) (entry_fee entry)) s (\<lambda>least.
        if max_fee nvd < least
        then (Ret (), user_error ''insufficient_fee_increase'' [] (reply ws UnderpricedProof s)) else
        let (ok, s) = verify_proof_if_enabled N (verification_data nvd) ws s in
        if \<not> ok then (Ret (), s) else
        let replacement_entry = replacement_of N entry nvd sig ws;
            s = notify (messaging_sink entry) CloseSink
                  (notify (messaging_sink entry) (SubmitResp ProofReplaced) s) in
        if \<not> replacement_entry_is_valid (pq N) (batch_state s) replacement_entry
        then (Ret (), user_error ''invalid_replacement_message'' []
                (reply ws InvalidReplacementMessage s))
        else apply_replacement N (entry_fee entry) replacement_entry addr u s))"

section \<open>Eviction from a full queue\<close>

definition eviction_candidates :: "u256 \<Rightarrow> item list \<Rightarrow> address list" where
  "eviction_candidates new_fee xs = map (sender \<circ> fst) (filter (\<lambda>x. entry_fee (fst x) < new_fee) xs)"

text \<open>
  The candidates in order, until one entry is evicted. The guard of \<open>user_states.read()\<close> is a
  temporary of the \<open>if let\<close> and lives to the end of its body, so the body runs with a read guard.
  The submitter's own lock is held by this task, so \<open>try_lock\<close> fails on it.
\<close>

fun evict_loop ::
    "('q, 't) batcher_env \<Rightarrow> address \<Rightarrow> u256 \<Rightarrow> address list \<Rightarrow> 'q batcher
     \<Rightarrow> (BatchQueueEntry option, 'q batcher) res" where
  "evict_loop N own new_fee [] s = (Ret None, s)"
| "evict_loop N own new_fee (candidate # rest) s =
     (case user_states s candidate of
        None \<Rightarrow> evict_loop N own new_fee rest s
      | Some u \<Rightarrow>
        if candidate = own \<or> \<not> user_try_lock (lk N) candidate then evict_loop N own new_fee rest s
        else
          (case filter (\<lambda>x. sender (fst x) = candidate \<and> entry_fee (fst x) < new_fee)
                  (queue_items N s) of
             [] \<Rightarrow> evict_loop N own new_fee rest s
           | target # _ \<Rightarrow>
             (case pq_remove (pq N) (batch_queue (batch_state s)) (fst target) of
                None \<Rightarrow> evict_loop N own new_fee rest s
              | Some ((removed, _), q) \<Rightarrow>
                and_then (update_evicted_user_state_with_lock N ReadGuard removed u (set_queue q s))
                  (\<lambda>_ s. (Ret (Some removed),
                          notify (messaging_sink removed) (SubmitResp UnderpricedProof) s)))))"

definition make_room ::
    "('q, 't) batcher_env \<Rightarrow> address \<Rightarrow> NoncedVerificationData \<Rightarrow> sink \<Rightarrow> 'q batcher
     \<Rightarrow> (unit option, 'q batcher) res" where
  "make_room N addr nvd ws s =
     (if is_queue_full (pq N) (batch_state s) then
        and_then (evict_loop N addr (max_fee nvd)
                    (eviction_candidates (max_fee nvd) (queue_items N s)) s)
          (\<lambda>evicted s. if evicted = None then (Ret None, reply ws UnderpricedProof s)
                       else (Ret (Some ()), s))
      else (Ret (Some ()), s))"

section \<open>Adding the proof\<close>

definition new_entry ::
    "('q, 't) batcher_env \<Rightarrow> NoncedVerificationData \<Rightarrow> sink \<Rightarrow> signature \<Rightarrow> address \<Rightarrow> BatchQueueEntry" where
  "new_entry N nvd ws sig addr =
     BatchQueueEntry_new nvd (nonced_into_commitment (keccak N) nvd) ws sig addr"

definition add_to_batch ::
    "('q, 't) batcher_env \<Rightarrow> NoncedVerificationData \<Rightarrow> sink \<Rightarrow> signature \<Rightarrow> address \<Rightarrow> 'q batcher
     \<Rightarrow> (BatcherError + unit) \<times> 'q batcher" where
  "add_to_batch N nvd ws sig addr s =
     (let q = pq_push (pq N) (batch_queue (batch_state s)) (new_entry N nvd ws sig addr)
                (BatchQueueEntryPriority (max_fee nvd) (nonce nvd));
          s = set_queue q s in
      case calculate_batch_size (pq N) q of
        Inl e \<Rightarrow> (Inl e, s)
      | Inr queue_bytes \<Rightarrow> (Inr (), update_queue_metrics (pq_len (pq N) q) queue_bytes s))"

text \<open>The assignments to the user state after the entry was added; a panic keeps the earlier ones.\<close>

definition count_submitted :: "NoncedVerificationData \<Rightarrow> UserState \<Rightarrow> (unit, UserState) res" where
  "count_submitted nvd u =
     or_panic (checked_add (nonce nvd) 1) u (\<lambda>n.
     let u = u\<lparr>us_nonce := n, last_max_fee_limit := max_fee nvd,
               proofs_in_batch := proofs_in_batch u + 1\<rparr> in
     or_panic (checked_add (total_fees_in_queue u) (max_fee nvd)) u (\<lambda>t.
     (Ret (), u\<lparr>total_fees_in_queue := t\<rparr>)))"

definition add_and_count ::
    "('q, 't) batcher_env \<Rightarrow> NoncedVerificationData \<Rightarrow> sink \<Rightarrow> signature \<Rightarrow> address \<Rightarrow> UserState \<Rightarrow> 'q batcher
     \<Rightarrow> (unit, 'q batcher) res" where
  "add_and_count N nvd ws sig addr u s =
     (case add_to_batch N nvd ws sig addr s of
        (Inl _, s) \<Rightarrow> (Ret (), user_error ''add_to_batch_error'' [] (reply ws AddToBatchError s))
      | (Inr _, s) \<Rightarrow> (case count_submitted nvd u of (r, u') \<Rightarrow> (r, set_user addr u' s)))"

text \<open>A proof with the expected nonce.\<close>

definition handle_new_proof ::
    "('q, 't) batcher_env \<Rightarrow> NoncedVerificationData \<Rightarrow> sink \<Rightarrow> signature \<Rightarrow> address \<Rightarrow> UserState \<Rightarrow> 'q batcher
     \<Rightarrow> (unit, 'q batcher) res" where
  "handle_new_proof N nvd ws sig addr u s =
     (if last_max_fee_limit u < max_fee nvd
      then (Ret (), user_error ''invalid_max_fee'' [] (reply ws InvalidMaxFee s)) else
      let (ok, s) = verify_proof_if_enabled N (verification_data nvd) ws s in
      if \<not> ok then (Ret (), s) else
      let (ok, s) = try_batch_lock_with_timeout N s in
      if \<not> ok then (Ret (), reply ws ServerBusy s) else
      and_then (make_room N addr nvd ws s) (\<lambda>room s.
        if room = None then (Ret (), s) else add_and_count N nvd ws sig addr u s))"

definition handle_submit_proof_msg ::
    "('q, 't) batcher_env \<Rightarrow> SubmitProofMessage \<Rightarrow> sink \<Rightarrow> 'q batcher \<Rightarrow> (unit, 'q batcher) res" where
  "handle_submit_proof_msg N m ws s =
     and_then (validate_message N m ws s) (\<lambda>v s. case v of None \<Rightarrow> (Ret (), s) | Some (addr, nvd) \<Rightarrow>
     and_then (lock_user_state N addr ws s) (\<lambda>l s. case l of None \<Rightarrow> (Ret (), s) | Some u \<Rightarrow>
     and_then (check_balance N addr nvd u ws s) (\<lambda>b s. case b of None \<Rightarrow> (Ret (), s) | Some _ \<Rightarrow>
       (let msg_nonce = nonce (msg_verification_data m); expected_nonce = us_nonce u in
        if expected_nonce < msg_nonce
        then (Ret (), user_error ''invalid_nonce'' [] (reply ws InvalidNonce s))
        else if msg_nonce < expected_nonce
        then handle_replacement_message N nvd ws (msg_signature m) addr u s
        else handle_new_proof N nvd ws (msg_signature m) addr u s))))"

section \<open>Queries\<close>

definition query_address :: "BatcherConfig \<Rightarrow> address \<Rightarrow> address option" where
  "query_address c addr = (if has_to_pay c addr then Some addr else get_nonpaying_replacement_addr c)"

definition handle_get_nonce_for_address_msg ::
    "('q, 't) batcher_env \<Rightarrow> address \<Rightarrow> sink \<Rightarrow> 'q batcher \<Rightarrow> (unit, 'q batcher) res" where
  "handle_get_nonce_for_address_msg N address ws s =
     (case query_address (cfg N) address of
        None \<Rightarrow> (Ret (), send_message ws (NonceResp (NonceInvalidRequest
                   ''There isn't a non-paying configuration loaded.'')) s)
      | Some addr \<Rightarrow>
        if \<not> user_states_read (lk N) 0
        then (Ret (), send_message ws (NonceResp NonceServerBusy) (inc_user_states_lock_timeouts s))
        else (case user_states s addr of
          Some u \<Rightarrow>
            (let (ok, s) = try_user_lock_with_timeout N addr s in
             if ok then (Ret (), send_message ws (NonceResp (Nonce (us_nonce u))) s)
             else (Ret (), send_message ws (NonceResp NonceServerBusy) s))
        | None \<Rightarrow>
          (case get_user_nonce_from_ethereum (eth N) addr of
             Inr n \<Rightarrow> (Ret (), send_message ws (NonceResp (Nonce n)) s)
           | Inl _ \<Rightarrow> (Ret (), send_message ws (NonceResp (NonceEthRpcError ''Eth RPC error'')) s))))"

definition handle_get_last_max_fee ::
    "('q, 't) batcher_env \<Rightarrow> address \<Rightarrow> sink \<Rightarrow> 'q batcher \<Rightarrow> (unit, 'q batcher) res" where
  "handle_get_last_max_fee N address ws s =
     (case query_address (cfg N) address of
        None \<Rightarrow> (Ret (), send_message ws (FeeResp (FeeInvalidRequest
                   ''There isn't a non-paying configuration loaded.'')) s)
      | Some addr \<Rightarrow>
        if \<not> user_states_read (lk N) 0
        then (Ret (), send_message ws (FeeResp FeeServerBusy) (inc_user_states_lock_timeouts s))
        else (case user_states s addr of
          None \<Rightarrow> (Ret (), send_message ws (FeeResp (LastMaxFee u256_max)) s)
        | Some u \<Rightarrow>
          (let (ok, s) = try_user_lock_with_timeout N addr s in
           if \<not> ok then (Ret (), send_message ws (FeeResp FeeServerBusy) s)
           else (Ret (), send_message ws (FeeResp (LastMaxFee
                   (if 0 < proofs_in_batch u then last_max_fee_limit u else u256_max))) s))))"

text \<open>A client message, after its deserialization.\<close>

definition handle_message ::
    "('q, 't) batcher_env \<Rightarrow> (bytes \<Rightarrow> ClientMessage option) \<Rightarrow> bytes \<Rightarrow> sink \<Rightarrow> 'q batcher
     \<Rightarrow> (unit, 'q batcher) res" where
  "handle_message N cbor_deserialize message ws s =
     (case cbor_deserialize message of
        None \<Rightarrow> (Ret (), user_error ''deserialize_error'' [] s)
      | Some (GetNonceForAddress a) \<Rightarrow> handle_get_nonce_for_address_msg N a ws s
      | Some (SubmitProof m) \<Rightarrow> handle_submit_proof_msg N m ws s
      | Some (GetLastMaxFee a) \<Rightarrow> handle_get_last_max_fee N a ws s)"

end
