(* ===== verification/New_Block.thy ===== *)
theory New_Block
  imports Submit_Proof
begin

text \<open>
  What the batcher does on a new Ethereum block (\<open>handle_new_block\<close> of \<open>batcher/src/lib.rs\<close>): update
  the minimum fee and the disabled verifiers, extract a batch when one is ready, upload it, create
  the task on chain, and answer the clients or restore the proofs. The responses are those of
  \<open>batcher/src/connection.rs\<close>. Durations are time only and are left out.
\<close>

section \<open>Extracting a batch\<close>

definition extract_batch_if_ready ::
    "('q, 't) batcher_env \<Rightarrow> u64 \<Rightarrow> u256 \<Rightarrow> 'q batcher \<Rightarrow> (BatchQueueEntry list option, 'q batcher) res" where
  "extract_batch_if_ready N block_number gas_price s =
     (let q = batch_queue (batch_state s) in
      if pq_len (pq N) q < 1 then (Ret None, s)
      else if block_number < last_uploaded_batch_block s + min_block_interval (cfg N) then (Ret None, s)
      else if posting_batch s then (Ret None, s)
      else
        let s = s\<lparr>posting_batch := True\<rparr> in
        case extract_batch_directly (pq N) q gas_price (max_batch_byte_size (cfg N))
               (max_batch_proof_qty (cfg N))
               (constant_gas_cost (aggregator_fee_percentage_multiplier (cfg N))
                  (aggregator_gas_cost (cfg N))) of
          (r, q') \<Rightarrow>
            and_then (r, set_queue q' s) (\<lambda>r s. case r of
              Inl _ \<Rightarrow> (Ret None, s\<lparr>posting_batch := False\<rparr>)
            | Inr finalized_batch \<Rightarrow>
              (Ret (Some finalized_batch),
               update_queue_metrics (pq_len (pq N) q')
                 (case calculate_batch_size (pq N) q' of Inr n \<Rightarrow> n | Inl _ \<Rightarrow> 0) s)))"

section \<open>Uploading the batch\<close>

definition upload_batch_to_s3_retryable ::
    "('q, 't) batcher_env \<Rightarrow> bool \<Rightarrow> bytes \<Rightarrow> string \<Rightarrow> nat \<Rightarrow> string RetryError + unit" where
  "upload_batch_to_s3_retryable N primary batch_bytes file_name i =
     (case s3_upload N primary i batch_bytes file_name of
        Inl e \<Rightarrow> Inl (Transient e)
      | Inr _ \<Rightarrow> Inr ())"

definition upload_batch_to_s3 ::
    "('q, 't) batcher_env \<Rightarrow> bool \<Rightarrow> bytes \<Rightarrow> string \<Rightarrow> BatcherError + unit" where
  "upload_batch_to_s3 N primary batch_bytes file_name =
     map_sum (\<lambda>e. BatchUploadError (inner e)) id
       (retry_function (driver (eth N)) (upload_batch_to_s3_retryable N primary batch_bytes file_name)
          ETHEREUM_CALL_MAX_RETRIES)"

fun join_urls :: "string list \<Rightarrow> string" where
  "join_urls [] = []"
| "join_urls [u] = u"
| "join_urls (u # v # us) = u @ '','' @ join_urls (v # us)"

definition uploaded_urls :: "('q, 't) batcher_env \<Rightarrow> bytes \<Rightarrow> string \<Rightarrow> string list" where
  "uploaded_urls N batch_bytes file_name =
     (case upload_batch_to_s3 N True batch_bytes file_name of
        Inr _ \<Rightarrow> [download_endpoint (cfg N) @ ''/'' @ file_name] | Inl _ \<Rightarrow> [])
     @ (case download_endpoint_secondary (cfg N) of
          None \<Rightarrow> []
        | Some endpoint \<Rightarrow>
          (case upload_batch_to_s3 N False batch_bytes file_name of
             Inr _ \<Rightarrow> [endpoint @ ''/'' @ file_name] | Inl _ \<Rightarrow> []))"

definition upload_batch_to_multiple_s3 ::
    "('q, 't) batcher_env \<Rightarrow> bytes \<Rightarrow> string \<Rightarrow> 'q batcher \<Rightarrow> (BatcherError + string) \<times> 'q batcher" where
  "upload_batch_to_multiple_s3 N batch_bytes file_name s =
     (let urls = uploaded_urls N batch_bytes file_name;
          s = s\<lparr>metrics := (metrics s)\<lparr>available_data_services := length urls\<rparr>\<rparr> in
      if urls = [] then (Inl (BatchUploadError ''Failed to upload to any S3 bucket''), s)
      else (Inr (join_urls urls), s))"

section \<open>Creating the task\<close>

definition simulate_create_new_task :: "('q, 't) batcher_env \<Rightarrow> task_args \<Rightarrow> BatcherError + unit" where
  "simulate_create_new_task N a =
     map_sum inner id
       (retry_function (driver (eth N)) (simulate_create_new_task_retryable (eth N) a)
          ETHEREUM_CALL_MAX_RETRIES)"

definition create_new_task ::
    "('q, 't) batcher_env \<Rightarrow> task_args \<Rightarrow> 'q batcher \<Rightarrow> (BatcherError + nat, 'q batcher) res" where
  "create_new_task N a s =
     (case retry_function (driver (eth N)) (create_new_task_retryable (eth N) a)
             ETHEREUM_CALL_MAX_RETRIES of
        Inr receipt \<Rightarrow> (Ret (Inr receipt), s)
      | Inl (Permanent ReceiptNotFoundError) \<Rightarrow>
        (let s = s\<lparr>metrics := (metrics s)\<lparr>canceled_batches := Suc (canceled_batches (metrics s))\<rparr>\<rparr> in
         case cancel_create_new_task_tx (eth N) (cancel_gas_prices N) (fp_gas_price (ta_fee_params a)) of
           Inr None \<Rightarrow> (Panicked, s)
         | _ \<Rightarrow> (Ret (Inl ReceiptNotFoundError), s))
      | Inl e \<Rightarrow> (Ret (Inl (inner e)), s))"

definition submit_batch ::
    "('q, 't) batcher_env \<Rightarrow> bytes \<Rightarrow> bytes \<Rightarrow> bytes list \<Rightarrow> BatchQueueEntry list \<Rightarrow> u256 \<Rightarrow> 'q batcher
     \<Rightarrow> (BatcherError + unit, 'q batcher) res" where
  "submit_batch N batch_bytes root leaves finalized_batch gas_price s =
     (case upload_batch_to_multiple_s3 N batch_bytes (hex_encode (hex (eth N)) root @ ''.json'') s of
        (Inl e, s) \<Rightarrow> (Ret (Inl e), s)
      | (Inr batch_data_pointer, s) \<Rightarrow>
        or_panic (create_new_task_fee_params (aggregator_fee_percentage_multiplier (cfg N))
                    (aggregator_gas_cost (cfg N)) (length leaves) gas_price) s (\<lambda>fee_params.
        let a = \<lparr> ta_merkle_root = root, ta_data_pointer = batch_data_pointer,
                  ta_proof_submitters = map sender finalized_batch, ta_fee_params = fee_params \<rparr> in
        case simulate_create_new_task N a of
          Inl e \<Rightarrow> (Ret (Inl e), s)
        | Inr _ \<Rightarrow>
          or_panic (as_u64 gas_price) s (\<lambda>g.
          let s = s\<lparr>metrics := (metrics s)\<lparr>gas_price_used_on_latest_batch := g\<rparr>\<rparr> in
          and_then (create_new_task N a s) (\<lambda>r s. case r of
            Inr _ \<Rightarrow> (Ret (Inr ()),
              s\<lparr>metrics := (metrics s)\<lparr>sent_batches := Suc (sent_batches (metrics s))\<rparr>\<rparr>)
          | Inl e \<Rightarrow> (Ret (Inl e),
              s\<lparr>metrics := (metrics s)\<lparr>reverted_batches := Suc (reverted_batches (metrics s))\<rparr>\<rparr>)))))"

section \<open>Answering the clients\<close>

text \<open>
  \<open>finalized_batch.iter().enumerate().rev()\<close>: from the last entry of the batch to the first. A
  missing inclusion path is a panic; an error stops the loop.
\<close>

fun inclusion_loop ::
    "('q, 't) batcher_env \<Rightarrow> 't \<Rightarrow> (nat \<times> BatchQueueEntry) list \<Rightarrow> 'q batcher
     \<Rightarrow> (BatcherError + unit, 'q batcher) res" where
  "inclusion_loop N t [] s = (Ret (Inr ()), s)"
| "inclusion_loop N t ((i, entry) # rest) s =
     or_panic (BatchInclusionData_new (merkle N) i t (entry_nonce entry)) s (\<lambda>d.
       case cbor_serialize_response N (BatchInclusion d) of
         Inl e \<Rightarrow> (Ret (Inl (SerializationErr e)), s)
       | Inr _ \<Rightarrow>
         (case messaging_sink entry of
            None \<Rightarrow> (Ret (Inl WsSinkEmpty), s)
          | Some ws \<Rightarrow> inclusion_loop N t rest (send_message ws (SubmitResp (BatchInclusion d)) s)))"

definition send_batch_inclusion_data_responses ::
    "('q, 't) batcher_env \<Rightarrow> BatchQueueEntry list \<Rightarrow> 't \<Rightarrow> 'q batcher \<Rightarrow> (BatcherError + unit, 'q batcher) res" where
  "send_batch_inclusion_data_responses N finalized_batch t s =
     inclusion_loop N t (rev (enumerate 0 finalized_batch)) s"

section \<open>Flushing and restoring\<close>

definition flush_queue_and_clear_nonce_cache :: "('q, 't) batcher_env \<Rightarrow> 'q batcher \<Rightarrow> 'q batcher" where
  "flush_queue_and_clear_nonce_cache N s =
     (let s = notify_all (SubmitResp BatchReset) (map fst (queue_items N s)) s;
          cleared = (set_queue (pq_clear (pq N) (batch_queue (batch_state s))) s)
                      \<lparr>user_states := (\<lambda>_. None)\<rparr> in
      case get_nonpaying_replacement_addr (cfg N) of
        None \<Rightarrow> cleared
      | Some addr \<Rightarrow>
        (case get_user_nonce_from_ethereum (eth N) addr of
           Inl _ \<Rightarrow> cleared
         | Inr n \<Rightarrow> update_queue_metrics 0 0 (set_user addr (UserState_new n) cleared)))"

text \<open>The loop of the restoration runs with the write guard of \<open>user_states\<close> held.\<close>

fun restore_loop ::
    "('q, 't) batcher_env \<Rightarrow> BatchQueueEntry list \<Rightarrow> BatchQueueEntry list \<Rightarrow> 'q batcher
     \<Rightarrow> (BatchQueueEntry list, 'q batcher) res" where
  "restore_loop N [] restored s = (Ret restored, s)"
| "restore_loop N (entry # rest) restored s =
     (let push = (\<lambda>s. set_queue (pq_push (pq N) (batch_queue (batch_state s)) entry
                                   (BatchQueueEntryPriority (entry_fee entry) (entry_nonce entry))) s) in
      if is_queue_full (pq N) (batch_state s) then
        (case pq_peek (pq N) (batch_queue (batch_state s)) of
           None \<Rightarrow> restore_loop N rest (restored @ [entry]) (push s)
         | Some (lowest_entry, _) \<Rightarrow>
           if entry_fee lowest_entry < entry_fee entry then
             (case pq_pop (pq N) (batch_queue (batch_state s)) of
                None \<Rightarrow> restore_loop N rest (restored @ [entry]) (push s)
              | Some ((evicted_entry, _), q) \<Rightarrow>
                and_then (update_evicted_user_state_async N WriteGuard evicted_entry (set_queue q s))
                  (\<lambda>_ s. restore_loop N rest (restored @ [entry])
                     (push (notify (messaging_sink evicted_entry) (SubmitResp UnderpricedProof) s))))
           else restore_loop N rest restored s)
      else restore_loop N rest (restored @ [entry]) (push s))"

definition restore_proofs_after_batch_failure ::
    "('q, 't) batcher_env \<Rightarrow> BatchQueueEntry list \<Rightarrow> 'q batcher \<Rightarrow> (unit, 'q batcher) res" where
  "restore_proofs_after_batch_failure N failed_batch s =
     and_then (restore_loop N failed_batch [] s) (\<lambda>restored_entries s.
       update_user_states_from_queue_state N (senders_of restored_entries) s)"

section \<open>Finalizing a batch\<close>

text \<open>The reaction to a failed submission: only one error flushes the state.\<close>

definition submission_failed ::
    "('q, 't) batcher_env \<Rightarrow> BatchQueueEntry list \<Rightarrow> BatcherError \<Rightarrow> 'q batcher
     \<Rightarrow> (BatcherError + unit, 'q batcher) res" where
  "submission_failed N finalized_batch e s =
     (case e of
        TransactionSendErr (SubmissionInsufficientBalance address) \<Rightarrow>
          (Ret (Inl (StateCorruptedAndFlushed
             (''Queue and user states flushed due to insufficient balance for user ''
              @ debug_address N address))),
           notify_all (SubmitResp BatchReset) finalized_batch (flush_queue_and_clear_nonce_cache N s))
      | _ \<Rightarrow> (Ret (Inl e), s))"

definition finalize_batch ::
    "('q, 't) batcher_env \<Rightarrow> u64 \<Rightarrow> BatchQueueEntry list \<Rightarrow> u256 \<Rightarrow> 'q batcher
     \<Rightarrow> (BatcherError + unit, 'q batcher) res" where
  "finalize_batch N block_number finalized_batch gas_price s =
     (case cbor_serialize_batch N (map (verification_data \<circ> nonced_verification_data) finalized_batch) of
        Inl e \<Rightarrow> (Ret (Inl (TaskCreationError e)), s)
      | Inr batch_bytes \<Rightarrow>
        let batch_data_comm = map verification_data_commitment finalized_batch in
        case mt_build (merkle N) batch_data_comm of
          None \<Rightarrow> (Ret (Inl (TaskCreationError ''Failed to Build Merkle Tree: Empty Batch'')), s)
        | Some t \<Rightarrow>
          let s = s\<lparr>last_uploaded_batch_block := block_number\<rparr>;
              leaves = map (hash_data (keccak N)) batch_data_comm in
          and_then (submit_batch N batch_bytes (mt_root (merkle N) t) leaves finalized_batch gas_price s)
            (\<lambda>r s. case r of
               Inl e \<Rightarrow> submission_failed N finalized_batch e s
             | Inr _ \<Rightarrow>
               and_then (update_user_states_from_queue_state N (senders_of finalized_batch) s) (\<lambda>_ s.
               and_then (cleanup_user_states_after_successful_submission N finalized_batch s) (\<lambda>_ s.
               send_batch_inclusion_data_responses N finalized_batch t s))))"

section \<open>A new block\<close>

definition update_min_max_fee :: "('q, 't) batcher_env \<Rightarrow> u256 \<Rightarrow> 'q batcher \<Rightarrow> (unit, 'q batcher) res" where
  "update_min_max_fee N gas_price s =
     or_panic (calculate_fee_per_proof_with_gas_price (amount_of_proofs_for_min_max_fee (cfg N)) gas_price)
       s (\<lambda>f. (Ret (), s\<lparr>current_min_max_fee := f\<rparr>))"

definition update_disabled_verifiers :: "('q, 't) batcher_env \<Rightarrow> u256 \<Rightarrow> 'q batcher \<Rightarrow> 'q batcher" where
  "update_disabled_verifiers N new_disabled s =
     (if new_disabled \<noteq> disabled_verifiers s
      then flush_queue_and_clear_nonce_cache N (s\<lparr>disabled_verifiers := new_disabled\<rparr>)
      else s)"

text \<open>What follows the finalization, whatever its result.\<close>

definition after_finalization ::
    "('q, 't) batcher_env \<Rightarrow> BatchQueueEntry list \<Rightarrow> BatcherError + unit \<Rightarrow> 'q batcher
     \<Rightarrow> (BatcherError + unit, 'q batcher) res" where
  "after_finalization N finalized_batch r s =
     (let s = s\<lparr>posting_batch := False\<rparr> in
      case r of
        Inr _ \<Rightarrow> (Ret (Inr ()), s)
      | Inl (StateCorruptedAndFlushed m) \<Rightarrow> (Ret (Inl (StateCorruptedAndFlushed m)), s)
      | Inl e \<Rightarrow> and_then (restore_proofs_after_batch_failure N finalized_batch s) (\<lambda>_ s. (Ret (Inl e), s)))"

definition handle_new_block ::
    "('q, 't) batcher_env \<Rightarrow> u64 \<Rightarrow> 'q batcher \<Rightarrow> (BatcherError + unit, 'q batcher) res" where
  "handle_new_block N block_number s =
     (case get_gas_price (eth N) of
        Inl _ \<Rightarrow> (Ret (Inl GasPriceError), s)
      | Inr gas_price \<Rightarrow>
        and_then (update_min_max_fee N gas_price s) (\<lambda>_ s.
        case disabled_verifiers_call (eth N) of
          Inl e \<Rightarrow> (Ret (Inl (DisabledVerifiersError e)), s)
        | Inr new_disabled \<Rightarrow>
          let s = update_disabled_verifiers N new_disabled s in
          or_panic (modified_gas_price gas_price) s (\<lambda>modified.
          and_then (extract_batch_if_ready N block_number modified s) (\<lambda>b s. case b of
            None \<Rightarrow> (Ret (Inr ()), s)
          | Some finalized_batch \<Rightarrow>
            and_then (finalize_batch N block_number finalized_batch modified s)
              (after_finalization N finalized_batch)))))"

end
