(* ===== verification/Listeners.thy ===== *)
theory Listeners
  imports New_Block
begin

text \<open>
  The tasks around the handlers (\<open>batcher/src/lib.rs\<close>): polling for \<open>BalanceUnlocked\<close> events and the
  removal of a user's proofs, the stream of new blocks, and the life of a client connection.
\<close>

section \<open>Unlocked balances\<close>

definition user_has_proofs_in_queue ::
    "('q, 't) batcher_env \<Rightarrow> address \<Rightarrow> 'q batcher \<Rightarrow> bool \<times> 'q batcher" where
  "user_has_proofs_in_queue N addr s =
     (case user_states s addr of
        None \<Rightarrow> (False, s)
      | Some u \<Rightarrow>
        (case try_user_lock_with_timeout N addr s of
           (ok, s) \<Rightarrow> (ok \<and> 0 < proofs_in_batch u, s)))"

definition remove_user_proofs_and_reset_state ::
    "('q, 't) batcher_env \<Rightarrow> address \<Rightarrow> 'q batcher \<Rightarrow> 'q batcher" where
  "remove_user_proofs_and_reset_state N addr s =
     (case try_batch_lock_with_timeout N s of
        (False, s) \<Rightarrow>
          s\<lparr>metrics := (metrics s)\<lparr>unlocked_event_polling_batch_lock_timeouts :=
              Suc (unlocked_event_polling_batch_lock_timeouts (metrics s))\<rparr>\<rparr>
      | (True, s) \<Rightarrow>
        (case pq_extract_if (pq N) (batch_queue (batch_state s)) (\<lambda>entry _. sender entry = addr) of
           (removed_entries, q) \<Rightarrow>
             (notify_all (SubmitResp UserFundsUnlocked) (map fst removed_entries) (set_queue q s))
               \<lparr>user_states := (user_states s)(addr := None)\<rparr>))"

fun process_unlocked_users :: "('q, 't) batcher_env \<Rightarrow> address list \<Rightarrow> 'q batcher \<Rightarrow> 'q batcher" where
  "process_unlocked_users N [] s = s"
| "process_unlocked_users N (addr # rest) s =
     (case user_has_proofs_in_queue N addr s of
        (has_proofs, s) \<Rightarrow>
          process_unlocked_users N rest
            (if has_proofs \<and> user_balance_is_unlocked (eth N) addr
             then remove_user_proofs_and_reset_state N addr s else s))"

definition process_balance_unlocked_events ::
    "('q, 't) batcher_env \<Rightarrow> u64 \<Rightarrow> 'q batcher \<Rightarrow> (BatcherError + u64) \<times> 'q batcher" where
  "process_balance_unlocked_events N from_block s =
     (case get_current_block_number (eth N) of
        Inl e \<Rightarrow> (Inl (EthereumProviderError
                    (''Failed to get current block number: '' @ debug_retry_error N e)), s)
      | Inr current_block \<Rightarrow>
        (case query_balance_unlocked_events (eth N) from_block current_block of
           Inl e \<Rightarrow> (Inl (EthereumProviderError
                       (''Failed to query BalanceUnlocked events: '' @ debug_retry_error N e)), s)
         | Inr users \<Rightarrow> (Inr current_block, process_unlocked_users N users s)))"

text \<open>
  One turn of the polling loop of \<open>poll_balance_unlocked_events\<close>: the next range starts at the block
  reached, and at the same block after an error.
\<close>

definition poll_step :: "('q, 't) batcher_env \<Rightarrow> u64 \<times> 'q batcher \<Rightarrow> u64 \<times> 'q batcher" where
  "poll_step N p =
     (case process_balance_unlocked_events N (fst p) (snd p) of
        (Inr current_block, s) \<Rightarrow> (current_block, s)
      | (Inl _, s) \<Rightarrow> (fst p, s))"

text \<open>The range of blocks whose events a turn has looked at.\<close>

definition polled_range :: "('q, 't) batcher_env \<Rightarrow> u64 \<Rightarrow> u64 set" where
  "polled_range N from_block =
     (case get_current_block_number (eth N) of
        Inl _ \<Rightarrow> {}
      | Inr current_block \<Rightarrow>
        (case query_balance_unlocked_events (eth N) from_block current_block of
           Inl _ \<Rightarrow> {}
         | Inr _ \<Rightarrow> {from_block..current_block}))"

text \<open>The turns of the loop, each in the environment Ethereum shows at that time.\<close>

fun poll_balance_unlocked_events ::
    "('q, 't) batcher_env list \<Rightarrow> u64 \<times> 'q batcher \<Rightarrow> u64 \<times> 'q batcher" where
  "poll_balance_unlocked_events [] p = p"
| "poll_balance_unlocked_events (N # Ns) p = poll_balance_unlocked_events Ns (poll_step N p)"

fun polled_ranges :: "('q, 't) batcher_env list \<Rightarrow> u64 \<times> 'q batcher \<Rightarrow> u64 set" where
  "polled_ranges [] p = {}"
| "polled_ranges (N # Ns) p = polled_range N (fst p) \<union> polled_ranges Ns (poll_step N p)"

section \<open>New blocks\<close>

text \<open>
  What one turn of the loop of \<open>listen_new_blocks_retryable\<close> receives from the two streams: nothing
  when the stream is missing or ended, else a block, whose number may be missing. The list is
  ended by a turn in which neither gives a block; the result is the list of the blocks handled.
\<close>

type_synonym stream_item = "u64 option option"

fun listen_new_blocks_loop :: "u64 \<Rightarrow> (stream_item \<times> stream_item) list \<Rightarrow> u64 list" where
  "listen_new_blocks_loop last_seen_block [] = []"
| "listen_new_blocks_loop last_seen_block ((block_main, block_fallback) # rest) =
     (case (case block_main of Some b \<Rightarrow> Some b | None \<Rightarrow> block_fallback) of
        None \<Rightarrow> []
      | Some number \<Rightarrow>
        (let block_number = (case number of None \<Rightarrow> 0 | Some n \<Rightarrow> n) in
         if block_number \<le> last_seen_block then listen_new_blocks_loop last_seen_block rest
         else block_number # listen_new_blocks_loop block_number rest))"

section \<open>Connections\<close>

datatype accept_result = Accepted | AcceptError | AcceptTimeout

datatype first_message = FirstMsg bytes | FirstTimeout | FirstClosed | FirstError

record connection =
  accept_async :: accept_result
  version_msg :: "string + unit"
  first_msg :: first_message
  later_msgs :: "bytes list"
  broken :: bool

definition add_open_connections :: "int \<Rightarrow> 'q batcher \<Rightarrow> 'q batcher" where
  "add_open_connections k s = s\<lparr>metrics := (metrics s)\<lparr>open_connections := open_connections (metrics s) + k\<rparr>\<rparr>"

fun handle_messages ::
    "('q, 't) batcher_env \<Rightarrow> (bytes \<Rightarrow> ClientMessage option) \<Rightarrow> bytes list \<Rightarrow> sink \<Rightarrow> 'q batcher
     \<Rightarrow> (unit, 'q batcher) res" where
  "handle_messages N D [] ws s = (Ret (), s)"
| "handle_messages N D (m # ms) ws s =
     and_then (handle_message N D m ws s) (\<lambda>_ s. handle_messages N D ms ws s)"

text \<open>
  The version message is serialized and sent with \<open>?\<close>: an error ends the task at once. The handlers
  of messages never return an error, so the \<open>?\<close> after them has no effect.
\<close>

definition handle_connection ::
    "('q, 't) batcher_env \<Rightarrow> (bytes \<Rightarrow> ClientMessage option) \<Rightarrow> connection \<Rightarrow> sink \<Rightarrow> 'q batcher
     \<Rightarrow> (BatcherError + unit, 'q batcher) res" where
  "handle_connection N D c ws s =
     (let s = add_open_connections 1 s in
      case accept_async c of
        AcceptError \<Rightarrow> (Ret (Inr ()), add_open_connections (-1) s)
      | AcceptTimeout \<Rightarrow> (Ret (Inr ()), user_error ''user_timeout'' [] (add_open_connections (-1) s))
      | Accepted \<Rightarrow>
        (case version_msg c of
           Inl e \<Rightarrow> (Ret (Inl (ConnectionError e)), s)
         | Inr _ \<Rightarrow>
           let s = send_message ws (SubmitResp (ProtocolVersion EXPECTED_PROTOCOL_VERSION)) s in
           (case first_msg c of
              FirstTimeout \<Rightarrow> (Ret (Inr ()), add_open_connections (-1) (user_error ''user_timeout'' [] s))
            | FirstClosed \<Rightarrow> (Ret (Inr ()), add_open_connections (-1) s)
            | FirstError \<Rightarrow> (Ret (Inr ()), add_open_connections (-1) s)
            | FirstMsg m \<Rightarrow>
              and_then (handle_messages N D (m # later_msgs c) ws s) (\<lambda>_ s.
                let s = (if broken c
                         then s\<lparr>metrics := (metrics s)\<lparr>broken_ws_connections :=
                                  Suc (broken_ws_connections (metrics s))\<rparr>\<rparr>
                         else s) in
                (Ret (Inr ()), add_open_connections (-1) s)))))"

end
