(* ===== verification/Accounting.thy ===== *)
theory Accounting
  imports Listeners
begin

text \<open>
  The invariant that ties the cached user states to the proofs the batcher holds: those queued and
  those of a batch being posted. For every user the number of proofs, the sum of their fees and the
  next nonce agree with the proofs; the operations of the batcher keep it. A second invariant
  orders the fees of each user by nonce.
\<close>

section \<open>Accounts\<close>

definition entries_of :: "address \<Rightarrow> item list \<Rightarrow> item list" where
  "entries_of a xs = filter (\<lambda>x. sender (fst x) = a) xs"

definition fees_sum :: "item list \<Rightarrow> nat" where
  "fees_sum xs = sum_list (map (\<lambda>x. unat (entry_fee (fst x))) xs)"

definition accounted :: "UserState \<Rightarrow> item list \<Rightarrow> bool" where
  "accounted u xs \<longleftrightarrow>
     proofs_in_batch u = of_nat (length xs) \<and> unat (total_fees_in_queue u) = fees_sum xs \<and>
     (\<forall>x \<in> set xs. entry_nonce (fst x) < us_nonce u)"

definition acct_ok :: "item list \<Rightarrow> (address \<rightharpoonup> UserState) \<Rightarrow> bool" where
  "acct_ok xs us \<longleftrightarrow>
     (\<forall>x \<in> set xs. us (sender (fst x)) \<noteq> None) \<and>
     (\<forall>a u. us a = Some u \<longrightarrow> accounted u (entries_of a xs))"

text \<open>Fees do not increase with the nonce, and no fee is below the user's limit.\<close>

definition fee_order :: "item list \<Rightarrow> bool" where
  "fee_order xs \<longleftrightarrow>
     (\<forall>x \<in> set xs. \<forall>y \<in> set xs. sender (fst x) = sender (fst y) \<and>
        entry_nonce (fst x) < entry_nonce (fst y) \<longrightarrow> entry_fee (fst y) \<le> entry_fee (fst x))"

definition limits_ok :: "item list \<Rightarrow> (address \<rightharpoonup> UserState) \<Rightarrow> bool" where
  "limits_ok xs us \<longleftrightarrow>
     (\<forall>x \<in> set xs. \<forall>u. us (sender (fst x)) = Some u \<longrightarrow> last_max_fee_limit u \<le> entry_fee (fst x))"

lemma entries_of_simps [simp]:
  "entries_of a [] = []"
  "entries_of a (x # xs) = (if sender (fst x) = a then x # entries_of a xs else entries_of a xs)"
  "entries_of a (xs @ ys) = entries_of a xs @ entries_of a ys"
  by (simp_all add: entries_of_def)

lemma fees_sum_simps [simp]:
  "fees_sum [] = 0" "fees_sum (x # xs) = unat (entry_fee (fst x)) + fees_sum xs"
  "fees_sum (xs @ ys) = fees_sum xs + fees_sum ys"
  by (simp_all add: fees_sum_def)

lemma set_entries_of: "set (entries_of a xs) = {x \<in> set xs. sender (fst x) = a}"
  by (auto simp: entries_of_def)

lemma entries_of_empty: "(\<And>x. x \<in> set xs \<Longrightarrow> sender (fst x) \<noteq> a) \<Longrightarrow> entries_of a xs = []"
  by (auto simp: entries_of_def filter_empty_conv)

lemma entries_of_mset: "mset xs = mset ys \<Longrightarrow> mset (entries_of a xs) = mset (entries_of a ys)"
  by (simp add: entries_of_def)

lemma fees_sum_mset: "mset xs = mset ys \<Longrightarrow> fees_sum xs = fees_sum ys"
  unfolding fees_sum_def by (rule sum_list_mset)

lemma accounted_mset: "mset xs = mset ys \<Longrightarrow> accounted u xs = accounted u ys"
  using mset_eq_set [of xs ys] mset_eq_size [of xs ys] fees_sum_mset [of xs ys]
  by (simp add: accounted_def)

lemma acct_ok_mset: "mset xs = mset ys \<Longrightarrow> acct_ok xs us = acct_ok ys us"
  using mset_eq_set [of xs ys] accounted_mset [OF entries_of_mset [of xs ys]]
  by (simp add: acct_ok_def)

lemma fee_order_mset: "mset xs = mset ys \<Longrightarrow> fee_order xs = fee_order ys"
  using mset_eq_set [of xs ys] by (simp add: fee_order_def)

lemma limits_ok_mset: "mset xs = mset ys \<Longrightarrow> limits_ok xs us = limits_ok ys us"
  using mset_eq_set [of xs ys] by (simp add: limits_ok_def)

lemma acct_okD: "acct_ok xs us \<Longrightarrow> us a = Some u \<Longrightarrow> accounted u (entries_of a xs)"
  by (simp add: acct_ok_def)

lemma acct_ok_absent: "acct_ok xs us \<Longrightarrow> us a = None \<Longrightarrow> entries_of a xs = []"
  by (rule entries_of_empty) (auto simp: acct_ok_def)

lemma acct_ok_nonce:
  "acct_ok xs us \<Longrightarrow> x \<in> set xs \<Longrightarrow> us (sender (fst x)) = Some u \<Longrightarrow> entry_nonce (fst x) < us_nonce u"
  using acct_okD [of xs us "sender (fst x)" u] by (cases x) (auto simp: accounted_def set_entries_of)

lemma accounted_new: "accounted (UserState_new n) []"
  by (simp add: accounted_def UserState_new_def)

lemma acct_ok_new_user: "acct_ok xs us \<Longrightarrow> us a = None \<Longrightarrow> acct_ok xs (us(a \<mapsto> UserState_new n))"
  using acct_ok_absent [of xs us a] accounted_new by (auto simp: acct_ok_def)

text \<open>Changing one user: the entries of the others are untouched.\<close>

lemma acct_ok_update:
  assumes "acct_ok xs us" "\<And>b. b \<noteq> a \<Longrightarrow> mset (entries_of b ys) = mset (entries_of b xs)"
    and "accounted u' (entries_of a ys)"
  shows "acct_ok ys (us(a \<mapsto> u'))"
proof -
  have "us (sender (fst y)) \<noteq> None" if "y \<in> set ys" "sender (fst y) \<noteq> a" for y
  proof -
    have "y \<in> set (entries_of (sender (fst y)) ys)" using that(1) by (simp add: set_entries_of)
    then have "y \<in> set (entries_of (sender (fst y)) xs)"
      using mset_eq_set [OF assms(2) [OF that(2)]] by simp
    then show ?thesis using assms(1) by (simp add: acct_ok_def set_entries_of)
  qed
  then show ?thesis
    using assms accounted_mset [OF assms(2)] by (auto simp: acct_ok_def)
qed

lemma acct_ok_remove_user:
  assumes "acct_ok xs us"
  shows "acct_ok (filter (\<lambda>x. sender (fst x) \<noteq> a) xs) (us(a := None))"
proof -
  have "entries_of b (filter (\<lambda>x. sender (fst x) \<noteq> a) xs) = entries_of b xs" if "b \<noteq> a" for b
    using that by (induction xs) auto
  then show ?thesis using assms by (auto simp: acct_ok_def)
qed

lemma fee_order_Cons:
  "fee_order (x # xs) \<longleftrightarrow> fee_order xs \<and>
     (\<forall>y \<in> set xs. sender (fst y) = sender (fst x) \<longrightarrow>
        (entry_nonce (fst x) < entry_nonce (fst y) \<longrightarrow> entry_fee (fst y) \<le> entry_fee (fst x)) \<and>
        (entry_nonce (fst y) < entry_nonce (fst x) \<longrightarrow> entry_fee (fst x) \<le> entry_fee (fst y)))"
  unfolding fee_order_def by (simp only: list.set ball_simps) (blast intro: sym)

lemma limits_ok_Cons:
  "limits_ok (x # xs) us \<longleftrightarrow> limits_ok xs us \<and>
     (\<forall>u. us (sender (fst x)) = Some u \<longrightarrow> last_max_fee_limit u \<le> entry_fee (fst x))"
  unfolding limits_ok_def by auto

lemma limits_ok_update:
  assumes "limits_ok xs us" "\<And>x. x \<in> set ys \<Longrightarrow> sender (fst x) \<noteq> a \<Longrightarrow> x \<in> set xs"
    and "\<And>x. x \<in> set ys \<Longrightarrow> sender (fst x) = a \<Longrightarrow> last_max_fee_limit u \<le> entry_fee (fst x)"
  shows "limits_ok ys (us(a \<mapsto> u))"
  unfolding limits_ok_def
proof (intro ballI allI impI)
  fix x v assume x: "x \<in> set ys" "(us(a \<mapsto> u)) (sender (fst x)) = Some v"
  show "last_max_fee_limit v \<le> entry_fee (fst x)"
    by (cases "sender (fst x) = a") (use x assms in \<open>auto simp: limits_ok_def\<close>)
qed

text \<open>A proof submitted with the expected nonce.\<close>

lemma accounted_add:
  assumes "accounted u xs" "entry_nonce (fst x) = us_nonce u" "unat (us_nonce u') = unat (us_nonce u) + 1"
    and "proofs_in_batch u' = proofs_in_batch u + 1"
    and "unat (total_fees_in_queue u') = unat (total_fees_in_queue u) + unat (entry_fee (fst x))"
  shows "accounted u' (x # xs)"
proof -
  have "us_nonce u < us_nonce u'" using assms(3) by (simp add: word_less_nat_alt)
  then have "\<forall>y \<in> set xs. entry_nonce (fst y) < us_nonce u'"
    using assms(1) order_less_trans by (fastforce simp: accounted_def)
  then show ?thesis
    using assms \<open>us_nonce u < us_nonce u'\<close> by (simp add: accounted_def)
qed

section \<open>User states recomputed from the queue\<close>

lemma user_data_step_eq:
  assumes "(case m (sender e) of None \<Rightarrow> (0, entry_fee e, 0) | Some d \<Rightarrow> d) = (c, l, t)"
    and "checked_add t (entry_fee e) = Some t'"
  shows "user_data_step m e = Some (m(sender e \<mapsto> (c + 1, min l (entry_fee e), t')))"
proof -
  have "(if entry_fee e < l then entry_fee e else l) = min l (entry_fee e)" by (auto simp: min_def)
  then show ?thesis using assms by (simp add: user_data_step_def Let_def)
qed

text \<open>What the data says of a list of entries.\<close>

definition data_for :: "user_data \<Rightarrow> address \<Rightarrow> item list \<Rightarrow> bool" where
  "data_for m a xs \<longleftrightarrow>
     (case m a of
        None \<Rightarrow> xs = []
      | Some (c, l, t) \<Rightarrow> xs \<noteq> [] \<and> c = of_nat (length xs) \<and> unat t = fees_sum xs \<and>
          l \<in> (entry_fee \<circ> fst) ` set xs \<and> (\<forall>x \<in> set xs. l \<le> entry_fee (fst x)))"

lemma data_for_step:
  assumes d: "\<And>a. data_for m a (entries_of a xs)"
    and b: "fees_sum (entries_of (sender (fst x)) xs) + unat (entry_fee (fst x)) < 2 ^ 256"
  shows "\<exists>m'. user_data_step m (fst x) = Some m' \<and> (\<forall>a. data_for m' a (entries_of a (xs @ [x])))"
proof -
  let ?a = "sender (fst x)" and ?f = "entry_fee (fst x)"
  obtain c l t where clt: "(case m ?a of None \<Rightarrow> (0, ?f, 0) | Some d \<Rightarrow> d) = (c, l, t)"
    by (metis prod.exhaust)
  have t: "unat t = fees_sum (entries_of ?a xs)" and c: "c = of_nat (length (entries_of ?a xs))"
    using d [of ?a] clt by (auto simp: data_for_def split: option.splits)
  obtain t' where t': "checked_add t ?f = Some t'"
    using b t by (cases "checked_add t ?f") (auto simp: checked_simps)
  then have ut: "unat t' = unat t + unat ?f" by (simp add: checked_simps)
  let ?m = "m(?a \<mapsto> (c + 1, min l ?f, t'))"
  have "user_data_step m (fst x) = Some ?m"
    by (rule user_data_step_eq) (use clt t' in auto)
  moreover have "data_for ?m a (entries_of a (xs @ [x]))" for a
  proof (cases "a = ?a")
    case False
    then show ?thesis using d [of a] by (simp add: data_for_def)
  next
    case True
    have "min l ?f \<in> (entry_fee \<circ> fst) ` set (entries_of ?a xs @ [x]) \<and>
        (\<forall>y \<in> set (entries_of ?a xs @ [x]). min l ?f \<le> entry_fee (fst y))"
      using d [of ?a] clt by (auto simp: data_for_def min_def split: option.splits)
    then show ?thesis using True t ut c by (auto simp: data_for_def)
  qed
  ultimately show ?thesis by blast
qed

lemma user_data_loop_spec:
  assumes "\<And>a. data_for m a (entries_of a xs)" "\<And>a. fees_sum (entries_of a (xs @ ys)) < 2 ^ 256"
  shows "\<exists>m'. user_data_loop m ys = Some m' \<and> (\<forall>a. data_for m' a (entries_of a (xs @ ys)))"
  using assms
proof (induction ys arbitrary: m xs)
  case (Cons y ys)
  have "fees_sum (entries_of (sender (fst y)) xs) + unat (entry_fee (fst y)) < 2 ^ 256"
    using Cons.prems(2) [of "sender (fst y)"] by simp
  from data_for_step [OF Cons.prems(1) this] obtain m' where
    m': "user_data_step m (fst y) = Some m'" "\<And>a. data_for m' a (entries_of a (xs @ [y]))"
    by blast
  have "\<exists>m''. user_data_loop m' ys = Some m'' \<and> (\<forall>a. data_for m'' a (entries_of a ((xs @ [y]) @ ys)))"
    by (rule Cons.IH [OF m'(2)]) (use Cons.prems(2) in simp)
  then show ?case using m'(1) by auto
qed auto

lemma calculate_new_user_states_data_spec:
  assumes "\<And>a. fees_sum (entries_of a (pq_iter Q q)) < 2 ^ 256"
  obtains d where "calculate_new_user_states_data Q q = Some d"
    "\<And>a. data_for d a (entries_of a (pq_iter Q q))"
  using user_data_loop_spec [of "\<lambda>_. None" "[]" "pq_iter Q q"] assms
  by (auto simp: calculate_new_user_states_data_def data_for_def)

lemma accounted_refreshed:
  assumes "data_for d a xs" "\<And>x. x \<in> set xs \<Longrightarrow> entry_nonce (fst x) < us_nonce u"
  shows "accounted (refreshed (d a) u) xs"
    and "\<forall>x \<in> set xs. last_max_fee_limit (refreshed (d a) u) \<le> entry_fee (fst x)"
  using assms by (auto simp: data_for_def accounted_def refreshed_def split: option.splits prod.splits)

end
