(* ===== verification/Cbor.thy ===== *)
theory Cbor
  imports Sdk_Types Errors
begin

text \<open>
  What is written on the wire for a proof: the value that the \<open>serde\<close> attributes of \<open>VerificationData\<close> and
  \<open>NoncedVerificationData\<close> (\<open>sdk/src/common/types.rs\<close>) describe, and the bytes a CBOR library makes of it. The library, and the
  textual forms that \<open>ethers\<close> gives to addresses and 256-bit numbers, are the fields of \<open>cbor_codec\<close>; the locale
  \<open>cbor_format\<close> states what their documentation promises. The two results are the contracts of the batcher: the size
  estimate \<open>cbor_size_upper_bound\<close> is an upper bound of what is written, and what is written is read back.
\<close>

section \<open>Values\<close>

datatype cbor_value =
    CNull
  | CNumber int
  | CBytes bytes
  | CText string
  | CArray "cbor_value list"
  | CMap "(string \<times> cbor_value) list"

text \<open>
  \<open>de_bytes\<close>, \<open>de_unit_variant\<close> and \<open>de_h160\<close> say how the library reads a byte buffer, the name of an enum variant
  without data, and an address.
\<close>

record cbor_codec =
  into_writer :: "cbor_value \<Rightarrow> string + bytes"
  from_reader :: "bytes \<Rightarrow> cbor_value option"
  de_bytes :: "cbor_value \<Rightarrow> bytes option"
  de_unit_variant :: "cbor_value \<Rightarrow> string option"
  ser_h160 :: "address \<Rightarrow> string"
  de_h160 :: "cbor_value \<Rightarrow> address option"
  ser_u256 :: "u256 \<Rightarrow> string"

text \<open>The size of what a value holds, which takes at least a byte each.\<close>

fun contents :: "cbor_value \<Rightarrow> nat" where
  "contents CNull = 0"
| "contents (CNumber i) = 1"
| "contents (CBytes b) = length b"
| "contents (CText s) = length s"
| "contents (CArray vs) = sum_list (map contents vs)"
| "contents (CMap kvs) = sum_list (map (\<lambda>p. length (fst p) + contents (snd p)) kvs)"

text \<open>The size of a written value: every item has a head of at most nine bytes before its contents.\<close>

fun encoded_bound :: "cbor_value \<Rightarrow> nat" where
  "encoded_bound CNull = 9"
| "encoded_bound (CNumber i) = 9"
| "encoded_bound (CBytes b) = 9 + length b"
| "encoded_bound (CText s) = 9 + length s"
| "encoded_bound (CArray vs) = 9 + sum_list (map encoded_bound vs)"
| "encoded_bound (CMap kvs) = 9 + sum_list (map (\<lambda>p. 9 + length (fst p) + encoded_bound (snd p)) kvs)"

section \<open>Serialization\<close>

fun variant_name :: "ProvingSystemId \<Rightarrow> string" where
  "variant_name GnarkPlonkBls12_381 = ''GnarkPlonkBls12_381''"
| "variant_name GnarkPlonkBn254 = ''GnarkPlonkBn254''"
| "variant_name GnarkGroth16Bn254 = ''GnarkGroth16Bn254''"
| "variant_name SP1 = ''SP1''"
| "variant_name Risc0 = ''Risc0''"
| "variant_name CircomGroth16Bn256 = ''CircomGroth16Bn256''"

definition variant_of_name :: "string \<Rightarrow> ProvingSystemId option" where
  "variant_of_name s =
     find (\<lambda>p. variant_name p = s)
       [GnarkPlonkBls12_381, GnarkPlonkBn254, GnarkGroth16Bn254, SP1, Risc0, CircomGroth16Bn256]"

fun serialize_option_bytes :: "bytes option \<Rightarrow> cbor_value" where
  "serialize_option_bytes (Some b) = CBytes b"
| "serialize_option_bytes None = CNull"

definition deserialize_option_bytes :: "cbor_codec \<Rightarrow> cbor_value \<Rightarrow> bytes option option" where
  "deserialize_option_bytes C v = (case v of CNull \<Rightarrow> Some None | _ \<Rightarrow> map_option Some (de_bytes C v))"

text \<open>An optional field is skipped when it is \<open>None\<close>, and reads as \<open>None\<close> when it is missing.\<close>

definition optional_field :: "string \<Rightarrow> bytes option \<Rightarrow> (string \<times> cbor_value) list" where
  "optional_field k x = (if x = None then [] else [(k, serialize_option_bytes x)])"

definition serialize_VerificationData :: "cbor_codec \<Rightarrow> VerificationData \<Rightarrow> cbor_value" where
  "serialize_VerificationData C vd = CMap
     ([(''proving_system'', CText (variant_name (proving_system vd))), (''proof'', CBytes (proof_bytes vd))]
      @ optional_field ''pub_input'' (pub_input vd)
      @ optional_field ''verification_key'' (verification_key vd)
      @ optional_field ''vm_program_code'' (vm_program_code vd)
      @ [(''proof_generator_addr'', CText (ser_h160 C (proof_generator_addr vd)))])"

definition serialize_NoncedVerificationData :: "cbor_codec \<Rightarrow> NoncedVerificationData \<Rightarrow> cbor_value" where
  "serialize_NoncedVerificationData C nvd = CMap
     [(''verification_data'', serialize_VerificationData C (verification_data nvd)),
      (''nonce'', CText (ser_u256 C (nonce nvd))), (''max_fee'', CText (ser_u256 C (max_fee nvd))),
      (''chain_id'', CText (ser_u256 C (chain_id nvd))),
      (''payment_service_addr'', CText (ser_h160 C (payment_service_addr nvd)))]"

text \<open>A field may occur at most once; what a missing one means is up to the field.\<close>

definition struct_field :: "(string \<times> cbor_value) list \<Rightarrow> string \<Rightarrow> 'a option \<Rightarrow> (cbor_value \<Rightarrow> 'a option) \<Rightarrow> 'a option" where
  "struct_field kvs k missing read_value =
     (case filter (\<lambda>p. fst p = k) kvs of [] \<Rightarrow> missing | [p] \<Rightarrow> read_value (snd p) | _ \<Rightarrow> None)"

definition deserialize_VerificationData :: "cbor_codec \<Rightarrow> cbor_value \<Rightarrow> VerificationData option" where
  "deserialize_VerificationData C v =
     (case v of
        CMap kvs \<Rightarrow>
          Option.bind (struct_field kvs ''proving_system'' None
            (\<lambda>x. Option.bind (de_unit_variant C x) variant_of_name)) (\<lambda>ps.
          Option.bind (struct_field kvs ''proof'' None (de_bytes C)) (\<lambda>pr.
          Option.bind (struct_field kvs ''pub_input'' (Some None) (deserialize_option_bytes C)) (\<lambda>pub.
          Option.bind (struct_field kvs ''verification_key'' (Some None) (deserialize_option_bytes C)) (\<lambda>vk.
          Option.bind (struct_field kvs ''vm_program_code'' (Some None) (deserialize_option_bytes C)) (\<lambda>vm.
          Option.bind (struct_field kvs ''proof_generator_addr'' None (de_h160 C)) (\<lambda>addr.
          Some \<lparr> proving_system = ps, proof_bytes = pr, pub_input = pub, verification_key = vk,
                 vm_program_code = vm, proof_generator_addr = addr \<rparr>))))))
      | _ \<Rightarrow> None)"

text \<open>\<open>cbor_serialize\<close> and \<open>cbor_deserialize\<close> at the type of a batch; an error is given as it is displayed.\<close>

definition cbor_serialize :: "cbor_codec \<Rightarrow> VerificationData list \<Rightarrow> string + bytes" where
  "cbor_serialize C vds =
     (case into_writer C (CArray (map (serialize_VerificationData C) vds)) of
        Inl _ \<Rightarrow> Inl ''Serialization error'' | Inr buf \<Rightarrow> Inr buf)"

definition cbor_deserialize :: "cbor_codec \<Rightarrow> bytes \<Rightarrow> VerificationData list option" where
  "cbor_deserialize C buf =
     (case from_reader C buf of
        Some (CArray vs) \<Rightarrow> those (map (deserialize_VerificationData C) vs) | _ \<Rightarrow> None)"

section \<open>The contract of the library\<close>

locale cbor_format =
  fixes C :: cbor_codec
  assumes written_bound: "into_writer C v = Inr b \<Longrightarrow> length b \<le> encoded_bound v"
    and read_written: "into_writer C v = Inr b \<Longrightarrow> from_reader C b = Some v"
    and nothing_read: "from_reader C [] = None"
    and read_contents: "from_reader C b = Some v \<Longrightarrow> contents v \<le> length b"
    and bytes_read: "de_bytes C (CBytes b) = Some b"
    and bytes_contents: "de_bytes C v = Some b \<Longrightarrow> length b \<le> contents v"
    and variant_read: "de_unit_variant C (CText s) = Some s"
    and h160_length: "length (ser_h160 C a) = 42"
    and h160_read: "de_h160 C (CText (ser_h160 C a)) = Some a"
    and u256_length: "length (ser_u256 C n) \<le> 66"
begin

lemma variant_name_length: "length (variant_name p) \<le> 19"
  by (cases p) simp_all

lemma optional_bound:
  "sum_list (map (\<lambda>p. 9 + length (fst p) + encoded_bound (snd p)) (optional_field k x)) \<le> 18 + length k + option_len x"
  by (cases x) (simp_all add: optional_field_def)

text \<open>The 1024 bytes allowed for a proof are more than what surrounds its contents by far.\<close>

lemma verification_data_bound:
  "encoded_bound (serialize_VerificationData C (verification_data nvd)) + 767 \<le> cbor_size_upper_bound nvd"
proof -
  let ?vd = "verification_data nvd"
  note bounds = variant_name_length [of "proving_system ?vd"] h160_length [of "proof_generator_addr ?vd"]
    optional_bound [of "''pub_input''" "pub_input ?vd"] optional_bound [of "''verification_key''" "verification_key ?vd"]
    optional_bound [of "''vm_program_code''" "vm_program_code ?vd"]
  show ?thesis
    using bounds by (simp add: serialize_VerificationData_def cbor_size_upper_bound_def CBOR_OVERHEAD_BYTES_def Let_def)
qed

lemma nonced_bound: "encoded_bound (serialize_NoncedVerificationData C nvd) \<le> cbor_size_upper_bound nvd"
  using verification_data_bound [of nvd] u256_length [of "nonce nvd"] u256_length [of "max_fee nvd"]
    u256_length [of "chain_id nvd"] h160_length [of "payment_service_addr nvd"]
  by (simp add: serialize_NoncedVerificationData_def)

lemma batch_bound:
  assumes "cbor_serialize C (map (verification_data \<circ> f) es) = Inr b"
  shows "length b + 767 * length es \<le> CBOR_ARRAY_MAX_OVERHEAD + sum_list (map (\<lambda>e. cbor_size_upper_bound (f e)) es)"
proof -
  have "sum_list (map (\<lambda>e. encoded_bound (serialize_VerificationData C (verification_data (f e)))) es) + 767 * length es
      \<le> sum_list (map (\<lambda>e. cbor_size_upper_bound (f e)) es)"
  proof (induction es)
    case (Cons e es)
    then show ?case using verification_data_bound [of "f e"] by simp
  qed simp
  moreover have "length b \<le> encoded_bound (CArray (map (serialize_VerificationData C) (map (verification_data \<circ> f) es)))"
    using assms by (intro written_bound) (auto simp: cbor_serialize_def split: sum.splits)
  ultimately show ?thesis by (simp add: comp_def CBOR_ARRAY_MAX_OVERHEAD_def)
qed

lemma variant_roundtrip: "variant_of_name (variant_name p) = Some p"
  by (cases p) (simp_all add: variant_of_name_def)

lemma option_bytes_read: "deserialize_option_bytes C (serialize_option_bytes x) = Some x"
  by (cases x) (simp_all add: deserialize_option_bytes_def bytes_read)

lemma deserialize_serialize: "deserialize_VerificationData C (serialize_VerificationData C vd) = Some vd"
  by (cases "pub_input vd"; cases "verification_key vd"; cases "vm_program_code vd")
    (simp_all add: deserialize_VerificationData_def serialize_VerificationData_def struct_field_def optional_field_def
      variant_read variant_roundtrip bytes_read h160_read deserialize_option_bytes_def)

lemma batch_read:
  assumes "cbor_serialize C vds = Inr b"
  shows "cbor_deserialize C b = Some vds" "b \<noteq> []"
proof -
  have w: "from_reader C b = Some (CArray (map (serialize_VerificationData C) vds))"
    using assms by (intro read_written) (auto simp: cbor_serialize_def split: sum.splits)
  have "those (map (\<lambda>vd. deserialize_VerificationData C (serialize_VerificationData C vd)) vds) = Some vds"
    by (induction vds) (simp_all add: deserialize_serialize)
  then show "cbor_deserialize C b = Some vds" using w by (simp add: cbor_deserialize_def comp_def)
  show "b \<noteq> []" using w nothing_read by auto
qed

text \<open>A field that was read takes at least its own length in what it was read from.\<close>

lemma option_bytes_contents:
  "deserialize_option_bytes C v = Some x \<Longrightarrow> option_len x \<le> contents v"
  by (cases v; cases x) (auto simp: deserialize_option_bytes_def dest: bytes_contents)

lemma struct_field_contents:
  assumes "struct_field kvs k missing r = Some x" "missing = None \<or> (\<exists>m. missing = Some m \<and> g m = 0)"
    and "\<And>v y. r v = Some y \<Longrightarrow> g y \<le> contents v"
  shows "g x \<le> sum_list (map (\<lambda>p. contents (snd p)) (filter (\<lambda>p. fst p = k) kvs))"
  using assms by (auto simp: struct_field_def split: list.splits)

lemma four_fields:
  "sum_list (map f (filter (\<lambda>p. fst p = ''proof'') kvs)) + sum_list (map f (filter (\<lambda>p. fst p = ''pub_input'') kvs))
    + sum_list (map f (filter (\<lambda>p. fst p = ''verification_key'') kvs))
    + sum_list (map f (filter (\<lambda>p. fst p = ''vm_program_code'') kvs)) \<le> (sum_list (map f kvs) :: nat)"
  by (induction kvs) auto

lemma fields_contents:
  assumes "deserialize_VerificationData C v = Some vd"
  shows "length (proof_bytes vd) + option_len (pub_input vd) + option_len (verification_key vd)
    + option_len (vm_program_code vd) \<le> contents v"
proof -
  obtain kvs where v: "v = CMap kvs" using assms by (cases v) (simp_all add: deserialize_VerificationData_def)
  let ?f = "\<lambda>k. sum_list (map (\<lambda>p. contents (snd p)) (filter (\<lambda>p. fst p = k) kvs))"
  have "struct_field kvs ''proof'' None (de_bytes C) = Some (proof_bytes vd)"
    "struct_field kvs ''pub_input'' (Some None) (deserialize_option_bytes C) = Some (pub_input vd)"
    "struct_field kvs ''verification_key'' (Some None) (deserialize_option_bytes C) = Some (verification_key vd)"
    "struct_field kvs ''vm_program_code'' (Some None) (deserialize_option_bytes C) = Some (vm_program_code vd)"
    using assms v by (auto simp: deserialize_VerificationData_def bind_eq_Some_conv)
  then have "length (proof_bytes vd) \<le> ?f ''proof''" "option_len (pub_input vd) \<le> ?f ''pub_input''"
    "option_len (verification_key vd) \<le> ?f ''verification_key''" "option_len (vm_program_code vd) \<le> ?f ''vm_program_code''"
    by (auto intro: struct_field_contents bytes_contents option_bytes_contents)
  moreover have "sum_list (map (\<lambda>p. contents (snd p)) kvs) \<le> contents v"
    unfolding v by (simp add: sum_list_mono)
  ultimately show ?thesis using four_fields [of "\<lambda>p. contents (snd p)" kvs] by linarith
qed

lemma those_map_in: "those (map f xs) = Some ys \<Longrightarrow> y \<in> set ys \<Longrightarrow> \<exists>x \<in> set xs. f x = Some y"
  by (induction xs arbitrary: ys) (auto split: option.splits)

lemma batch_contents:
  assumes "cbor_deserialize C b = Some vds" "vd \<in> set vds"
  shows "length (proof_bytes vd) + option_len (pub_input vd) + option_len (verification_key vd)
    + option_len (vm_program_code vd) \<le> length b"
proof -
  obtain vs where vs: "from_reader C b = Some (CArray vs)" "those (map (deserialize_VerificationData C) vs) = Some vds"
    using assms(1) by (auto simp: cbor_deserialize_def split: option.splits cbor_value.splits)
  obtain v where v: "v \<in> set vs" "deserialize_VerificationData C v = Some vd" using those_map_in [OF vs(2) assms(2)] by blast
  have "contents v \<le> contents (CArray vs)" using v(1) by (simp add: member_le_sum_list)
  then show ?thesis using fields_contents [OF v(2)] read_contents [OF vs(1)] by linarith
qed

end

section \<open>An encoder and a decoder\<close>

text \<open>
  CBOR as RFC 8949 describes it, for the values above: a head has the major type in its three upper bits, and a length
  that is kept in the head or follows it in one, two, four or eight bytes. Nothing longer can be written.
\<close>

definition be_length :: "nat \<Rightarrow> nat \<Rightarrow> bytes" where
  "be_length k n = be_bytes k (of_nat n :: u64)"

definition cbor_head :: "nat \<Rightarrow> nat \<Rightarrow> bytes option" where
  "cbor_head major n =
     (if n < 24 then Some [of_nat (32 * major + n)]
      else if n < 2 ^ 8 then Some (of_nat (32 * major + 24) # be_length 1 n)
      else if n < 2 ^ 16 then Some (of_nat (32 * major + 25) # be_length 2 n)
      else if n < 2 ^ 32 then Some (of_nat (32 * major + 26) # be_length 4 n)
      else if n < 2 ^ 64 then Some (of_nat (32 * major + 27) # be_length 8 n)
      else None)"

definition read_head :: "bytes \<Rightarrow> (nat \<times> nat \<times> bytes) option" where
  "read_head bs =
     (case bs of
        [] \<Rightarrow> None
      | h # rest \<Rightarrow>
        let major = unat h div 32; info = unat h mod 32 in
        if info < 24 then Some (major, info, rest)
        else if 27 < info then None
        else let k = 2 ^ (info - 24) in
          if length rest < k then None
          else Some (major, unat (word_rcat (take k rest) :: u64), drop k rest))"

definition text_bytes :: "string \<Rightarrow> bytes" where
  "text_bytes = map (\<lambda>c. of_nat (of_char c))"

definition bytes_text :: "bytes \<Rightarrow> string" where
  "bytes_text = map (\<lambda>b. char_of (unat b))"

text \<open>Items are written one after the other; a key is a text before its value.\<close>

fun write_all :: "bytes option list \<Rightarrow> bytes option" where
  "write_all [] = Some []"
| "write_all (x # xs) = Option.bind x (\<lambda>b. map_option ((@) b) (write_all xs))"

definition write_head :: "nat \<Rightarrow> nat \<Rightarrow> bytes option \<Rightarrow> bytes option" where
  "write_head major n body = Option.bind (cbor_head major n) (\<lambda>h. map_option ((@) h) body)"

primrec write_value :: "cbor_value \<Rightarrow> bytes option"
  and write_values :: "cbor_value list \<Rightarrow> bytes option list"
  and write_pairs :: "(string \<times> cbor_value) list \<Rightarrow> bytes option list"
  and write_pair :: "string \<times> cbor_value \<Rightarrow> bytes option list" where
  "write_value CNull = Some [246]"
| "write_value (CNumber i) = (if i < 0 then cbor_head 1 (nat (- 1 - i)) else cbor_head 0 (nat i))"
| "write_value (CBytes b) = write_head 2 (length b) (Some b)"
| "write_value (CText s) = write_head 3 (length s) (Some (text_bytes s))"
| "write_value (CArray vs) = write_head 4 (length vs) (write_all (write_values vs))"
| "write_value (CMap kvs) = write_head 5 (length kvs) (write_all (write_pairs kvs))"
| "write_values [] = []"
| "write_values (v # vs) = write_value v # write_values vs"
| "write_pairs [] = []"
| "write_pairs (p # kvs) = write_pair p @ write_pairs kvs"
| "write_pair (k, v) = [write_head 3 (length k) (Some (text_bytes k)), write_value v]"

text \<open>The reader descends with a bound on the depth, for which the length of the input is enough.\<close>

fun read_many :: "(bytes \<Rightarrow> ('a \<times> bytes) option) \<Rightarrow> nat \<Rightarrow> bytes \<Rightarrow> ('a list \<times> bytes) option" where
  "read_many r 0 bs = Some ([], bs)"
| "read_many r (Suc n) bs =
     Option.bind (r bs) (\<lambda>(x, bs). map_option (map_prod (Cons x) id) (read_many r n bs))"

definition read_text :: "bytes \<Rightarrow> (string \<times> bytes) option" where
  "read_text bs =
     (case read_head bs of
        Some (major, n, rest) \<Rightarrow>
          if major = 3 \<and> n \<le> length rest then Some (bytes_text (take n rest), drop n rest) else None
      | None \<Rightarrow> None)"

definition read_pair :: "(bytes \<Rightarrow> ('a \<times> bytes) option) \<Rightarrow> bytes \<Rightarrow> ((string \<times> 'a) \<times> bytes) option" where
  "read_pair r bs = Option.bind (read_text bs) (\<lambda>(k, bs). map_option (map_prod (Pair k) id) (r bs))"

fun read_value :: "nat \<Rightarrow> bytes \<Rightarrow> (cbor_value \<times> bytes) option" where
  "read_value 0 bs = None"
| "read_value (Suc depth) bs =
     (if bs \<noteq> [] \<and> hd bs = 246 then Some (CNull, tl bs)
      else case read_head bs of
        None \<Rightarrow> None
      | Some (major, n, rest) \<Rightarrow>
        if major = 0 then Some (CNumber (int n), rest)
        else if major = 1 then Some (CNumber (- 1 - int n), rest)
        else if major = 2 then if n \<le> length rest then Some (CBytes (take n rest), drop n rest) else None
        else if major = 3 then if n \<le> length rest then Some (CText (bytes_text (take n rest)), drop n rest) else None
        else if major = 4 then map_option (map_prod CArray id) (read_many (read_value depth) n rest)
        else if major = 5 then map_option (map_prod CMap id) (read_many (read_pair (read_value depth)) n rest)
        else None)"

declare read_value.simps(2) [simp del]

subsection \<open>What is written is read back\<close>

lemma word_rcat_be_bytes:
  fixes w :: "'a::len word"
  assumes "LENGTH('a) \<le> LENGTH('b::len)"
  shows "(word_rcat (be_bytes k w) :: 'b word) = ucast (take_bit (8 * k) w)"
proof (rule bit_word_eqI)
  fix n assume n: "n < LENGTH('b)"
  have m: "n mod 8 < 8" by simp
  have "bit (rev (be_bytes k w) ! (n div 8)) (n mod 8) = bit w n" if "n div 8 < k"
  proof -
    have "rev (be_bytes k w) ! (n div 8) = ucast (drop_bit (8 * (n div 8)) w)"
      using that by (simp add: be_bytes_def rev_map)
    then show ?thesis using m by (simp add: bit_ucast_iff bit_drop_bit_eq)
  qed
  moreover have "bit (word_rcat (be_bytes k w) :: 'b word) n \<longleftrightarrow>
      n div 8 < k \<and> bit (rev (be_bytes k w) ! (n div 8)) (n mod 8)"
    using bit_horner_sum_uint_exp_iff [of "rev (be_bytes k w)" n] n
    by (simp add: word_rcat_def bit_word_of_int_iff)
  ultimately show "bit (word_rcat (be_bytes k w) :: 'b word) n = bit (ucast (take_bit (8 * k) w) :: 'b word) n"
    using n assms by (auto simp: bit_ucast_iff bit_take_bit_iff div_less_iff_less_mult dest: bit_imp_le_length)
qed

lemma be_length_read:
  assumes "k \<le> 8" "n < 2 ^ (8 * k)"
  shows "unat (word_rcat (be_length k n) :: u64) = n"
proof -
  have "(2 :: nat) ^ (8 * k) \<le> 2 ^ 64" using assms(1) by (intro power_increasing) auto
  then have "n < 2 ^ 64" using assms(2) by linarith
  then have "unat (of_nat n :: u64) = n" by (simp add: unat_of_nat)
  then show ?thesis using assms(2) by (simp add: be_length_def word_rcat_be_bytes unsigned_take_bit_eq take_bit_nat_eq_self)
qed

lemma length_be_length [simp]: "length (be_length k n) = k"
  by (simp add: be_length_def)

lemma read_long_head:
  assumes "major < 8" "i < 4" "n < 2 ^ (8 * 2 ^ i)"
  shows "read_head (of_nat (32 * major + (24 + i)) # be_length (2 ^ i) n @ rest) = Some (major, n, rest)"
proof -
  have "32 * major + (24 + i) < 256" using assms by linarith
  then have u: "unat (of_nat (32 * major + (24 + i)) :: byte) = 32 * major + (24 + i)"
    unfolding unat_of_nat by simp
  have "i = 0 \<or> i = 1 \<or> i = 2 \<or> i = 3" using assms(2) by linarith
  then have k: "(2 :: nat) ^ i \<le> 8" by auto
  have d: "(32 * major + (24 + i)) div 32 = major" "(32 * major + (24 + i)) mod 32 = 24 + i"
    using assms(2) by simp_all
  show ?thesis
    unfolding read_head_def list.case Let_def u d
    using assms(2) be_length_read [OF k assms(3)] by simp
qed

lemma head_read:
  assumes "cbor_head major n = Some h" "major < 8"
  shows "read_head (h @ rest) = Some (major, n, rest)"
proof (cases "n < 24")
  case True
  then have "32 * major + n < 256" using assms(2) by linarith
  then have u: "unat (of_nat (32 * major + n) :: byte) = 32 * major + n" unfolding unat_of_nat by simp
  have d: "(32 * major + n) div 32 = major" "(32 * major + n) mod 32 = n" using True by simp_all
  have h: "h = [of_nat (32 * major + n)]" using True assms(1) by (simp add: cbor_head_def)
  show ?thesis unfolding h read_head_def append_Cons list.case Let_def u d using True by simp
next
  case False
  note long = read_long_head [OF assms(2), of 0 n rest] read_long_head [OF assms(2), of 1 n rest]
    read_long_head [OF assms(2), of 2 n rest] read_long_head [OF assms(2), of 3 n rest]
  show ?thesis using assms(1) False long
    by (auto simp: cbor_head_def split: if_splits simp del: of_nat_add of_nat_mult)
qed

lemma head_bounds:
  assumes "cbor_head major n = Some h"
  shows "h \<noteq> []" "length h \<le> 9"
  using assms by (auto simp: cbor_head_def split: if_splits)

lemma head_not_null:
  assumes "cbor_head major n = Some h" "major < 7"
  shows "h \<noteq> []" "hd h \<noteq> 246"
proof -
  show "h \<noteq> []" by (rule head_bounds [OF assms(1)])
  have "read_head (h @ []) = Some (major, n, [])" by (rule head_read) (use assms in simp_all)
  then obtain x xs where h: "h = x # xs" "unat x div 32 = major"
    by (auto simp: read_head_def Let_def split: list.splits if_splits)
  have "unat (246 :: byte) div 32 = 7" by simp
  then show "hd h \<noteq> 246" using h assms(2) by auto
qed

lemma text_read [simp]: "bytes_text (text_bytes s) = s"
  by (simp add: bytes_text_def text_bytes_def comp_def unat_of_nat)

lemma length_text [simp]: "length (text_bytes s) = length s"
  by (simp add: text_bytes_def)

lemma write_all_append:
  "write_all (xs @ ys) = Option.bind (write_all xs) (\<lambda>b. map_option ((@) b) (write_all ys))"
  by (induction xs) (auto split: bind_split simp: map_option_case split: option.splits)

lemma read_many_written:
  assumes "write_all (map w xs) = Some b" "length b \<le> m"
    and "\<And>x c rest. x \<in> set xs \<Longrightarrow> w x = Some c \<Longrightarrow> length c \<le> m \<Longrightarrow> r (c @ rest) = Some (x, rest)"
  shows "read_many r (length xs) (b @ rest) = Some (xs, rest)"
  using assms
proof (induction xs arbitrary: b)
  case (Cons x xs)
  obtain c d where c: "w x = Some c" "write_all (map w xs) = Some d" "b = c @ d"
    using Cons.prems(1) by (auto simp: bind_eq_Some_conv)
  have "read_many r (length xs) (d @ rest) = Some (xs, rest)"
    by (rule Cons.IH) (use Cons.prems c in auto)
  then show ?case using Cons.prems(2) Cons.prems(3) [of x c "d @ rest"] c by simp
qed simp

lemma write_values_map: "write_values vs = map write_value vs"
  by (induction vs) simp_all

lemma write_pairs_map: "write_all (write_pairs kvs) = write_all (map (\<lambda>p. write_all (write_pair p)) kvs)"
  by (induction kvs) (simp_all add: write_all_append)

lemma write_head_Some:
  "write_head major n body = Some b \<longleftrightarrow> (\<exists>h c. cbor_head major n = Some h \<and> body = Some c \<and> b = h @ c)"
  by (auto simp: write_head_def bind_eq_Some_conv)

lemma head_step:
  assumes "cbor_head major n = Some h" "major < 6"
  shows "read_value (Suc d) (h @ rest) =
     (if major = 0 then Some (CNumber (int n), rest)
      else if major = 1 then Some (CNumber (- 1 - int n), rest)
      else if major = 2 then if n \<le> length rest then Some (CBytes (take n rest), drop n rest) else None
      else if major = 3 then if n \<le> length rest then Some (CText (bytes_text (take n rest)), drop n rest) else None
      else if major = 4 then map_option (map_prod CArray id) (read_many (read_value d) n rest)
      else if major = 5 then map_option (map_prod CMap id) (read_many (read_pair (read_value d)) n rest)
      else None)"
  using head_read [OF assms(1), of rest] head_not_null [OF assms(1)] assms(2) by (simp add: read_value.simps(2))

lemma written_pair:
  assumes "write_all (write_pair p) = Some c"
  obtains h b where "cbor_head 3 (length (fst p)) = Some h" "write_value (snd p) = Some b" "c = h @ text_bytes (fst p) @ b"
  using assms by (cases p) (auto simp: bind_eq_Some_conv write_head_Some)

lemma read_pair_written:
  assumes "write_all (write_pair p) = Some c" "length c \<le> m"
    and "\<And>b rest. write_value (snd p) = Some b \<Longrightarrow> length b \<le> m \<Longrightarrow> r (b @ rest) = Some (snd p, rest)"
  shows "read_pair r (c @ rest) = Some (p, rest)"
proof -
  obtain h b where h: "cbor_head 3 (length (fst p)) = Some h" "write_value (snd p) = Some b"
    "c = h @ text_bytes (fst p) @ b"
    using assms(1) by (rule written_pair)
  have "read_text (c @ rest) = Some (fst p, b @ rest)"
    using head_read [OF h(1), of "text_bytes (fst p) @ b @ rest"] h(3) by (simp add: read_text_def)
  then show ?thesis using assms(2) assms(3) [OF h(2), of rest] h(3) by (simp add: read_pair_def)
qed

lemma read_value_written:
  "write_value v = Some b \<Longrightarrow> length b \<le> d \<Longrightarrow> read_value d (b @ rest) = Some (v, rest)"
proof (induction v arbitrary: b d rest)
  case CNull
  then show ?case by (cases d) (auto simp: read_value.simps(2))
next
  case (CNumber i)
  then show ?case
    using head_bounds(1) [of 0 "nat i" b] head_bounds(1) [of 1 "nat (- 1 - i)" b]
      head_step [of 0 "nat i" b _ rest] head_step [of 1 "nat (- 1 - i)" b _ rest]
    by (cases d) (auto split: if_splits)
next
  case (CBytes x)
  then obtain h where h: "cbor_head 2 (length x) = Some h" "b = h @ x" by (auto simp: write_head_Some)
  then show ?case using CBytes.prems(2) head_bounds(1) [OF h(1)] head_step [OF h(1), of _ "x @ rest"] by (cases d) auto
next
  case (CText x)
  then obtain h where h: "cbor_head 3 (length x) = Some h" "b = h @ text_bytes x" by (auto simp: write_head_Some)
  then show ?case
    using CText.prems(2) head_bounds(1) [OF h(1)] head_step [OF h(1), of _ "text_bytes x @ rest"] by (cases d) auto
next
  case (CArray vs)
  then obtain h c where h: "cbor_head 4 (length vs) = Some h" "write_all (map write_value vs) = Some c" "b = h @ c"
    by (auto simp: write_head_Some write_values_map)
  obtain m where d: "d = Suc m" "length c \<le> m"
    using CArray.prems(2) h(3) head_bounds(1) [OF h(1)] by (cases d; cases h) auto
  have "read_many (read_value m) (length vs) (c @ rest) = Some (vs, rest)"
    by (rule read_many_written [OF h(2) d(2)]) (use CArray.IH in blast)
  then show ?case using head_step [OF h(1), of m "c @ rest"] h(3) d(1) by simp
next
  case (CMap kvs)
  then obtain h c where h: "cbor_head 5 (length kvs) = Some h"
    "write_all (map (\<lambda>p. write_all (write_pair p)) kvs) = Some c" "b = h @ c"
    by (auto simp: write_head_Some write_pairs_map)
  obtain m where d: "d = Suc m" "length c \<le> m"
    using CMap.prems(2) h(3) head_bounds(1) [OF h(1)] by (cases d; cases h) auto
  have "read_many (read_pair (read_value m)) (length kvs) (c @ rest) = Some (kvs, rest)"
  proof (rule read_many_written [OF h(2) d(2)])
    fix p e rest' assume p: "p \<in> set kvs" "write_all (write_pair p) = Some e" "length e \<le> m"
    show "read_pair (read_value m) (e @ rest') = Some (p, rest')"
      by (rule read_pair_written [OF p(2,3)]) (use CMap.IH [OF p(1)] in \<open>cases p; auto\<close>)
  qed
  then show ?case using head_step [OF h(1), of m "c @ rest"] h(3) d(1) by simp
qed

lemma write_all_length:
  assumes "write_all (map w xs) = Some b" "\<And>x c. x \<in> set xs \<Longrightarrow> w x = Some c \<Longrightarrow> length c \<le> f x"
  shows "length b \<le> sum_list (map f xs)"
  using assms
proof (induction xs arbitrary: b)
  case (Cons x xs)
  obtain c d where c: "w x = Some c" "write_all (map w xs) = Some d" "b = c @ d"
    using Cons.prems(1) by (auto simp: bind_eq_Some_conv)
  have "length d \<le> sum_list (map f xs)" by (rule Cons.IH [OF c(2)]) (use Cons.prems(2) in auto)
  then show ?case using Cons.prems(2) [of x c] c by simp
qed simp

lemma write_value_bound: "write_value v = Some b \<Longrightarrow> length b \<le> encoded_bound v"
proof (induction v arbitrary: b)
  case (CArray vs)
  then obtain h c where h: "cbor_head 4 (length vs) = Some h" "write_all (map write_value vs) = Some c" "b = h @ c"
    by (auto simp: write_head_Some write_values_map)
  have "length c \<le> sum_list (map encoded_bound vs)" by (rule write_all_length [OF h(2)]) (use CArray.IH in blast)
  then show ?case using h(3) head_bounds(2) [OF h(1)] by simp
next
  case (CMap kvs)
  then obtain h c where h: "cbor_head 5 (length kvs) = Some h"
    "write_all (map (\<lambda>p. write_all (write_pair p)) kvs) = Some c" "b = h @ c"
    by (auto simp: write_head_Some write_pairs_map)
  have "length c \<le> sum_list (map (\<lambda>p. 9 + length (fst p) + encoded_bound (snd p)) kvs)"
  proof (rule write_all_length [OF h(2)])
    fix p e assume p: "p \<in> set kvs" "write_all (write_pair p) = Some e"
    obtain g b where g: "cbor_head 3 (length (fst p)) = Some g" "write_value (snd p) = Some b"
      "e = g @ text_bytes (fst p) @ b"
      using p(2) by (rule written_pair)
    have "snd p \<in> Basic_BNFs.snds p" by (rule snds.intros)
    then have "length b \<le> encoded_bound (snd p)" by (rule CMap.IH [OF p(1) _ g(2)])
    then show "length e \<le> 9 + length (fst p) + encoded_bound (snd p)" using g(3) head_bounds(2) [OF g(1)] by simp
  qed
  then show ?case using h(3) head_bounds(2) [OF h(1)] by simp
qed (auto simp: write_head_Some dest: head_bounds(2) split: if_splits)

text \<open>Nothing is read that is not there.\<close>

lemma read_head_length: "read_head bs = Some (major, n, rest) \<Longrightarrow> length rest < length bs"
  by (auto simp: read_head_def Let_def less_Suc_eq_le split: list.splits if_splits)

lemma read_many_contents:
  assumes "read_many r n bs = Some (xs, rest)"
    and "\<And>x bs rest. r bs = Some (x, rest) \<Longrightarrow> f x + length rest \<le> length bs"
  shows "sum_list (map f xs) + length rest \<le> length bs"
  using assms
proof (induction n arbitrary: bs xs)
  case (Suc n)
  obtain x bs' ys where x: "r bs = Some (x, bs')" "read_many r n bs' = Some (ys, rest)" "xs = x # ys"
    using Suc.prems(1) by (auto simp: bind_eq_Some_conv)
  have "sum_list (map f ys) + length rest \<le> length bs'" by (rule Suc.IH [OF x(2) Suc.prems(2)])
  then show ?case using Suc.prems(2) [OF x(1)] x(3) by simp
qed simp

lemma read_pair_contents:
  assumes "read_pair r bs = Some (p, rest)" "\<And>v bs rest. r bs = Some (v, rest) \<Longrightarrow> f v + length rest \<le> length bs"
  shows "length (fst p) + f (snd p) + length rest \<le> length bs"
proof -
  obtain k bs' v where k: "read_text bs = Some (k, bs')" "r bs' = Some (v, rest)" "p = (k, v)"
    using assms(1) by (auto simp: read_pair_def bind_eq_Some_conv)
  have "length k + length bs' \<le> length bs"
    using k(1) read_head_length by (fastforce simp: read_text_def bytes_text_def split: option.splits if_splits)
  then show ?thesis using assms(2) [OF k(2)] k(3) by simp
qed

lemma read_value_contents: "read_value d bs = Some (v, rest) \<Longrightarrow> contents v + length rest \<le> length bs"
proof (induction d arbitrary: bs v rest)
  case (Suc d)
  show ?case
  proof (cases "bs \<noteq> [] \<and> hd bs = 246")
    case True
    then show ?thesis using Suc.prems by (auto simp: read_value.simps(2))
  next
    case False
    then obtain major n bs' where h: "read_head bs = Some (major, n, bs')"
      using Suc.prems by (auto simp: read_value.simps(2) split: option.splits)
    note less = read_head_length [OF h]
    consider (array) vs where "v = CArray vs" "read_many (read_value d) n bs' = Some (vs, rest)"
      | (map) kvs where "v = CMap kvs" "read_many (read_pair (read_value d)) n bs' = Some (kvs, rest)"
      | (rest) "contents v + length rest \<le> length bs"
      using Suc.prems False h less by (fastforce simp: read_value.simps(2) bytes_text_def split: if_splits)
    then show ?thesis
    proof cases
      case array
      then show ?thesis using read_many_contents [OF array(2), of contents] Suc.IH less by fastforce
    next
      case map
      have "sum_list (List.map (\<lambda>p. length (fst p) + contents (snd p)) kvs) + length rest \<le> length bs'"
        by (rule read_many_contents [OF map(2)]) (use read_pair_contents Suc.IH in blast)
      then show ?thesis using map(1) less by simp
    qed
  qed
qed simp

text \<open>The library as the format describes it, with addresses and numbers in hexadecimal.\<close>

definition address_of_text :: "cbor_value \<Rightarrow> address option" where
  "address_of_text v =
     (case v of CText s \<Rightarrow> if take 2 s = ''0x'' then map_option word_rcat (hex_decode_list (drop 2 s)) else None
      | _ \<Rightarrow> None)"

text \<open>A byte buffer may also be an array of numbers.\<close>

definition buffer_of_value :: "cbor_value \<Rightarrow> bytes option" where
  "buffer_of_value v =
     (case v of
        CBytes b \<Rightarrow> Some b
      | CArray vs \<Rightarrow>
          those (map (\<lambda>x. case x of CNumber i \<Rightarrow> if 0 \<le> i \<and> i < 256 then Some (word_of_int i) else None | _ \<Rightarrow> None) vs)
      | _ \<Rightarrow> None)"

definition rfc8949 :: cbor_codec where
  "rfc8949 = \<lparr> into_writer = (\<lambda>v. case write_value v of Some b \<Rightarrow> Inr b | None \<Rightarrow> Inl ''length''),
     from_reader = (\<lambda>b. map_option fst (read_value (length b) b)),
     de_bytes = buffer_of_value,
     de_unit_variant = (\<lambda>v. case v of CText s \<Rightarrow> Some s | _ \<Rightarrow> None),
     ser_h160 = (\<lambda>a. ''0x'' @ hex_encode_bytes (be_bytes 20 a)), de_h160 = address_of_text,
     ser_u256 = (\<lambda>n. ''0x'' @ hex_encode_bytes (be_bytes 32 n)) \<rparr>"

lemma hex_encode_length [simp]: "length (hex_encode_bytes bs) = 2 * length bs"
  by (induction bs) (simp_all add: hex_encode_bytes_def)

lemma buffer_contents: "buffer_of_value v = Some b \<Longrightarrow> length b \<le> contents v"
proof (cases v)
  case (CArray vs)
  have "those (map (\<lambda>x. case x of CNumber i \<Rightarrow> if 0 \<le> i \<and> i < 256 then Some (word_of_int i) else None | _ \<Rightarrow> None) vs)
      = Some b \<Longrightarrow> length b \<le> sum_list (map contents vs)"
    by (induction vs arbitrary: b) (force split: option.splits cbor_value.splits if_splits)+
  then show "buffer_of_value v = Some b \<Longrightarrow> length b \<le> contents v" using CArray by (simp add: buffer_of_value_def)
qed (simp_all add: buffer_of_value_def)

interpretation rfc8949: cbor_format rfc8949
proof unfold_locales
  fix v b assume "into_writer rfc8949 v = Inr b"
  then have w: "write_value v = Some b" by (simp add: rfc8949_def split: option.splits)
  then show "length b \<le> encoded_bound v" by (rule write_value_bound)
  show "from_reader rfc8949 b = Some v" using read_value_written [OF w, of "length b" "[]"] by (simp add: rfc8949_def)
next
  fix b v assume "from_reader rfc8949 b = Some v"
  then obtain rest where "read_value (length b) b = Some (v, rest)" by (auto simp: rfc8949_def)
  then show "contents v \<le> length b" using read_value_contents by fastforce
next
  fix v b assume "de_bytes rfc8949 v = Some b"
  then show "length b \<le> contents v" by (simp add: rfc8949_def buffer_contents)
next
  fix a :: address
  have "(word_rcat (be_bytes 20 a) :: address) = a" by (simp add: word_rcat_be_bytes take_bit_word_eq_self)
  then show "de_h160 rfc8949 (CText (ser_h160 rfc8949 a)) = Some a"
    by (simp add: rfc8949_def address_of_text_def hex_decode_encode)
qed (simp_all add: rfc8949_def buffer_of_value_def)

end
