(* ===== verification/Sample_Env.thy ===== *)
theory Sample_Env
  imports Listeners Cbor
begin

text \<open>
  A concrete environment: the list-backed queue, an Ethereum node that answers every call, a
  signature scheme that recovers the signer from the signature, batches written as RFC 8949 describes, and locks that are free. The
  definitions of the development are evaluated in it.
\<close>

definition sample_eth :: eth_env where
  "sample_eth = \<lparr> driver = std_backon, hex = std_hex,
     user_balances = (\<lambda>_ _ _. Inr 10000000), user_nonces = (\<lambda>_ _ _. Inr 0),
     user_unlock_block = (\<lambda>_ _ _. Inr 0), rpc_gas_price = (\<lambda>_ _. Inr 1),
     rpc_block_number = (\<lambda>_ _. Inr 100), rpc_disabled_verifiers = (\<lambda>_. Inr 0),
     rpc_transaction_count = (\<lambda>_ _. Inr 0), unlocked_events = (\<lambda>_ _ _ _. Inr []),
     send_create_task = (\<lambda>_ _ _. Sent), call_create_task = (\<lambda>_ _ _. Sent),
     wait_create_task = (\<lambda>_. Receipt 1), send_cancel_tx = (\<lambda>_ _ _ _. Inr ()),
     wait_cancel_tx = (\<lambda>_. Receipt 1) \<rparr>"

definition sample_ecdsa :: ecdsa where
  "sample_ecdsa = \<lparr> recover_typed_data = (\<lambda>sig _. Inr (ucast (sig_r sig))),
     encode_eip712 = (\<lambda>_. Inr []), sig_verify = (\<lambda>_ _ _. Inr ()) \<rparr>"

definition sample_merkle :: "VerificationDataCommitment list merkle_ops" where
  "sample_merkle = \<lparr> mt_build = (\<lambda>xs. if xs = [] then None else Some xs), mt_root = (\<lambda>_. [0]),
     mt_proof_by_pos = (\<lambda>t i. if i < length t then Some [] else None), mt_verify = (\<lambda>_ _ _ _. True) \<rparr>"

definition sample_cfg :: BatcherConfig where
  "sample_cfg = \<lparr> cfg_chain_id = 1, cfg_payment_service = 5, min_block_interval = 2,
     max_proof_size = 2000, max_batch_byte_size = 100000, max_batch_proof_qty = 10,
     pre_verification_is_enabled = True, non_paying_config = None,
     aggregator_fee_percentage_multiplier = 125, aggregator_gas_cost = 330000,
     amount_of_proofs_for_min_max_fee = 10, min_bump_percentage = 10,
     download_endpoint = ''s3'', download_endpoint_secondary = None \<rparr>"

definition free_locks :: lock_outcomes where
  "free_locks = \<lparr> user_states_read = (\<lambda>_. True), user_states_write = True, user_lock = (\<lambda>_. True),
     user_try_lock = (\<lambda>_. True), batch_lock = True, batch_try_lock = True \<rparr>"

definition sample_inclusion :: BatchInclusionData where
  "sample_inclusion = \<lparr> batch_merkle_root = [0], batch_inclusion_proof = [], index_in_batch = 0, user_nonce = 0 \<rparr>"

definition sample_env :: "(item list, VerificationDataCommitment list) batcher_env" where
  "sample_env = \<lparr> pq = list_pq entry_key, cfg = sample_cfg, eth = sample_eth, crypto = sample_ecdsa,
     keccak = id, zk = sample_zk, merkle = sample_merkle, lk = free_locks,
     cbor_serialize_batch = cbor_serialize rfc8949,
     cbor_serialize_response = (\<lambda>r. if r = BatchInclusion sample_inclusion then Inr [1] else Inl []),
     s3_upload = (\<lambda>_ _ _ _. Inr ()), cancel_gas_prices = (\<lambda>_. Inr 1),
     debug_address = (\<lambda>_. []), debug_retry_error = (\<lambda>_. []) \<rparr>"

text \<open>The bytes of a batch with one sample proof.\<close>

definition sample_bytes :: bytes where
  "sample_bytes = (case cbor_serialize rfc8949 [sample_vd] of Inr b \<Rightarrow> b | Inl _ \<Rightarrow> [])"

lemma sample_written [simp]: "cbor_serialize rfc8949 [sample_vd] = Inr sample_bytes"
proof -
  have "\<not> isl (cbor_serialize rfc8949 [sample_vd])" by code_simp
  then show ?thesis by (cases "cbor_serialize rfc8949 [sample_vd]") (simp_all add: sample_bytes_def)
qed

lemma length_sample_bytes: "length sample_bytes = 125"
  by code_simp

lemma sample_entry_vd [simp]: "verification_data (nonced_verification_data (sample_entry a n f)) = sample_vd"
  by (simp add: sample_entry_def BatchQueueEntry_new_def)

definition zero_metrics :: BatcherMetrics where
  "zero_metrics = \<lparr> open_connections = 0, received_proofs = 0, sent_batches = 0, reverted_batches = 0,
     canceled_batches = 0, user_errors = [], gas_price_used_on_latest_batch = 0,
     broken_ws_connections = 0, queue_len = 0, queue_size_bytes = 0, user_lock_timeouts = 0,
     batch_lock_timeouts = 0, user_states_lock_timeouts = 0,
     unlocked_event_polling_batch_lock_timeouts = 0, available_data_services = 0 \<rparr>"

definition sample_state :: "item list \<Rightarrow> nat \<Rightarrow> (address \<rightharpoonup> UserState) \<Rightarrow> item list batcher" where
  "sample_state q n us = \<lparr> batch_state = \<lparr> batch_queue = q, max_size = n \<rparr>, user_states = us,
     last_uploaded_batch_block = 0, posting_batch = False, disabled_verifiers = 0,
     current_min_max_fee = 0, metrics = zero_metrics, outbox = [] \<rparr>"

definition sample_user :: "u256 \<Rightarrow> u256 \<Rightarrow> u256 \<Rightarrow> u64 \<Rightarrow> UserState" where
  "sample_user n l t k =
     \<lparr> us_nonce = n, last_max_fee_limit = l, total_fees_in_queue = t, proofs_in_batch = k \<rparr>"

definition sample_msg :: "u256 \<Rightarrow> u256 \<Rightarrow> u256 \<Rightarrow> SubmitProofMessage" where
  "sample_msg signer n f =
     \<lparr> msg_verification_data =
         \<lparr> verification_data = sample_vd, nonce = n, max_fee = f, chain_id = 1, payment_service_addr = 5 \<rparr>,
       msg_signature = \<lparr> sig_r = signer, sig_s = 2, sig_v = 3 \<rparr> \<rparr>"

section \<open>Evaluation\<close>

lemma retry_first_try: "\<not> is_transient (f 0) \<Longrightarrow> retry_function std_backon f m = f 0"
  by (rule std_backon.retry_first_final) auto

lemma sample_env_sel [simp]:
  "pq sample_env = list_pq entry_key" "cfg sample_env = sample_cfg" "eth sample_env = sample_eth"
  "crypto sample_env = sample_ecdsa" "keccak sample_env = id" "zk sample_env = sample_zk"
  "merkle sample_env = sample_merkle" "lk sample_env = free_locks"
  "cbor_serialize_batch sample_env = cbor_serialize rfc8949" 
  "cbor_serialize_response sample_env r = (if r = BatchInclusion sample_inclusion then Inr [1] else Inl [])"
  "s3_upload sample_env p i b f = Inr ()"
  by (simp_all add: sample_env_def)

lemma sample_cfg_sel [simp]:
  "pre_verification_is_enabled sample_cfg" "min_bump_percentage sample_cfg = 10"
  "non_paying_config sample_cfg = None" "min_block_interval sample_cfg = 2"
  "max_batch_byte_size sample_cfg = 100000" "max_batch_proof_qty sample_cfg = 10"
  "aggregator_fee_percentage_multiplier sample_cfg = 125" "aggregator_gas_cost sample_cfg = 330000"
  "amount_of_proofs_for_min_max_fee sample_cfg = 10" "download_endpoint_secondary sample_cfg = None"
  "download_endpoint sample_cfg = ''s3''"
  by (simp_all add: sample_cfg_def)

lemma sample_state_sel [simp]:
  "batch_queue (batch_state (sample_state q n us)) = q" "max_size (batch_state (sample_state q n us)) = n"
  "user_states (sample_state q n us) = us" "disabled_verifiers (sample_state q n us) = 0"
  "current_min_max_fee (sample_state q n us) = 0" "posting_batch (sample_state q n us) = False"
  "last_uploaded_batch_block (sample_state q n us) = 0" "outbox (sample_state q n us) = []"
  "metrics (sample_state q n us) = zero_metrics"
  by (simp_all add: sample_state_def)

lemma free_locks_sel [simp]:
  "user_states_read free_locks i" "user_states_write free_locks" "user_lock free_locks a"
  "user_try_lock free_locks a" "batch_lock free_locks" "batch_try_lock free_locks"
  by (simp_all add: free_locks_def)

lemma sample_eth_calls [simp]:
  "get_user_balance sample_eth a = Some 10000000"
  "get_user_nonce_from_ethereum sample_eth a = Inr 0"
  "user_balance_is_unlocked sample_eth a = False"
  "get_gas_price sample_eth = Inr 1"
  "disabled_verifiers_call sample_eth = Inr 0"
  by (simp_all add: get_user_balance_def get_user_nonce_from_ethereum_def user_balance_is_unlocked_def
      get_gas_price_def disabled_verifiers_call_def sample_eth_def retry_first_try
      get_user_balance_retryable_def get_user_nonce_from_ethereum_retryable_def
      user_balance_is_unlocked_retryable_def get_gas_price_retryable_def)

lemma sample_vd_verifies [simp]: "verify sample_zk sample_vd"
  by (simp add: verify_def verify_internal_def verify_sp1_proof_def sample_zk_def sample_vd_def
      unwrap_or_default_def)

lemma sample_msg_sel [simp]:
  "msg_verification_data (sample_msg a n f) =
     \<lparr> verification_data = sample_vd, nonce = n, max_fee = f, chain_id = 1, payment_service_addr = 5 \<rparr>"
  "msg_signature (sample_msg a n f) = \<lparr> sig_r = a, sig_s = 2, sig_v = 3 \<rparr>"
  by (simp_all add: sample_msg_def)

lemma sample_verify_signature [simp]: "verify_signature sample_ecdsa (sample_msg a n f) = Inr (ucast a)"
  by (simp add: verify_signature_def sample_ecdsa_def)

lemma is_verifier_disabled_0 [simp]: "\<not> is_verifier_disabled 0 ps"
  by (simp add: is_verifier_disabled_def)

lemma sample_validate:
  assumes "current_min_max_fee s \<le> f"
  shows "validate_message sample_env (sample_msg a n f) ws s =
    (Ret (Some (ucast a, \<lparr> verification_data = sample_vd, nonce = n, max_fee = f, chain_id = 1, payment_service_addr = 5 \<rparr>)),
     s\<lparr>metrics := (metrics s)\<lparr>received_proofs := Suc (received_proofs (metrics s))\<rparr>\<rparr>)"
  using assms
  by (simp add: validate_message_def msg_chain_id_is_valid_def msg_batcher_payment_addr_is_valid_def
      msg_proof_size_is_valid_def msg_signature_is_valid_def msg_covers_minimum_max_fee_def
      msg_user_balance_is_locked_def has_to_pay_def sample_cfg_def cbor_size_upper_bound_def
      CBOR_OVERHEAD_BYTES_def sample_vd_def Let_def)

lemma fold_sample_entry:
  "BatchQueueEntry_new
     \<lparr> verification_data = sample_vd, nonce = n, max_fee = f, chain_id = 1, payment_service_addr = 5 \<rparr>
     (verification_data_into_commitment id sample_vd) 1 \<lparr> sig_r = 1, sig_s = 2, sig_v = 3 \<rparr> a = sample_entry a n f"
  by (simp add: sample_entry_def)

lemma fold_sample_item: "(sample_entry a n f, BatchQueueEntryPriority f n) = sample_item a n f"
  by (simp add: sample_item_def prio_of_def)

lemmas handler_defs =
  handle_submit_proof_msg_def sample_validate lock_user_state_def try_user_lock_with_timeout_def
  try_batch_lock_with_timeout_def check_balance_def verify_user_has_enough_balance_def
  handle_new_proof_def verify_proof_if_enabled_def make_room_def add_and_count_def add_to_batch_def
  calculate_batch_size_def count_submitted_def is_queue_full_def checked_add_def new_entry_def
  nonced_into_commitment_def UserState_new_def reply_def batcher_updates

lemma sample_submit:
  "handle_submit_proof_msg sample_env (sample_msg 1 0 600000) 1 (sample_state [] 10 (\<lambda>_. None)) =
   (Ret (), (sample_state [sample_item 1 0 600000] 10
               ((\<lambda>_. None)(1 \<mapsto> sample_user 1 600000 600000 1)))
      \<lparr>metrics := zero_metrics\<lparr>received_proofs := 1, queue_len := 1, queue_size_bytes := 1037\<rparr>\<rparr>)"
  by (simp add: handler_defs fold_sample_entry [simplified] fold_sample_item Let_def pushed_def sample_state_def
      zero_metrics_def sample_user_def sdk_constants)

end
