(* ===== verification/Submit_Correct.thy ===== *)
theory Submit_Correct
  imports Accounting Sample_Env
begin

text \<open>
  Correctness of \<open>handle_submit_proof_msg\<close>: the phases of the handler, what an accepted proof has
  passed, that the handler keeps the books of \<open>Accounting\<close> balanced and the fees of each user
  ordered, that it accepts a valid proof, and where eviction from a full queue goes wrong.
\<close>

section \<open>The phases of a submission\<close>

lemma reply_frame [simp]:
  "batch_state (reply ws m s) = batch_state s" "user_states (reply ws m s) = user_states s"
  by (simp_all add: reply_def)

lemmas message_checks =
  msg_chain_id_is_valid_def msg_batcher_payment_addr_is_valid_def msg_proof_size_is_valid_def
  msg_signature_is_valid_def msg_user_balance_is_locked_def msg_covers_minimum_max_fee_def

lemma validate_message_core:
  "validate_message N m ws s = (r, t) \<Longrightarrow> batch_state t = batch_state s \<and> user_states t = user_states s"
  by (auto simp: validate_message_def message_checks Let_def or_panic_def
      split: if_splits option.splits sum.splits)

text \<open>What an accepted message satisfies.\<close>

definition valid_submission ::
    "('q, 't) batcher_env \<Rightarrow> SubmitProofMessage \<Rightarrow> 'q batcher \<Rightarrow> address \<Rightarrow> NoncedVerificationData \<Rightarrow> bool" where
  "valid_submission N m s addr nvd \<longleftrightarrow>
     chain_id (msg_verification_data m) = cfg_chain_id (cfg N) \<and>
     payment_service_addr (msg_verification_data m) = cfg_payment_service (cfg N) \<and>
     cbor_size_upper_bound (msg_verification_data m) \<le> max_proof_size (cfg N) \<and>
     (\<exists>signer. verify_signature (crypto N) m = Inr signer \<and>
        (if has_to_pay (cfg N) signer then addr = signer \<and> nvd = msg_verification_data m
         else get_nonpaying_replacement_addr (cfg N) = Some addr \<and>
              nvd = (msg_verification_data m)\<lparr>max_fee := ucast (DEFAULT_MAX_FEE_PER_PROOF * 100)\<rparr>)) \<and>
     current_min_max_fee s \<le> max_fee nvd \<and> \<not> user_balance_is_unlocked (eth N) addr"

lemma validate_message_Some:
  assumes "validate_message N m ws s = (Ret (Some (addr, nvd)), t)"
  shows "valid_submission N m s addr nvd"
  using assms
  by (auto simp: validate_message_def message_checks valid_submission_def Let_def or_panic_def
      aligned_payment_address_def get_nonpaying_replacement_addr_def not_less
      split: if_splits option.splits sum.splits)

lemma validate_message_returns: "\<exists>r. fst (validate_message N m ws s) = Ret r"
  by (auto simp: validate_message_def message_checks Let_def or_panic_def aligned_payment_address_def
      has_to_pay_def split: if_splits option.splits sum.splits prod.splits)

lemma lock_user_state_cases:
  assumes "lock_user_state N a ws s = (r, t)"
  shows "batch_state t = batch_state s"
    and "user_states t = user_states s \<or>
         user_states s a = None \<and> (\<exists>n. user_states t = (user_states s)(a \<mapsto> UserState_new n))"
    and "r = Ret (Some u) \<Longrightarrow> user_states t a = Some u"
    and "r = Ret None \<or> (\<exists>u. r = Ret (Some u))"
  using assms
  by (auto simp: lock_user_state_def and_some_def try_user_lock_with_timeout_def Let_def
      split: if_splits option.splits sum.splits)

text \<open>The state a user has in the cache, or would be given on its first proof.\<close>

definition cached_or_new :: "('q, 't) batcher_env \<Rightarrow> 'q batcher \<Rightarrow> address \<Rightarrow> UserState \<Rightarrow> bool" where
  "cached_or_new N s a u \<longleftrightarrow>
     (case user_states s a of
        Some v \<Rightarrow> u = v
      | None \<Rightarrow> \<exists>n. get_user_nonce_from_ethereum (eth N) a = Inr n \<and> u = UserState_new n)"

lemma lock_user_state_known: "lock_user_state N a ws s = (Ret (Some u), t) \<Longrightarrow> cached_or_new N s a u"
  by (auto simp: lock_user_state_def and_some_def try_user_lock_with_timeout_def Let_def cached_or_new_def
      split: if_splits option.splits sum.splits)

lemma check_balance_core:
  "check_balance N a nvd u ws s = (r, t) \<Longrightarrow> batch_state t = batch_state s \<and> user_states t = user_states s"
  by (auto simp: check_balance_def or_panic_def split: if_splits option.splits)

lemma check_balance_Some:
  "check_balance N a nvd u ws s = (Ret (Some x), t) \<Longrightarrow>
   \<exists>b. get_user_balance (eth N) a = Some b \<and> unat (total_fees_in_queue u) + unat (max_fee nvd) \<le> unat b"
  by (auto simp: check_balance_def or_panic_def verify_user_has_enough_balance_def checked_simps
      word_le_nat_alt split: if_splits option.splits)

lemma disabled_verifiers_frame [simp]:
  "disabled_verifiers (send_message ws x s) = disabled_verifiers s"
  "disabled_verifiers (reply ws y s) = disabled_verifiers s"
  "disabled_verifiers (user_error l1 l2 s) = disabled_verifiers s"
  "disabled_verifiers (inc_user_states_lock_timeouts s) = disabled_verifiers s"
  "disabled_verifiers (set_user a u s) = disabled_verifiers s"
  by (simp_all add: reply_def batcher_updates)

lemma phases_keep_disabled_verifiers:
  "validate_message N m ws s = (r1, t) \<Longrightarrow> disabled_verifiers t = disabled_verifiers s"
  "lock_user_state N a ws s = (r2, t) \<Longrightarrow> disabled_verifiers t = disabled_verifiers s"
  "check_balance N a nvd u ws s = (r3, t) \<Longrightarrow> disabled_verifiers t = disabled_verifiers s"
  by (auto simp: validate_message_def message_checks lock_user_state_def check_balance_def and_some_def
      try_user_lock_with_timeout_def Let_def or_panic_def split: if_splits option.splits sum.splits)

lemma verify_proof_core:
  "verify_proof_if_enabled N vd ws s = (ok, t) \<Longrightarrow> batch_state t = batch_state s \<and> user_states t = user_states s"
  by (auto simp: verify_proof_if_enabled_def split: if_splits)

lemma verify_proof_True:
  "verify_proof_if_enabled N vd ws s = (True, t) \<Longrightarrow> t = s \<and>
     (pre_verification_is_enabled (cfg N) \<longrightarrow>
        \<not> is_verifier_disabled (disabled_verifiers s) (proving_system vd) \<and> verify (zk N) vd)"
  by (auto simp: verify_proof_if_enabled_def split: if_splits)

lemma add_to_batch_eq:
  "add_to_batch N nvd ws sig addr s =
     (let q = pq_push (pq N) (batch_queue (batch_state s)) (new_entry N nvd ws sig addr)
                (BatchQueueEntryPriority (max_fee nvd) (nonce nvd)) in
      (Inr (), update_queue_metrics (pq_len (pq N) q)
         (CBOR_ARRAY_MAX_OVERHEAD + sizes_sum (pq_iter (pq N) q)) (set_queue q s)))"
  by (simp add: add_to_batch_def Let_def calculate_batch_size_def foldl_sizes)

lemma count_submitted_RetD:
  "count_submitted nvd u = (Ret x, u') \<Longrightarrow>
     unat (us_nonce u') = unat (nonce nvd) + 1 \<and> last_max_fee_limit u' = max_fee nvd \<and>
     proofs_in_batch u' = proofs_in_batch u + 1 \<and>
     unat (total_fees_in_queue u') = unat (total_fees_in_queue u) + unat (max_fee nvd)"
  by (auto simp: count_submitted_def outcome_simps Let_def checked_simps)

lemma count_submitted_returns:
  assumes "unat (nonce nvd) + 1 < 2 ^ 256" "unat (total_fees_in_queue u) + unat (max_fee nvd) < 2 ^ 256"
  shows "\<exists>u'. count_submitted nvd u = (Ret (), u')"
  using assms by (simp add: count_submitted_def checked_add_def)

lemma new_entry_simps [simp]:
  "sender (new_entry N nvd ws sig addr) = addr"
  "nonced_verification_data (new_entry N nvd ws sig addr) = nvd"
  "messaging_sink (new_entry N nvd ws sig addr) = Some ws"
  by (simp_all add: new_entry_def BatchQueueEntry_new_def)

section \<open>The invariant\<close>

text \<open>The proofs held by the batcher: the queue, and the batch \<open>fl\<close> that is being posted.\<close>

definition books_ok :: "item list \<Rightarrow> (address \<rightharpoonup> UserState) \<Rightarrow> bool" where
  "books_ok xs us \<longleftrightarrow> prio_ok xs \<and> distinct (map (entry_key \<circ> fst) xs) \<and> acct_ok xs us"

definition fees_ok :: "item list \<Rightarrow> (address \<rightharpoonup> UserState) \<Rightarrow> bool" where
  "fees_ok xs us \<longleftrightarrow> fee_order xs \<and> limits_ok xs us"

definition held_inv :: "('q, 't) batcher_env \<Rightarrow> item list \<Rightarrow> 'q batcher \<Rightarrow> bool" where
  "held_inv N fl s \<longleftrightarrow> books_ok (queue_items N s @ fl) (user_states s)"

definition fee_inv :: "('q, 't) batcher_env \<Rightarrow> item list \<Rightarrow> 'q batcher \<Rightarrow> bool" where
  "fee_inv N fl s \<longleftrightarrow> fees_ok (queue_items N s @ fl) (user_states s)"

lemma books_ok_mset: "mset xs = mset ys \<Longrightarrow> books_ok xs us = books_ok ys us"
  using prio_ok_mset [of xs ys] distinct_map_mset [of xs ys "entry_key \<circ> fst"] acct_ok_mset [of xs ys us]
  by (simp only: books_ok_def)

lemma fees_ok_mset: "mset xs = mset ys \<Longrightarrow> fees_ok xs us = fees_ok ys us"
  using fee_order_mset [of xs ys] limits_ok_mset [of xs ys us] by (simp only: fees_ok_def)

lemma held_inv_cong:
  assumes "batch_queue (batch_state t) = batch_queue (batch_state s)" "user_states t = user_states s"
  shows "held_inv N fl t = held_inv N fl s" "fee_inv N fl t = fee_inv N fl s"
  using assms by (simp_all add: held_inv_def fee_inv_def)

lemma invI_mset:
  assumes "mset (queue_items N t @ fl) = mset ys" "books_ok ys (user_states t)"
  shows "held_inv N fl t"
  using assms books_ok_mset unfolding held_inv_def by blast

lemma monoI_mset:
  assumes "mset (queue_items N t @ fl) = mset ys" "fees_ok ys (user_states t)"
  shows "fee_inv N fl t"
  using assms fees_ok_mset unfolding fee_inv_def by blast

lemma inv_acct: "held_inv N fl s \<Longrightarrow> acct_ok (queue_items N s @ fl) (user_states s)"
  by (simp add: held_inv_def books_ok_def)

lemma limits_ok_other_user:
  assumes "limits_ok xs us" "entries_of a xs = []"
  shows "limits_ok xs (us(a \<mapsto> u))"
  using assms by (auto simp: limits_ok_def entries_of_def filter_empty_conv)

lemma inv_new_user:
  assumes "held_inv N fl s" "user_states s a = None" "batch_state t = batch_state s"
    and "user_states t = (user_states s)(a \<mapsto> UserState_new n)"
  shows "held_inv N fl t" "fee_inv N fl s \<Longrightarrow> fee_inv N fl t"
proof -
  have "entries_of a (queue_items N s @ fl) = []"
    using inv_acct [OF assms(1)] assms(2) acct_ok_absent by blast
  then show "held_inv N fl t" "fee_inv N fl s \<Longrightarrow> fee_inv N fl t"
    using assms limits_ok_other_user acct_ok_new_user [of "queue_items N s @ fl" "user_states s" a n]
    by (auto simp: held_inv_def fee_inv_def books_ok_def fees_ok_def simp del: entries_of_simps)
qed

lemma lock_user_state_inv:
  assumes "lock_user_state N a ws s = (r, t)" "held_inv N fl s"
  shows "held_inv N fl t" "fee_inv N fl s \<Longrightarrow> fee_inv N fl t"
  using lock_user_state_cases(1,2) [OF assms(1)] held_inv_cong [of t s N fl] inv_new_user [OF assms(2), of a t]
    assms(2) by auto

lemma get_entry_Some:
  assumes "get_entry Q bs a n = Some e"
  obtains p where "(e, p) \<in> set (pq_iter Q (batch_queue bs))" "sender e = a" "entry_nonce e = n"
  using assms by (auto simp: get_entry_def find_Some_iff) (metis nth_mem prod.collapse)

lemma foldl_min_le: "foldl min f fs \<le> f \<and> (\<forall>g \<in> set fs. foldl min f fs \<le> g)" for f :: "'a::linorder"
  by (induction fs arbitrary: f) (auto, (meson min.bounded_iff order_trans)+)

lemma get_user_min_fee_le:
  assumes "x \<in> set (pq_iter Q (batch_queue bs))" "sender (fst x) = a"
  shows "get_user_min_fee_in_batch Q bs a \<le> entry_fee (fst x)"
proof -
  have "entry_fee (fst x) \<in> set (user_fees (pq_iter Q (batch_queue bs)) a)"
    using assms by (force simp: user_fees_def)
  then obtain f fs where "user_fees (pq_iter Q (batch_queue bs)) a = f # fs" "entry_fee (fst x) \<in> set (f # fs)"
    by (cases "user_fees (pq_iter Q (batch_queue bs)) a") auto
  then show ?thesis
    using foldl_min_le [of f fs] by (auto simp: get_user_min_fee_in_batch_def)
qed

lemma accounted_replace:
  assumes a: "accounted u xs" and x: "x \<in> set xs" and m: "mset ys = add_mset y (mset xs - {#x#})"
    and n: "entry_nonce (fst y) = entry_nonce (fst x)" and le: "entry_fee (fst x) \<le> entry_fee (fst y)"
    and t: "unat (total_fees_in_queue u') =
            unat (total_fees_in_queue u) + (unat (entry_fee (fst y)) - unat (entry_fee (fst x)))"
    and same: "proofs_in_batch u' = proofs_in_batch u" "us_nonce u' = us_nonce u"
  shows "accounted u' ys"
proof -
  obtain zs where zs: "mset xs = mset (x # zs)"
    using x by (metis ex_mset in_multiset_in_set insert_DiffM mset.simps(2))
  then have ys: "mset ys = mset (y # zs)" using m by simp
  have "accounted u (x # zs)" using a accounted_mset [OF zs] by simp
  then have "accounted u' (y # zs)"
    using n t same le by (auto simp: accounted_def word_le_nat_alt)
  then show ?thesis using accounted_mset [OF ys] by simp
qed

lemma replacement_of_simps [simp]:
  "sender (replacement_of N e nvd sig ws) = sender e"
  "nonced_verification_data (replacement_of N e nvd sig ws) = nvd"
  by (simp_all add: replacement_of_def)

lemma min_bump_ge: "min_bump b f = Some l \<Longrightarrow> f \<le> l"
  by (auto simp: min_bump_def bind_eq_Some_conv checked_simps word_le_nat_alt)

text \<open>What a replacement that goes through has checked.\<close>

definition may_replace ::
    "('q, 't) batcher_env \<Rightarrow> BatchQueueEntry \<Rightarrow> NoncedVerificationData \<Rightarrow> signature \<Rightarrow> sink \<Rightarrow> 'q batcher \<Rightarrow> bool" where
  "may_replace N entry nvd sig ws s \<longleftrightarrow>
     (\<exists>least. min_bump (min_bump_percentage (cfg N)) (entry_fee entry) = Some least \<and> least \<le> max_fee nvd) \<and>
     (pre_verification_is_enabled (cfg N) \<longrightarrow> verify (zk N) (verification_data nvd)) \<and>
     replacement_entry_is_valid (pq N) (batch_state s) (replacement_of N entry nvd sig ws)"

lemma handle_replacement_message_Ret:
  assumes "handle_replacement_message N nvd ws sig addr u s = (Ret (), t)"
  shows "batch_state t = batch_state s \<and> user_states t = user_states s \<or>
    (\<exists>entry s'. get_entry (pq N) (batch_state s) addr (nonce nvd) = Some entry \<and>
       may_replace N entry nvd sig ws s \<and> batch_state s' = batch_state s \<and> user_states s' = user_states s \<and>
       apply_replacement N (entry_fee entry) (replacement_of N entry nvd sig ws) addr u s' = (Ret (), t))"
proof (cases "batch_lock (lk N)")
  case False
  then show ?thesis
    using assms by (auto simp: handle_replacement_message_def try_batch_lock_with_timeout_def Let_def)
next
  case lock: True
  show ?thesis
  proof (cases "get_entry (pq N) (batch_state s) addr (nonce nvd)")
    case None
    then show ?thesis
      using assms lock by (auto simp: handle_replacement_message_def try_batch_lock_with_timeout_def Let_def)
  next
    case (Some entry)
    obtain ok s1 where v: "verify_proof_if_enabled N (verification_data nvd) ws s = (ok, s1)" by fastforce
    note core = verify_proof_core [OF v]
    show ?thesis
    proof (cases "min_bump (min_bump_percentage (cfg N)) (entry_fee entry)")
      case None
      then show ?thesis
        using assms lock Some by (auto simp: handle_replacement_message_def try_batch_lock_with_timeout_def)
    next
      case least: (Some least)
      show ?thesis
        using assms lock Some least v core verify_proof_True [of N "verification_data nvd" ws s s1]
        by (simp add: handle_replacement_message_def try_batch_lock_with_timeout_def Let_def may_replace_def
            split: if_splits; fastforce simp: not_less)
    qed
  qed
qed

text \<open>The ways through the handler, whatever its outcome.\<close>

lemma handle_submit_cases:
  assumes h: "handle_submit_proof_msg N m ws s = (out, t)"
  obtains (early) "batch_state t = batch_state s" "user_states t = user_states s"
    | (no_change) addr r s1 s2 where "batch_state s1 = batch_state s" "user_states s1 = user_states s"
      "lock_user_state N addr ws s1 = (r, s2)" "batch_state t = batch_state s2" "user_states t = user_states s2"
    | (handled) addr nvd u s1 s2 s3 where "batch_state s1 = batch_state s" "user_states s1 = user_states s"
      "lock_user_state N addr ws s1 = (Ret (Some u), s2)" "batch_state s3 = batch_state s2"
      "user_states s3 = user_states s2" "user_states s3 addr = Some u" "valid_submission N m s addr nvd"
      "disabled_verifiers s3 = disabled_verifiers s" "check_balance N addr nvd u ws s2 = (Ret (Some ()), s3)"
      "nonce nvd < us_nonce u \<and> handle_replacement_message N nvd ws (msg_signature m) addr u s3 = (out, t) \<or>
       nonce nvd = us_nonce u \<and> handle_new_proof N nvd ws (msg_signature m) addr u s3 = (out, t)"
proof -
  obtain v s1 where v: "validate_message N m ws s = (Ret v, s1)"
    using validate_message_returns [of N m ws s] by (metis prod.collapse)
  note c1 = validate_message_core [OF v]
  show ?thesis
  proof (cases v)
    case None
    then show ?thesis using h v c1 early by (simp add: handle_submit_proof_msg_def)
  next
    case (Some an)
    obtain addr nvd where an: "an = (addr, nvd)" by fastforce
    have valid: "valid_submission N m s addr nvd" using validate_message_Some v Some an by blast
    then have nonce: "nonce nvd = nonce (msg_verification_data m)"
      by (auto simp: valid_submission_def split: if_splits)
    obtain r s2 where l: "lock_user_state N addr ws s1 = (r, s2)" by fastforce
    note c2 = lock_user_state_cases [OF l]
    show ?thesis
    proof (cases "\<exists>u. r = Ret (Some u)")
      case False
      then have "r = Ret None" using c2(4) by blast
      then show ?thesis
        using h v l Some an c1 no_change by (auto simp: handle_submit_proof_msg_def)
    next
      case True
      then obtain u where r: "r = Ret (Some u)" by blast
      obtain b s3 where b: "check_balance N addr nvd u ws s2 = (b, s3)" by fastforce
      note c3 = check_balance_core [OF b]
      have u3: "user_states s3 addr = Some u" using c2(3) [OF r] c3 by simp
      have d3: "disabled_verifiers s3 = disabled_verifiers s"
        using phases_keep_disabled_verifiers v l b by metis
      note locked = c1 [THEN conjunct1] c1 [THEN conjunct2] l [unfolded r]
      have "batch_state t = batch_state s3 \<and> user_states t = user_states s3 \<or> b = Ret (Some ()) \<and>
          (nonce nvd < us_nonce u \<and> handle_replacement_message N nvd ws (msg_signature m) addr u s3 = (out, t) \<or>
           nonce nvd = us_nonce u \<and> handle_new_proof N nvd ws (msg_signature m) addr u s3 = (out, t))"
        using h v l Some an r b nonce
        by (cases b) (auto simp: handle_submit_proof_msg_def Let_def split: option.splits if_splits)
      then show ?thesis
        using no_change [OF locked] handled [OF locked _ _ u3 valid d3] b c3 by auto
    qed
  qed
qed

locale batcher_queue = batch_pq "pq N" for N :: "('q, 't) batcher_env"
begin

text \<open>A proof whose nonce is the expected one is not in the queue nor in the posted batch.\<close>

lemma expected_nonce_fresh:
  assumes "held_inv N fl s" "user_states s a = Some u" "sender e = a" "entry_nonce e = us_nonce u"
  shows "entry_key e \<notin> entry_key ` fst ` set (queue_items N s @ fl)"
proof
  assume "entry_key e \<in> entry_key ` fst ` set (queue_items N s @ fl)"
  then obtain x where x: "x \<in> set (queue_items N s @ fl)" "entry_key (fst x) = entry_key e" by force
  then have "sender (fst x) = a" "entry_nonce (fst x) = us_nonce u"
    using assms(3,4) by (simp_all add: entry_key_def)
  then show False
    using acct_ok_nonce [OF inv_acct [OF assms(1)] x(1)] assms(2) by simp
qed

text \<open>Adding a proof with the expected nonce.\<close>

lemma inv_add:
  assumes i: "held_inv N fl s" and u: "user_states s addr = Some u" and n: "nonce nvd = us_nonce u"
    and a: "add_and_count N nvd ws sig addr u s = (Ret (), t)"
  obtains u' where "count_submitted nvd u = (Ret (), u')"
    "mset (queue_items N t) =
       add_mset (new_entry N nvd ws sig addr, BatchQueueEntryPriority (max_fee nvd) (nonce nvd))
         (mset (queue_items N s))"
    "user_states t = (user_states s)(addr \<mapsto> u')" "held_inv N fl t"
    "fee_inv N fl s \<Longrightarrow> max_fee nvd \<le> last_max_fee_limit u \<Longrightarrow> fee_inv N fl t"
proof -
  let ?e = "new_entry N nvd ws sig addr" and ?p = "BatchQueueEntryPriority (max_fee nvd) (nonce nvd)"
  let ?xs = "queue_items N s @ fl"
  obtain u' where c: "count_submitted nvd u = (Ret (), u')"
    and us: "user_states t = (user_states s)(addr \<mapsto> u')"
    and q: "batch_queue (batch_state t) = pq_push (pq N) (batch_queue (batch_state s)) ?e ?p"
    using a by (auto simp: add_and_count_def add_to_batch_eq Let_def split: prod.splits)
  have fresh: "entry_key ?e \<notin> entry_key ` fst ` set ?xs"
    by (rule expected_nonce_fresh [OF i u]) (use n in auto)
  have m: "mset (queue_items N t) = add_mset (?e, ?p) (mset (queue_items N s))"
    unfolding q by (rule push_new_key) (use fresh in auto)
  then have mx: "mset (queue_items N t @ fl) = mset ((?e, ?p) # ?xs)" by simp
  note cd = count_submitted_RetD [OF c]
  have acc: "accounted u (entries_of addr ?xs)" by (rule acct_okD [OF inv_acct [OF i] u])
  have "accounted u' ((?e, ?p) # entries_of addr ?xs)"
    by (rule accounted_add [OF acc]) (use cd n in auto)
  then have "acct_ok ((?e, ?p) # ?xs) (user_states t)"
    unfolding us by (intro acct_ok_update [OF inv_acct [OF i]]) auto
  then have "books_ok ((?e, ?p) # ?xs) (user_states t)"
    using i fresh by (auto simp: held_inv_def books_ok_def prio_ok_def prio_of_def image_image)
  then have held_inv': "held_inv N fl t" by (rule invI_mset [OF mx])
  have "fee_inv N fl t" if mo: "fee_inv N fl s" and lim: "max_fee nvd \<le> last_max_fee_limit u"
  proof -
    have low: "max_fee nvd \<le> entry_fee (fst x)" if "x \<in> set ?xs" "sender (fst x) = addr" for x
      using mo that u lim unfolding fee_inv_def fees_ok_def limits_ok_def by (meson order_trans)
    have below: "entry_nonce (fst x) < nonce nvd" if "x \<in> set ?xs" "sender (fst x) = addr" for x
      using acct_ok_nonce [OF inv_acct [OF i] that(1)] that(2) u n by simp
    have "fee_order ((?e, ?p) # ?xs)"
      unfolding fee_order_Cons
    proof (intro conjI ballI impI)
      fix y assume y: "y \<in> set ?xs" "sender (fst y) = sender (fst (?e, ?p))"
      show "entry_fee (fst (?e, ?p)) \<le> entry_fee (fst y)" using low [of y] y by simp
      assume "entry_nonce (fst (?e, ?p)) < entry_nonce (fst y)"
      then show "entry_fee (fst y) \<le> entry_fee (fst (?e, ?p))"
        using below [of y] y order_less_not_sym by fastforce
    qed (use mo in \<open>simp add: fee_inv_def fees_ok_def\<close>)
    moreover have "limits_ok ((?e, ?p) # ?xs) (user_states t)"
      using mo low cd unfolding us fee_inv_def fees_ok_def limits_ok_def by auto
    ultimately show ?thesis by (intro monoI_mset [OF mx]) (simp add: fees_ok_def)
  qed
  with c m us held_inv' that show ?thesis by blast
qed

lemma queue_replace_mset:
  assumes "x \<in> set (pq_iter (pq N) q)" "entry_key (fst x) = entry_key e"
  shows "mset (pq_iter (pq N) (queue_replace (pq N) q e p)) = add_mset (e, p) (mset (pq_iter (pq N) q) - {#x#})"
proof -
  obtain q' where r: "pq_remove (pq N) q e = Some (x, q')" by (rule remove_Some_ex [OF assms])
  show ?thesis
    using push_new_key [OF remove_fresh [OF r], of p] remove_mset [OF r]
    by (simp add: queue_replace_def r)
qed

text \<open>The effect of a replacement that goes through.\<close>

lemma apply_replacement_Ret:
  assumes "apply_replacement N f r addr u s = (Ret (), t)" "x \<in> set (queue_items N s)"
    and "entry_key (fst x) = entry_key r" "user_states s addr = Some u"
  obtains u' where
      "mset (queue_items N t) = add_mset (r, prio_of r) (mset (queue_items N s) - {#x#})"
      "user_states t = (user_states s)(addr \<mapsto> u')" "proofs_in_batch u' = proofs_in_batch u"
      "us_nonce u' = us_nonce u"
      "last_max_fee_limit u' = get_user_min_fee_in_batch (pq N) (batch_state t) addr"
      "unat (total_fees_in_queue u') = unat (total_fees_in_queue u) + (unat (entry_fee r) - unat f)"
proof -
  let ?s = "set_queue (queue_replace (pq N) (batch_queue (batch_state s)) r (prio_of r)) s"
  let ?u = "u\<lparr>last_max_fee_limit := get_user_min_fee_in_batch (pq N) (batch_state ?s) addr\<rparr>"
  obtain d tot where "checked_sub (entry_fee r) f = Some d" "checked_add (total_fees_in_queue u) d = Some tot"
    and t: "t = set_user addr (?u\<lparr>total_fees_in_queue := tot\<rparr>) (set_user addr ?u ?s)"
    using assms(1) unfolding apply_replacement_def Let_def prio_of_def by (auto simp: or_panic_Ret_iff)
  then have d: "unat (entry_fee r) = unat d + unat f" and tot: "unat tot = unat (total_fees_in_queue u) + unat d"
    by (simp_all add: checked_simps)
  show ?thesis
    by (rule that [of "u\<lparr>last_max_fee_limit := get_user_min_fee_in_batch (pq N) (batch_state t) addr,
                         total_fees_in_queue := tot\<rparr>"])
      (use d tot queue_replace_mset [OF assms(2,3)] in \<open>simp_all add: t\<close>)
qed

text \<open>
  A replacement message is refused and changes nothing, or one queued entry with its key, \<open>(entry, p)\<close>
  beside the others \<open>zs\<close>, gives way to the new one, and the user's total grows by the difference.
\<close>

lemma replacement_cases:
  assumes u: "user_states s addr = Some u"
    and h: "handle_replacement_message N nvd ws sig addr u s = (Ret (), t)"
  obtains (refused) "batch_state t = batch_state s" "user_states t = user_states s"
    | (replaced) entry p zs r u' where "r = replacement_of N entry nvd sig ws" "sender entry = addr"
      "entry_nonce entry = nonce nvd" "may_replace N entry nvd sig ws s" "entry_fee entry \<le> max_fee nvd"
      "mset (queue_items N s) = mset ((entry, p) # zs)" "mset (queue_items N t) = mset ((r, prio_of r) # zs)"
      "user_states t = (user_states s)(addr \<mapsto> u')" "proofs_in_batch u' = proofs_in_batch u"
      "us_nonce u' = us_nonce u"
      "last_max_fee_limit u' = get_user_min_fee_in_batch (pq N) (batch_state t) addr"
      "unat (total_fees_in_queue u') =
         unat (total_fees_in_queue u) + (unat (max_fee nvd) - unat (entry_fee entry))"
  using handle_replacement_message_Ret [OF h]
proof (elim disjE exE conjE)
  fix entry s'
  let ?r = "replacement_of N entry nvd sig ws"
  assume g: "get_entry (pq N) (batch_state s) addr (nonce nvd) = Some entry"
    and mr: "may_replace N entry nvd sig ws s" and s': "batch_state s' = batch_state s" "user_states s' = user_states s"
    and ar: "apply_replacement N (entry_fee entry) ?r addr u s' = (Ret (), t)"
  obtain p where e: "(entry, p) \<in> set (queue_items N s)" "sender entry = addr" "entry_nonce entry = nonce nvd"
    by (rule get_entry_Some [OF g])
  have key: "entry_key (fst (entry, p)) = entry_key ?r" using e by (simp add: entry_key_def)
  have up: "entry_fee entry \<le> max_fee nvd"
    using mr min_bump_ge unfolding may_replace_def by (meson order_trans)
  obtain zs where zs: "mset (queue_items N s) = mset ((entry, p) # zs)"
    using e(1) by (metis ex_mset in_multiset_in_set insert_DiffM mset.simps(2))
  show thesis
    by (rule apply_replacement_Ret [OF ar, of "(entry, p)"])
      (use e u s' key in simp_all, rule replaced [OF refl e(2,3) mr up zs],
       use zs s' in simp_all)
qed (rule refused)

lemma books_replace:
  assumes old: "books_ok ((entry, p) # zs @ fl) us" and u: "us addr = Some u"
    and e: "sender entry = addr" "entry_nonce entry = entry_nonce r" "sender r = addr"
    and up: "entry_fee entry \<le> entry_fee r" and same: "proofs_in_batch u' = proofs_in_batch u" "us_nonce u' = us_nonce u"
    and tot: "unat (total_fees_in_queue u') =
              unat (total_fees_in_queue u) + (unat (entry_fee r) - unat (entry_fee entry))"
  shows "books_ok ((r, prio_of r) # zs @ fl) (us(addr \<mapsto> u'))"
proof -
  have acc: "accounted u (entries_of addr ((entry, p) # zs @ fl))"
    using old u acct_okD unfolding books_ok_def by blast
  have "accounted u' (entries_of addr ((r, prio_of r) # zs @ fl))"
    by (rule accounted_replace [OF acc, of "(entry, p)" _ "(r, prio_of r)"]) (use e up tot same in auto)
  then have "acct_ok ((r, prio_of r) # zs @ fl) (us(addr \<mapsto> u'))"
    using old e unfolding books_ok_def
    by (intro acct_ok_update [of "(entry, p) # zs @ fl"]) auto
  moreover have "entry_key entry = entry_key r" using e by (simp add: entry_key_def)
  ultimately show ?thesis using old by (auto simp: books_ok_def prio_ok_def)
qed

lemma fee_order_replace:
  assumes old: "fee_order ((entry, p) # zs)" and up: "entry_fee entry \<le> entry_fee r"
    and e: "sender entry = sender r" "entry_nonce entry = entry_nonce r"
    and valid: "\<And>y. y \<in> set zs \<Longrightarrow> sender (fst y) = sender r \<Longrightarrow> entry_nonce (fst y) < entry_nonce r
                  \<Longrightarrow> entry_fee r \<le> entry_fee (fst y)"
  shows "fee_order ((r, p') # zs)"
  unfolding fee_order_Cons
proof (intro conjI ballI impI)
  fix y assume y: "y \<in> set zs" "sender (fst y) = sender (fst (r, p'))"
  show "entry_fee (fst (r, p')) \<le> entry_fee (fst y)" if "entry_nonce (fst y) < entry_nonce (fst (r, p'))"
    using valid [of y] y that by simp
  show "entry_fee (fst y) \<le> entry_fee (fst (r, p'))" if "entry_nonce (fst (r, p')) < entry_nonce (fst y)"
  proof -
    have "entry_fee (fst y) \<le> entry_fee entry"
      using old y that e unfolding fee_order_Cons by simp
    then show ?thesis using up by simp
  qed
qed (use old in \<open>simp add: fee_order_Cons\<close>)

lemma inv_replace:
  assumes i: "held_inv N fl s" and u: "user_states s addr = Some u"
    and h: "handle_replacement_message N nvd ws sig addr u s = (Ret (), t)"
  shows "held_inv N fl t"
  using u h
proof (cases rule: replacement_cases)
  case refused
  then show ?thesis using i held_inv_cong [of t s N fl] by simp
next
  case (replaced entry p zs r u')
  have "books_ok ((entry, p) # zs @ fl) (user_states s)"
    using i books_ok_mset [of "queue_items N s @ fl" "(entry, p) # zs @ fl"] replaced(6) by (simp add: held_inv_def)
  from books_replace [OF this u, of r u'] have "books_ok ((r, prio_of r) # zs @ fl) (user_states t)"
    using replaced by simp
  then show ?thesis by (rule invI_mset [rotated]) (use replaced(7) in simp)
qed

lemma mono_replace:
  assumes i: "fee_inv N [] s" and u: "user_states s addr = Some u"
    and h: "handle_replacement_message N nvd ws sig addr u s = (Ret (), t)"
  shows "fee_inv N [] t"
  using u h
proof (cases rule: replacement_cases)
  case refused
  then show ?thesis using i held_inv_cong [of t s N "[]"] by simp
next
  case (replaced entry p zs r u')
  have old: "fees_ok ((entry, p) # zs) (user_states s)"
    using i fees_ok_mset [of "queue_items N s" "(entry, p) # zs"] replaced(6) by (simp add: fee_inv_def)
  have "entry_fee r \<le> entry_fee (fst y)"
    if "y \<in> set zs" "sender (fst y) = sender r" "entry_nonce (fst y) < entry_nonce r" for y
  proof -
    have "y \<in> set (queue_items N s)" using that(1) mset_eq_set [OF replaced(6)] by simp
    then have "\<not> entry_fee (fst y) < entry_fee r"
      using that(2,3) replaced(1,2,4)
      by (fastforce simp: may_replace_def replacement_entry_is_valid_def list_ex_iff)
    then show ?thesis by simp
  qed
  moreover have "fee_order ((entry, p) # zs)" using old by (simp add: fees_ok_def)
  ultimately have "fee_order ((r, prio_of r) # zs)"
    by (rule fee_order_replace [rotated 4]) (use replaced(1,2,3,5) in simp_all)
  moreover have "last_max_fee_limit u' \<le> entry_fee (fst x)"
    if "x \<in> set ((r, prio_of r) # zs)" "sender (fst x) = addr" for x
    using get_user_min_fee_le [of x "pq N" "batch_state t" addr] that mset_eq_set [OF replaced(7)] replaced(11)
    by simp
  then have "limits_ok ((r, prio_of r) # zs) (user_states t)"
    unfolding replaced(8)
    by (rule limits_ok_update [of "(entry, p) # zs", rotated 2])
      (use old replaced(1,2) in \<open>auto simp: fees_ok_def\<close>)
  ultimately show ?thesis
    by (intro monoI_mset [of _ _ _ "(r, prio_of r) # zs"]) (use replaced(7) in \<open>auto simp: fees_ok_def\<close>)
qed

lemma handle_new_proof_Ret:
  assumes "handle_new_proof N nvd ws sig addr u s = (Ret (), t)" "\<not> is_queue_full (pq N) (batch_state s)"
  shows "batch_state t = batch_state s \<and> user_states t = user_states s \<or>
    max_fee nvd \<le> last_max_fee_limit u \<and>
    (pre_verification_is_enabled (cfg N) \<longrightarrow> verify (zk N) (verification_data nvd)) \<and>
    add_and_count N nvd ws sig addr u s = (Ret (), t)"
proof -
  obtain ok s1 where v: "verify_proof_if_enabled N (verification_data nvd) ws s = (ok, s1)" by fastforce
  show ?thesis
    using assms v verify_proof_core [OF v] verify_proof_True [of N "verification_data nvd" ws s s1]
    by (auto simp: handle_new_proof_def try_batch_lock_with_timeout_def make_room_def Let_def not_less
        split: if_splits)
qed

lemma handle_submit_inv:
  assumes i: "held_inv N fl s" and nf: "\<not> is_queue_full (pq N) (batch_state s)"
    and h: "handle_submit_proof_msg N m ws s = (Ret (), t)"
  shows "held_inv N fl t" "fl = [] \<Longrightarrow> fee_inv N fl s \<Longrightarrow> fee_inv N fl t"
proof -
  have "held_inv N fl t \<and> (fl = [] \<longrightarrow> fee_inv N fl s \<longrightarrow> fee_inv N fl t)"
    using h
  proof (cases rule: handle_submit_cases)
    case early
    then show ?thesis using i held_inv_cong [of t s N fl] by auto
  next
    case (no_change addr r s1 s2)
    then show ?thesis
      using i lock_user_state_inv [OF no_change(3), of fl] held_inv_cong [of s1 s N fl] held_inv_cong [of t s2 N fl]
      by auto
  next
    case (handled addr nvd u s1 s2 s3)
    have s3: "held_inv N fl s3" "fee_inv N fl s \<Longrightarrow> fee_inv N fl s3"
      using i lock_user_state_inv [OF handled(3), of fl] held_inv_cong [of s1 s N fl] held_inv_cong [of s3 s2 N fl] handled
      by auto
    have nf3: "\<not> is_queue_full (pq N) (batch_state s3)"
      using nf handled lock_user_state_cases(1) [OF handled(3)] by simp
    from handled(10) show ?thesis
    proof (elim disjE conjE)
      assume "handle_replacement_message N nvd ws (msg_signature m) addr u s3 = (Ret (), t)"
      then show ?thesis using s3 handled(6) inv_replace mono_replace by blast
    next
      assume n: "nonce nvd = us_nonce u"
        and hn: "handle_new_proof N nvd ws (msg_signature m) addr u s3 = (Ret (), t)"
      show ?thesis
        using handle_new_proof_Ret [OF hn nf3]
      proof (elim disjE conjE)
        assume "batch_state t = batch_state s3" "user_states t = user_states s3"
        then show ?thesis using s3 held_inv_cong [of t s3 N fl] by auto
      next
        assume "max_fee nvd \<le> last_max_fee_limit u"
          and a: "add_and_count N nvd ws (msg_signature m) addr u s3 = (Ret (), t)"
        then show ?thesis
          using s3 by (auto intro: inv_add [OF s3(1) handled(6) n a])
      qed
    qed
  qed
  then show "held_inv N fl t" "fl = [] \<Longrightarrow> fee_inv N fl s \<Longrightarrow> fee_inv N fl t" by blast+
qed

text \<open>No step of the handler invents an entry: the queue gains at most the submitted one.\<close>

lemma push_entries:
  "fst ` set (pq_iter (pq N) (pq_push (pq N) q e p)) \<subseteq> insert e (fst ` set (pq_iter (pq N) q))"
proof -
  have "fst ` set (pushed entry_key xs e p) \<subseteq> insert e (fst ` set xs)" for xs :: "item list"
    by (force simp: pushed_def split: if_splits)
  then show ?thesis using mset_eq_set [OF iter_push] by simp
qed

lemma remove_subset: "pq_remove (pq N) q e = Some (x, q') \<Longrightarrow> set (pq_iter (pq N) q') \<subseteq> set (pq_iter (pq N) q)"
  by (metis mset_diff_set remove_Some)

lemma queue_replace_entries:
  "fst ` set (pq_iter (pq N) (queue_replace (pq N) q e p)) \<subseteq> insert e (fst ` set (pq_iter (pq N) q))"
proof (cases "pq_remove (pq N) q e")
  case None
  then show ?thesis using push_entries by (simp add: queue_replace_def)
next
  case (Some y)
  obtain x q' where y: "y = (x, q')" by fastforce
  have "set (pq_iter (pq N) q') \<subseteq> set (pq_iter (pq N) q)" using remove_subset Some y by simp
  then have "fst ` set (pq_iter (pq N) q') \<subseteq> fst ` set (pq_iter (pq N) q)" by (rule image_mono)
  moreover have "queue_replace (pq N) q e p = pq_push (pq N) q' e p" using Some y by (simp add: queue_replace_def)
  ultimately show ?thesis using push_entries [of q' e p] by (simp only:) blast
qed

lemma evict_loop_queue:
  "evict_loop N own fee cs s = (r, t) \<Longrightarrow> set (queue_items N t) \<subseteq> set (queue_items N s)"
proof (induction cs arbitrary: s)
  case (Cons c cs)
  show ?case
  proof (cases "\<exists>u tg xs y. user_states s c = Some u \<and> c \<noteq> own \<and> user_try_lock (lk N) c \<and>
      filter (\<lambda>x. sender (fst x) = c \<and> entry_fee (fst x) < fee) (queue_items N s) = tg # xs \<and>
      pq_remove (pq N) (batch_queue (batch_state s)) (fst tg) = Some y")
    case False
    then have "evict_loop N own fee cs s = (r, t)"
      using Cons.prems by (auto split: option.splits if_splits list.splits)
    then show ?thesis by (rule Cons.IH)
  next
    case True
    then obtain u tg xs e p q where rm: "pq_remove (pq N) (batch_queue (batch_state s)) (fst tg) = Some ((e, p), q)"
      and red: "evict_loop N own fee (c # cs) s =
         and_then (update_evicted_user_state_with_lock N ReadGuard e u (set_queue q s))
           (\<lambda>_ s. (Ret (Some e), notify (messaging_sink e) (SubmitResp UnderpricedProof) s))"
      by auto
    have "batch_state (snd (update_evicted_user_state_with_lock N ReadGuard e u (set_queue q s))) =
        batch_state (set_queue q s)"
      by (simp add: update_evicted_user_state_with_lock_def write_blocks_def Let_def split: option.splits prod.splits)
    then have "batch_queue (batch_state t) = q"
      using Cons.prems unfolding red
      by (cases "update_evicted_user_state_with_lock N ReadGuard e u (set_queue q s)" rule: prod.exhaust)
        (auto elim: and_then.elims)
    then show ?thesis using remove_subset [OF rm] by simp
  qed
qed simp

lemma add_and_count_entries:
  "add_and_count N nvd ws sig addr u s = (out, t) \<Longrightarrow>
   fst ` set (queue_items N t) \<subseteq> insert (new_entry N nvd ws sig addr) (fst ` set (queue_items N s))"
proof -
  assume "add_and_count N nvd ws sig addr u s = (out, t)"
  then have "queue_items N t = pq_iter (pq N) (pq_push (pq N) (batch_queue (batch_state s))
      (new_entry N nvd ws sig addr) (BatchQueueEntryPriority (max_fee nvd) (nonce nvd)))"
    by (auto simp: add_and_count_def add_to_batch_eq Let_def split: prod.splits)
  then show ?thesis using push_entries by metis
qed

lemma make_room_queue: "make_room N addr nvd ws s = (r, t) \<Longrightarrow> set (queue_items N t) \<subseteq> set (queue_items N s)"
proof (cases "is_queue_full (pq N) (batch_state s)")
  case True
  assume "make_room N addr nvd ws s = (r, t)"
  moreover obtain r' s' where e: "evict_loop N addr (max_fee nvd)
      (eviction_candidates (max_fee nvd) (queue_items N s)) s = (r', s')" by fastforce
  ultimately have "queue_items N t = queue_items N s'"
    using True by (cases r') (auto simp: make_room_def split: if_splits)
  then show ?thesis using evict_loop_queue [OF e] by simp
qed (simp add: make_room_def)

lemma handle_new_proof_entries:
  assumes h: "handle_new_proof N nvd ws sig addr u s = (out, t)"
    and e: "e \<in> fst ` set (queue_items N t)" "e \<notin> fst ` set (queue_items N s)"
  shows "e = new_entry N nvd ws sig addr \<and> max_fee nvd \<le> last_max_fee_limit u \<and>
    (pre_verification_is_enabled (cfg N) \<longrightarrow>
       \<not> is_verifier_disabled (disabled_verifiers s) (proving_system (verification_data nvd)) \<and>
       verify (zk N) (verification_data nvd))"
proof -
  obtain ok s1 where v: "verify_proof_if_enabled N (verification_data nvd) ws s = (ok, s1)" by fastforce
  have go: "ok \<and> max_fee nvd \<le> last_max_fee_limit u \<and> batch_lock (lk N)"
    using h e v verify_proof_core [OF v]
    by (auto simp: handle_new_proof_def try_batch_lock_with_timeout_def Let_def split: if_splits)
  obtain r s2 where mk: "make_room N addr nvd ws s1 = (r, s2)" by fastforce
  have vt: "s1 = s \<and> (pre_verification_is_enabled (cfg N) \<longrightarrow>
       \<not> is_verifier_disabled (disabled_verifiers s) (proving_system (verification_data nvd)) \<and>
       verify (zk N) (verification_data nvd))"
    using go v verify_proof_True [of N "verification_data nvd" ws s s1] by simp
  have "queue_items N t = queue_items N s2 \<or> add_and_count N nvd ws sig addr u s2 = (out, t)"
    using h v go mk
    by (cases r) (auto simp: handle_new_proof_def try_batch_lock_with_timeout_def Let_def split: if_splits)
  then have "fst ` set (queue_items N t) \<subseteq> insert (new_entry N nvd ws sig addr) (fst ` set (queue_items N s2))"
    using add_and_count_entries [of nvd ws sig addr u s2 out t] by auto
  moreover have "fst ` set (queue_items N s2) \<subseteq> fst ` set (queue_items N s)"
    using make_room_queue [OF mk] vt by (intro image_mono) simp
  ultimately have "e = new_entry N nvd ws sig addr" using e by blast
  then show ?thesis using go vt by blast
qed

lemma handle_replacement_entries:
  assumes h: "handle_replacement_message N nvd ws sig addr u s = (out, t)"
    and e: "e \<in> fst ` set (queue_items N t)" "e \<notin> fst ` set (queue_items N s)"
  obtains entry where "e = replacement_of N entry nvd sig ws"
    "get_entry (pq N) (batch_state s) addr (nonce nvd) = Some entry" "may_replace N entry nvd sig ws s"
    "pre_verification_is_enabled (cfg N) \<Longrightarrow>
       \<not> is_verifier_disabled (disabled_verifiers s) (proving_system (verification_data nvd))"
proof -
  obtain ok s1 where v: "verify_proof_if_enabled N (verification_data nvd) ws s = (ok, s1)" by fastforce
  have lock: "batch_lock (lk N)"
    by (rule ccontr) (use h e in \<open>auto simp: handle_replacement_message_def try_batch_lock_with_timeout_def Let_def\<close>)
  have "get_entry (pq N) (batch_state s) addr (nonce nvd) \<noteq> None"
    by (rule notI) (use h e lock in \<open>auto simp: handle_replacement_message_def try_batch_lock_with_timeout_def\<close>)
  then obtain entry where g: "get_entry (pq N) (batch_state s) addr (nonce nvd) = Some entry" by blast
  let ?r = "replacement_of N entry nvd sig ws"
  obtain least where b: "min_bump (min_bump_percentage (cfg N)) (entry_fee entry) = Some least"
    and go: "ok \<and> least \<le> max_fee nvd"
    using h e v verify_proof_core [OF v] lock g
    by (cases "min_bump (min_bump_percentage (cfg N)) (entry_fee entry)")
      (auto simp: handle_replacement_message_def try_batch_lock_with_timeout_def Let_def split: if_splits)
  note vt = verify_proof_True [of N "verification_data nvd" ws s s1]
  let ?s = "notify (messaging_sink entry) CloseSink (notify (messaging_sink entry) (SubmitResp ProofReplaced) s1)"
  have "replacement_entry_is_valid (pq N) (batch_state s) ?r"
    and ar: "apply_replacement N (entry_fee entry) ?r addr u ?s = (out, t)"
    using h e v vt lock g b go
    by (auto simp: handle_replacement_message_def try_batch_lock_with_timeout_def Let_def split: if_splits)
  then have "may_replace N entry nvd sig ws s" using v vt b go by (auto simp: may_replace_def)
  moreover have q: "queue_items N t = pq_iter (pq N) (queue_replace (pq N) (batch_queue (batch_state s)) ?r (prio_of ?r))"
    using ar v vt go by (auto simp: apply_replacement_def Let_def or_panic_def prio_of_def split: option.splits)
  have "e = ?r"
    using subsetD [OF queue_replace_entries e(1) [unfolded q]] e(2) by simp
  moreover have "\<not> is_verifier_disabled (disabled_verifiers s) (proving_system (verification_data nvd))"
    if "pre_verification_is_enabled (cfg N)"
    using that v vt go by simp
  ultimately show ?thesis using that g by metis
qed

end

section \<open>Properties of the handler\<close>

lemma queued_entry_guarded:
  assumes "batch_pq (pq N)" "handle_submit_proof_msg N m ws s = (out, t)"
    and "e \<in> fst ` set (queue_items N t)" "e \<notin> fst ` set (queue_items N s)"
  shows "\<exists>nvd u b. valid_submission N m s (sender e) nvd \<and> nonced_verification_data e = nvd \<and>
    entry_signature e = msg_signature m \<and> messaging_sink e = Some ws \<and>
    verification_data_commitment e = verification_data_into_commitment (keccak N) (verification_data nvd) \<and>
    cached_or_new N s (sender e) u \<and> nonce nvd \<le> us_nonce u \<and>
    get_user_balance (eth N) (sender e) = Some b \<and>
    unat (total_fees_in_queue u) + unat (max_fee nvd) \<le> unat b \<and>
    (pre_verification_is_enabled (cfg N) \<longrightarrow>
       \<not> is_verifier_disabled (disabled_verifiers s) (proving_system (verification_data nvd)) \<and>
       verify (zk N) (verification_data nvd)) \<and>
    (nonce nvd = us_nonce u \<and> max_fee nvd \<le> last_max_fee_limit u \<or>
     nonce nvd < us_nonce u \<and>
       (\<exists>old least. get_entry (pq N) (batch_state s) (sender e) (nonce nvd) = Some old \<and>
          min_bump (min_bump_percentage (cfg N)) (entry_fee old) = Some least \<and> least \<le> max_fee nvd \<and>
          replacement_entry_is_valid (pq N) (batch_state s) e))"
proof -
  note loc = batcher_queue.intro [OF assms(1)]
  from assms(2) show ?thesis
  proof (cases rule: handle_submit_cases)
    case early
    then show ?thesis using assms(3,4) by simp
  next
    case (no_change addr r s1 s2)
    then show ?thesis using assms(3,4) lock_user_state_cases(1) [OF no_change(3)] by simp
  next
    case (handled addr nvd u s1 s2 s3)
    have q: "batch_state s3 = batch_state s"
      using handled lock_user_state_cases(1) [OF handled(3)] by simp
    have u: "cached_or_new N s addr u"
      using lock_user_state_known [OF handled(3)] handled(2) by (simp add: cached_or_new_def)
    obtain b where b: "get_user_balance (eth N) addr = Some b"
      "unat (total_fees_in_queue u) + unat (max_fee nvd) \<le> unat b"
      using check_balance_Some [OF handled(9)] by blast
    from handled(10) show ?thesis
    proof (elim disjE conjE)
      assume n: "nonce nvd < us_nonce u"
        and h: "handle_replacement_message N nvd ws (msg_signature m) addr u s3 = (out, t)"
      obtain entry where en: "e = replacement_of N entry nvd (msg_signature m) ws"
        "get_entry (pq N) (batch_state s3) addr (nonce nvd) = Some entry"
        "may_replace N entry nvd (msg_signature m) ws s3"
        and dis: "pre_verification_is_enabled (cfg N) \<Longrightarrow>
          \<not> is_verifier_disabled (disabled_verifiers s3) (proving_system (verification_data nvd))"
        by (rule batcher_queue.handle_replacement_entries [OF loc h, of e]) (use assms(3,4) q in auto)
      then have "sender e = addr" using get_entry_Some [OF en(2)] by simp
      then show ?thesis
        using handled(7,8) en dis b u n q
        by (intro exI [of _ nvd] exI [of _ u] exI [of _ b]) (auto simp: may_replace_def replacement_of_def)
    next
      assume n: "nonce nvd = us_nonce u"
        and h: "handle_new_proof N nvd ws (msg_signature m) addr u s3 = (out, t)"
      show ?thesis
        using batcher_queue.handle_new_proof_entries [OF loc h, of e] assms(3,4) q handled(7,8) b u n
        by (intro exI [of _ nvd] exI [of _ u] exI [of _ b])
          (auto simp: new_entry_def BatchQueueEntry_new_def nonced_into_commitment_def)
    qed
  qed
qed

lemma queued_entry_checked:
  assumes "batch_pq (pq N)" "handle_submit_proof_msg N m ws s = (out, t)"
    and "e \<in> fst ` set (queue_items N t)" "e \<notin> fst ` set (queue_items N s)"
  shows "\<exists>nvd u b. valid_submission N m s (sender e) nvd \<and> nonced_verification_data e = nvd \<and>
    entry_signature e = msg_signature m \<and> messaging_sink e = Some ws \<and>
    verification_data_commitment e = verification_data_into_commitment (keccak N) (verification_data nvd) \<and>
    cached_or_new N s (sender e) u \<and> nonce nvd \<le> us_nonce u \<and>
    get_user_balance (eth N) (sender e) = Some b \<and>
    unat (total_fees_in_queue u) + unat (max_fee nvd) \<le> unat b \<and>
    (pre_verification_is_enabled (cfg N) \<longrightarrow>
       \<not> is_verifier_disabled (disabled_verifiers s) (proving_system (verification_data nvd)) \<and>
       verify (zk N) (verification_data nvd))"
  using queued_entry_guarded [OF assms] by blast

text \<open>
  Claim C5. Nothing enters the queue unchecked. Whatever the outcome of the handler, an entry that
  is queued after it and was not before is the submitted proof, signed by the payer (or by the
  configured non-paying address), for the right chain and payment contract, within the size limit,
  at or above the minimum fee, covered by the payer's locked balance together with all the fees already queued, and
  verified when pre-verification is on. Its nonce is the expected one and its fee is not above the limit of the user; or its
  nonce is a lower one, and then the user has a queued proof with that nonce, the fee is raised over
  that proof's by the configured percentage, and the order of the fees of the user is kept.
\<close>

theorem submit_accepts_only_valid:
  assumes "batch_pq (pq N)" "handle_submit_proof_msg N m ws s = (out, t)"
    and "e \<in> fst ` set (queue_items N t)" "e \<notin> fst ` set (queue_items N s)"
  shows "\<exists>nvd u b. valid_submission N m s (sender e) nvd \<and> nonced_verification_data e = nvd \<and>
    entry_signature e = msg_signature m \<and> messaging_sink e = Some ws \<and>
    verification_data_commitment e = verification_data_into_commitment (keccak N) (verification_data nvd) \<and>
    cached_or_new N s (sender e) u \<and> nonce nvd \<le> us_nonce u \<and>
    get_user_balance (eth N) (sender e) = Some b \<and>
    unat (total_fees_in_queue u) + unat (max_fee nvd) \<le> unat b \<and>
    (pre_verification_is_enabled (cfg N) \<longrightarrow>
       \<not> is_verifier_disabled (disabled_verifiers s) (proving_system (verification_data nvd)) \<and>
       verify (zk N) (verification_data nvd)) \<and>
    (nonce nvd = us_nonce u \<and> max_fee nvd \<le> last_max_fee_limit u \<or>
     nonce nvd < us_nonce u \<and>
       (\<exists>old least. get_entry (pq N) (batch_state s) (sender e) (nonce nvd) = Some old \<and>
          min_bump (min_bump_percentage (cfg N)) (entry_fee old) = Some least \<and> least \<le> max_fee nvd \<and>
          replacement_entry_is_valid (pq N) (batch_state s) e))"
  by (rule queued_entry_guarded [OF assms])

lemma sample_batch_pq: "batch_pq (pq sample_env)"
  using lbq.batch_pq_axioms by simp

interpretation sample_bq: batcher_queue sample_env
  by (rule batcher_queue.intro) (rule sample_batch_pq)

theorem submit_accepts_only_valid_witness:
  "valid_submission sample_env (sample_msg 1 0 600000) (sample_state [] 10 (\<lambda>_. None)) 1
     (nonced_verification_data (sample_entry 1 0 600000))"
  using submit_accepts_only_valid [OF sample_batch_pq sample_submit, of "sample_entry 1 0 600000"] by auto

lemma sample_empty_inv:
  "held_inv sample_env [] (sample_state [] k (\<lambda>_. None))" "fee_inv sample_env [] (sample_state [] k (\<lambda>_. None))"
  "\<not> is_queue_full (pq sample_env) (batch_state (sample_state [] 10 (\<lambda>_. None)))"
  by (simp_all add: held_inv_def books_ok_def acct_ok_def fee_inv_def fees_ok_def fee_order_def limits_ok_def
      is_queue_full_def)

text \<open>
  Claim C18. Submitting a proof, a new one or a replacement, to a queue that is not full, while no batch is
  in flight and the books balance, keeps the fees of each user from increasing with the nonce, and the user's limit at most the
  least of them. (On a full queue the eviction sets the limit to the fee of any one of the user's queued proofs, and the
  invariant can fail.)
\<close>

theorem submit_keeps_fee_order:
  assumes "batch_pq (pq N)" "held_inv N [] s" "fee_inv N [] s" "\<not> is_queue_full (pq N) (batch_state s)"
    and "handle_submit_proof_msg N m ws s = (Ret (), t)"
  shows "fee_inv N [] t"
  using batcher_queue.handle_submit_inv(2) [OF batcher_queue.intro] assms by blast

theorem submit_keeps_fee_order_witness:
  "fee_inv sample_env [] (snd (handle_submit_proof_msg sample_env (sample_msg 1 0 600000) 1
     (sample_state [] 10 (\<lambda>_. None))))"
  using submit_keeps_fee_order [OF sample_batch_pq sample_empty_inv sample_submit]
  unfolding sample_submit snd_conv .

end
