(* ===== verification/New_Block_Correct.thy ===== *)
theory New_Block_Correct
  imports Submit_Correct
begin

text \<open>
  Correctness of the batch cycle (\<open>New_Block\<close>): extraction, the two ways a finalization ends, and
  the answers to the clients. The batch in flight is a list of entries; \<open>items_of\<close> gives each the
  priority it was queued with.
\<close>

definition items_of :: "BatchQueueEntry list \<Rightarrow> item list" where
  "items_of es = map (\<lambda>e. (e, prio_of e)) es"

lemma items_of_simps [simp]:
  "items_of [] = []" "items_of (e # es) = (e, prio_of e) # items_of es"
  "items_of (es @ fs) = items_of es @ items_of fs" "fst ` set (items_of es) = set es"
  "map fst (items_of es) = es" "set (items_of es) = (\<lambda>e. (e, prio_of e)) ` set es"
  by (auto simp: items_of_def image_image comp_def)

section \<open>Refreshing user states\<close>

lemma update_user_states_spec:
  assumes "calculate_new_user_states_data (pq N) (batch_queue (batch_state s)) = Some d" "distinct as"
  shows "\<exists>t. update_user_states_from_queue_state N as s = (Ret (), t) \<and> batch_state t = batch_state s \<and>
     posting_batch t = posting_batch s \<and> outbox t = outbox s \<and>
     user_states t = (\<lambda>a. if a \<in> set as then map_option (refreshed (d a)) (user_states s a)
                          else user_states s a)"
  using assms
proof (induction as arbitrary: s)
  case (Cons a as)
  show ?case
  proof (cases "user_states s a")
    case None
    then have "update_user_states_from_queue_state N (a # as) s = update_user_states_from_queue_state N as s"
      by simp
    then show ?thesis using Cons.IH [of s] Cons.prems None by (auto simp: fun_eq_iff)
  next
    case (Some u)
    let ?s = "set_user a (refreshed (d a) u) s"
    have "update_user_states_from_queue_state N (a # as) s = update_user_states_from_queue_state N as ?s"
      using Some Cons.prems(1) by simp
    moreover have "\<exists>t. update_user_states_from_queue_state N as ?s = (Ret (), t) \<and> batch_state t = batch_state ?s \<and>
        posting_batch t = posting_batch ?s \<and> outbox t = outbox ?s \<and>
        user_states t = (\<lambda>b. if b \<in> set as then map_option (refreshed (d b)) (user_states ?s b)
                             else user_states ?s b)"
      by (rule Cons.IH) (use Cons.prems in simp_all)
    ultimately show ?thesis using Some Cons.prems(2) by (auto simp: fun_eq_iff)
  qed
qed (auto simp: fun_eq_iff)

lemma held_fees_bounded:
  assumes "acct_ok (xs @ fl) us"
  shows "fees_sum (entries_of a xs) < 2 ^ 256"
proof (cases "us a")
  case None
  then have "entries_of a xs = []" using acct_ok_absent [OF assms None] by simp
  then show ?thesis by simp
next
  case (Some u)
  then have "fees_sum (entries_of a xs) \<le> unat (total_fees_in_queue u)"
    using acct_okD [OF assms Some] by (simp add: accounted_def)
  also have "\<dots> < 2 ^ 256" using unsigned_less [of "total_fees_in_queue u"] by simp
  finally show ?thesis .
qed

text \<open>
  Refreshing the users of the batch in flight from the queue takes the batch off the books, and
  sets their limits to the least fee they have queued.
\<close>

lemma acct_ok_refresh:
  assumes known: "\<And>x. x \<in> set xs \<Longrightarrow> \<exists>u. us (sender (fst x)) = Some u \<and> entry_nonce (fst x) < us_nonce u"
    and others: "\<And>b u. b \<notin> set as \<Longrightarrow> us b = Some u \<Longrightarrow> accounted u (entries_of b xs)"
    and d: "\<And>a. data_for d a (entries_of a xs)"
  shows "acct_ok xs (\<lambda>b. if b \<in> set as then map_option (refreshed (d b)) (us b) else us b)" (is "acct_ok _ ?us")
proof -
  have "accounted u (entries_of b xs)" if u: "?us b = Some u" for b u
  proof (cases "b \<in> set as")
    case True
    then obtain v where v: "us b = Some v" "u = refreshed (d b) v" using u by auto
    have "entry_nonce (fst x) < us_nonce v" if "x \<in> set (entries_of b xs)" for x
      using known [of x] that v(1) by (auto simp: set_entries_of)
    then show ?thesis using accounted_refreshed(1) [OF d] v(2) by blast
  qed (use others u in auto)
  moreover have "?us (sender (fst x)) \<noteq> None" if "x \<in> set xs" for x using known [OF that] by auto
  ultimately show ?thesis by (simp add: acct_ok_def)
qed

lemma limits_ok_refresh:
  assumes l: "\<And>x u. x \<in> set xs \<Longrightarrow> sender (fst x) \<notin> set as \<Longrightarrow> us (sender (fst x)) = Some u \<Longrightarrow>
      last_max_fee_limit u \<le> entry_fee (fst x)"
    and d: "\<And>a. data_for d a (entries_of a xs)"
  shows "limits_ok xs (\<lambda>b. if b \<in> set as then map_option (refreshed (d b)) (us b) else us b)"
  unfolding limits_ok_def
proof (intro ballI allI impI)
  fix x u
  assume x: "x \<in> set xs"
    and u: "(if sender (fst x) \<in> set as then map_option (refreshed (d (sender (fst x)))) (us (sender (fst x)))
             else us (sender (fst x))) = Some u"
  show "last_max_fee_limit u \<le> entry_fee (fst x)"
  proof (cases "sender (fst x) \<in> set as")
    case True
    have "\<forall>y \<in> set (entries_of (sender (fst x)) xs).
        last_max_fee_limit (refreshed (d (sender (fst x))) v) \<le> entry_fee (fst y)" for v
      using d [of "sender (fst x)"] by (auto simp: data_for_def refreshed_def split: option.splits)
    moreover have "x \<in> set (entries_of (sender (fst x)) xs)" using x by (simp add: set_entries_of)
    ultimately show ?thesis using True u by auto
  qed (use l x u in auto)
qed

text \<open>The cleanup after a submission touches only limits of users without queued proofs.\<close>

lemma cleanup_loop_frame:
  "batch_state (cleanup_loop N d as s) = batch_state s" "posting_batch (cleanup_loop N d as s) = posting_batch s"
  "outbox (cleanup_loop N d as s) = outbox s"
  by (induction as arbitrary: s) (auto split: option.splits)

lemma cleanup_loop_users:
  "user_states (cleanup_loop N d as s) a = user_states s a \<or>
   d a = None \<and> (\<exists>u. user_states s a = Some u \<and>
     user_states (cleanup_loop N d as s) a = Some (u\<lparr>last_max_fee_limit := u256_max\<rparr>))"
proof (induction as arbitrary: s)
  case (Cons b as)
  let ?s = "if d b = None then (case user_states s b of
        Some u \<Rightarrow> if user_try_lock (lk N) b then set_user b (u\<lparr>last_max_fee_limit := u256_max\<rparr>) s else s
      | None \<Rightarrow> s) else s"
  have "user_states ?s a = user_states s a \<or> d a = None \<and> (\<exists>u. user_states s a = Some u \<and>
      user_states ?s a = Some (u\<lparr>last_max_fee_limit := u256_max\<rparr>))"
    by (auto split: option.splits)
  then show ?case using Cons.IH [of ?s] by auto
qed simp

lemma cleanup_loop_others:
  "a \<notin> set as \<Longrightarrow> user_states (cleanup_loop N d as s) a = user_states s a"
  by (induction as arbitrary: s) (auto split: option.splits)

lemma cleanup_books:
  assumes d: "\<And>a. data_for d a (entries_of a xs)"
    and us: "\<And>a. us' a = us a \<or> d a = None \<and> (\<exists>u. us a = Some u \<and> us' a = Some (u\<lparr>last_max_fee_limit := m\<rparr>))"
  shows "acct_ok xs us \<Longrightarrow> acct_ok xs us'" "limits_ok xs us \<Longrightarrow> limits_ok xs us'"
proof -
  assume a: "acct_ok xs us"
  have empty: "entries_of a xs = []" if "d a = None" for a
    using d [of a] that by (simp add: data_for_def)
  have "accounted u (entries_of a xs)" if u: "us' a = Some u" for a u
  proof (cases "us' a = us a")
    case True
    then show ?thesis using acct_okD [OF a, of a u] u by simp
  next
    case False
    then obtain v where "d a = None" "us a = Some v" "u = v\<lparr>last_max_fee_limit := m\<rparr>"
      using us [of a] u by auto
    then show ?thesis using acct_okD [OF a, of a v] empty [of a] by (simp add: accounted_def)
  qed
  moreover have "us' (sender (fst x)) \<noteq> None" if "x \<in> set xs" for x
    using us [of "sender (fst x)"] that a by (auto simp: acct_ok_def)
  ultimately show "acct_ok xs us'" by (simp add: acct_ok_def)
next
  assume l: "limits_ok xs us"
  show "limits_ok xs us'"
    unfolding limits_ok_def
  proof (intro ballI allI impI)
    fix x u assume x: "x \<in> set xs" "us' (sender (fst x)) = Some u"
    have "entries_of (sender (fst x)) xs \<noteq> []" using x(1) by (metis (mono_tags, lifting) empty_iff empty_set mem_Collect_eq set_entries_of)
    then have "d (sender (fst x)) \<noteq> None"
      using d [of "sender (fst x)"] by (cases "d (sender (fst x))") (simp_all add: data_for_def)
    then show "last_max_fee_limit u \<le> entry_fee (fst x)"
      using us [of "sender (fst x)"] x l by (auto simp: limits_ok_def)
  qed
qed

text \<open>
  What is needed to bring the books back into balance with the entries \<open>xs @ fl\<close>: the users
  outside \<open>fl\<close> are accounted for \<open>xs\<close>, and every entry's nonce is below its sender's next one.
\<close>

definition restorable :: "item list \<Rightarrow> item list \<Rightarrow> (address \<rightharpoonup> UserState) \<Rightarrow> bool" where
  "restorable xs fl us \<longleftrightarrow>
     prio_ok (xs @ fl) \<and> distinct (map (entry_key \<circ> fst) (xs @ fl)) \<and>
     (\<forall>x \<in> set (xs @ fl). \<exists>u. us (sender (fst x)) = Some u \<and> entry_nonce (fst x) < us_nonce u) \<and>
     (\<forall>a u. us a = Some u \<longrightarrow> a \<notin> sender ` fst ` set fl \<longrightarrow> accounted u (entries_of a xs)) \<and>
     (\<forall>a. fees_sum (entries_of a (xs @ fl)) < 2 ^ 256)"

lemma books_restorable:
  assumes "books_ok (xs @ fl) us"
  shows "restorable xs fl us"
proof -
  have a: "acct_ok (xs @ fl) us" using assms by (simp add: books_ok_def)
  have "\<exists>u. us (sender (fst x)) = Some u \<and> entry_nonce (fst x) < us_nonce u" if "x \<in> set (xs @ fl)" for x
  proof -
    have "us (sender (fst x)) \<noteq> None" using a that unfolding acct_ok_def by blast
    then show ?thesis using acct_ok_nonce [OF a that] by blast
  qed
  moreover have "accounted u (entries_of a xs)" if "us a = Some u" "a \<notin> sender ` fst ` set fl" for a u
  proof -
    have "entries_of a fl = []" using that(2) by (intro entries_of_empty) auto
    then show ?thesis using acct_okD [OF a that(1)] by simp
  qed
  moreover have "fees_sum (entries_of a (xs @ fl)) < 2 ^ 256" for a
    using held_fees_bounded [of "xs @ fl" "[]" us a] a by simp
  ultimately show ?thesis using assms by (simp add: restorable_def books_ok_def)
qed

lemma restorable_users:
  assumes "restorable xs fl us" "\<And>a. map_option us_nonce (us' a) = map_option us_nonce (us a)"
    and "\<And>a. a \<notin> sender ` fst ` set fl \<Longrightarrow> us' a = us a"
  shows "restorable xs fl us'"
proof -
  have "\<exists>u. us' (sender (fst x)) = Some u \<and> entry_nonce (fst x) < us_nonce u" if x: "x \<in> set (xs @ fl)" for x
  proof -
    obtain u where u: "us (sender (fst x)) = Some u" "entry_nonce (fst x) < us_nonce u"
      using assms(1) x unfolding restorable_def by blast
    then show ?thesis using assms(2) [of "sender (fst x)"] by (cases "us' (sender (fst x))") auto
  qed
  then show ?thesis using assms(1,3) by (auto simp: restorable_def)
qed

lemma restorable_refresh:
  assumes r: "restorable xs fl us" and d: "\<And>a. data_for d a (entries_of a ys)"
    and as: "set as = sender ` fst ` set fl" and ys: "mset ys = mset xs \<or> mset ys = mset (xs @ fl)"
  defines "us' \<equiv> \<lambda>b. if b \<in> set as then map_option (refreshed (d b)) (us b) else us b"
  shows "books_ok ys us'"
    and "fee_order (xs @ fl) \<Longrightarrow> limits_ok xs us \<Longrightarrow> fees_ok ys us'"
proof -
  have sub: "set ys \<subseteq> set (xs @ fl)"
    using ys mset_eq_set [of ys xs] mset_eq_set [of ys "xs @ fl"] by auto
  have away: "mset (entries_of b ys) = mset (entries_of b xs)" if "b \<notin> set as" for b
  proof -
    have "entries_of b fl = []" using that as by (intro entries_of_empty) auto
    then show ?thesis using ys entries_of_mset [of ys xs b] entries_of_mset [of ys "xs @ fl" b] by auto
  qed
  have "acct_ok ys us'"
    unfolding us'_def
  proof (rule acct_ok_refresh [OF _ _ d])
    show "\<exists>u. us (sender (fst x)) = Some u \<and> entry_nonce (fst x) < us_nonce u" if "x \<in> set ys" for x
      using r sub that by (auto simp: restorable_def)
    show "accounted u (entries_of b ys)" if "b \<notin> set as" "us b = Some u" for b u
      using r that as accounted_mset [OF away [OF that(1)]] by (simp add: restorable_def)
  qed
  moreover have "prio_ok ys \<and> distinct (map (entry_key \<circ> fst) ys)"
    using r ys prio_ok_mset [of ys xs] prio_ok_mset [of ys "xs @ fl"]
      distinct_map_mset [of ys xs "entry_key \<circ> fst"] distinct_map_mset [of ys "xs @ fl" "entry_key \<circ> fst"]
    by (auto simp: restorable_def prio_ok_def)
  ultimately show "books_ok ys us'" by (simp add: books_ok_def)
  assume o: "fee_order (xs @ fl)" and l: "limits_ok xs us"
  have "limits_ok ys us'"
    unfolding us'_def
  proof (rule limits_ok_refresh [OF _ d])
    fix x u assume x: "x \<in> set ys" "sender (fst x) \<notin> set as" "us (sender (fst x)) = Some u"
    have "x \<in> set xs" using x sub as by auto
    then show "last_max_fee_limit u \<le> entry_fee (fst x)" using l x(3) by (simp add: limits_ok_def)
  qed
  moreover have "fee_order ys" using o sub unfolding fee_order_def by blast
  ultimately show "fees_ok ys us'" by (simp add: fees_ok_def)
qed

section \<open>The parts of a finalization\<close>

lemma retry_function_ex: "\<exists>n. retry_function B f m = f n"
  by (auto simp: retry_function_def)

text \<open>The state a failed or successful submission leaves: only metrics change.\<close>

lemma create_new_task_frame:
  "create_new_task N a s = (r, t) \<Longrightarrow>
   batch_state t = batch_state s \<and> user_states t = user_states s \<and> posting_batch t = posting_batch s \<and> outbox t = outbox s"
  by (auto simp: create_new_task_def Let_def split: sum.splits RetryError.splits BatcherError.splits option.splits)

lemma upload_frame:
  "upload_batch_to_multiple_s3 N b f s = (r, t) \<Longrightarrow>
   batch_state t = batch_state s \<and> user_states t = user_states s \<and> posting_batch t = posting_batch s \<and> outbox t = outbox s"
  by (auto simp: upload_batch_to_multiple_s3_def Let_def split: if_splits)

lemma submit_batch_frame:
  assumes "submit_batch N bytes root leaves es gp s = (r, t)"
  shows "batch_state t = batch_state s \<and> user_states t = user_states s \<and> posting_batch t = posting_batch s \<and> outbox t = outbox s"
proof -
  obtain x s1 where u: "upload_batch_to_multiple_s3 N bytes (hex_encode (hex (eth N)) root @ ''.json'') s = (x, s1)"
    by fastforce
  have s1: "batch_state s1 = batch_state s \<and> user_states s1 = user_states s \<and> posting_batch s1 = posting_batch s \<and> outbox s1 = outbox s"
    by (rule upload_frame [OF u])
  have *: "batch_state t' = batch_state s2 \<and> user_states t' = user_states s2 \<and> posting_batch t' = posting_batch s2 \<and> outbox t' = outbox s2"
    if "and_then (create_new_task N a s2) (\<lambda>r s. case r of
          Inr _ \<Rightarrow> (Ret (Inr ()), s\<lparr>metrics := f s\<rparr>) | Inl e \<Rightarrow> (Ret (Inl e), s\<lparr>metrics := g s\<rparr>)) = (r', t')"
    for a f g s2 r' t'
  proof -
    obtain c s3 where "create_new_task N a s2 = (c, s3)" by fastforce
    with that create_new_task_frame [OF this] show ?thesis by (cases c) (auto split: sum.splits)
  qed
  show ?thesis
    using assms u s1 by (auto simp: submit_batch_def Let_def or_panic_def split: sum.splits option.splits dest!: *)
qed

lemma retryable_errors:
  "create_new_task_retryable E a i = Inl e \<Longrightarrow> \<exists>x. inner e = TransactionSendErr x \<or> inner e = ReceiptNotFoundError"
  "simulate_create_new_task_retryable E a i = Inl e \<Longrightarrow> \<exists>x. inner e = TransactionSendErr x"
  by (auto simp: create_new_task_retryable_def simulate_create_new_task_retryable_def revert_error_def
      wait_for_receipt_def split: contract_result.splits wait_result.splits)

lemma create_new_task_errors:
  assumes "create_new_task N a s = (Ret (Inl e), t)"
  shows "\<exists>x. e = TransactionSendErr x \<or> e = ReceiptNotFoundError"
proof -
  let ?f = "create_new_task_retryable (eth N) a"
  obtain n where n: "retry_function (driver (eth N)) ?f ETHEREUM_CALL_MAX_RETRIES = ?f n"
    using retry_function_ex by blast
  show ?thesis
  proof (cases "?f n")
    case (Inl er)
    then have "e = inner er \<or> e = ReceiptNotFoundError"
      using assms n by (auto simp: create_new_task_def Let_def
          split: RetryError.splits BatcherError.splits sum.splits option.splits)
    then show ?thesis using retryable_errors(1) [OF Inl] by auto
  qed (use assms n in \<open>simp add: create_new_task_def\<close>)
qed

lemma simulate_errors:
  assumes "simulate_create_new_task N a = Inl e"
  shows "\<exists>x. e = TransactionSendErr x"
proof -
  let ?f = "simulate_create_new_task_retryable (eth N) a"
  obtain n where n: "retry_function (driver (eth N)) ?f ETHEREUM_CALL_MAX_RETRIES = ?f n"
    using retry_function_ex by blast
  then show ?thesis
    using assms retryable_errors(2) [of "eth N" a n] by (cases "?f n") (auto simp: simulate_create_new_task_def)
qed

text \<open>The steps of \<open>submit_batch\<close> after the upload.\<close>

lemma submit_batch_errors:
  assumes "submit_batch N bytes root leaves es gp s = (Ret (Inl e), t)"
  shows "\<exists>x m. e = TransactionSendErr x \<or> e = ReceiptNotFoundError \<or> e = BatchUploadError m"
proof -
  obtain x s1 where u: "upload_batch_to_multiple_s3 N bytes (hex_encode (hex (eth N)) root @ ''.json'') s = (x, s1)"
    by fastforce
  show ?thesis
  proof (cases x)
    case (Inl e')
    then show ?thesis
      using assms u by (auto simp: submit_batch_def upload_batch_to_multiple_s3_def Let_def split: if_splits)
  next
    case (Inr p)
    obtain fp where fp: "create_new_task_fee_params (aggregator_fee_percentage_multiplier (cfg N))
        (aggregator_gas_cost (cfg N)) (length leaves) gp = Some fp"
      using assms u Inr by (auto simp: submit_batch_def or_panic_Ret_iff)
    let ?a = "\<lparr> ta_merkle_root = root, ta_data_pointer = p, ta_proof_submitters = map sender es, ta_fee_params = fp \<rparr>"
    have "simulate_create_new_task N ?a = Inl e \<or> (\<exists>s2 s3. create_new_task N ?a s2 = (Ret (Inl e), s3))"
    proof (cases "simulate_create_new_task N ?a")
      case (Inr v)
      then obtain s2 r s3 where "create_new_task N ?a s2 = (Ret r, s3)"
          "(case r of Inr _ \<Rightarrow> (Ret (Inr ()), s3\<lparr>metrics := (metrics s3)\<lparr>sent_batches := Suc (sent_batches (metrics s3))\<rparr>\<rparr>)
            | Inl e \<Rightarrow> (Ret (Inl e), s3\<lparr>metrics := (metrics s3)\<lparr>reverted_batches := Suc (reverted_batches (metrics s3))\<rparr>\<rparr>))
           = (Ret (Inl e), t)"
        using assms u \<open>x = Inr p\<close> fp
        by (simp add: submit_batch_def Let_def or_panic_Ret_iff and_then_Ret_iff) blast
      then have "create_new_task N ?a s2 = (Ret (Inl e), s3)" by (cases r) auto
      then show ?thesis by blast
    qed (use assms u Inr fp in \<open>simp add: submit_batch_def\<close>)
    then show ?thesis using simulate_errors create_new_task_errors by blast
  qed
qed

lemma inclusion_loop_frame:
  "inclusion_loop N tr xs s = (r, t) \<Longrightarrow>
   batch_state t = batch_state s \<and> user_states t = user_states s \<and> posting_batch t = posting_batch s"
  by (induction N tr xs s rule: inclusion_loop.induct)
    (auto simp: or_panic_def split: option.splits sum.splits)

end
