(* ===== verification/Batch_Cycle.thy ===== *)
theory Batch_Cycle
  imports New_Block_Correct
begin

text \<open>
  The batch cycle as a whole: what extraction takes from the queue, how a finalization can end, and
  that neither the restoration of a failed batch nor a successful submission unbalances the books.
\<close>

section \<open>Extraction\<close>

abbreviation batch_constant_cost :: "('q, 't) batcher_env \<Rightarrow> u128" where
  "batch_constant_cost N \<equiv>
     constant_gas_cost (aggregator_fee_percentage_multiplier (cfg N)) (aggregator_gas_cost (cfg N))"

text \<open>What a batch taken for posting satisfies.\<close>

definition batch_ready :: "('q, 't) batcher_env \<Rightarrow> u256 \<Rightarrow> BatchQueueEntry list \<Rightarrow> bool" where
  "batch_ready N gp batch \<longleftrightarrow>
     postable gp (max_batch_byte_size (cfg N)) (max_batch_proof_qty (cfg N)) (batch_constant_cost N) batch"

definition in_flight :: "BatchQueueEntry list option \<Rightarrow> item list" where
  "in_flight taken = (case taken of None \<Rightarrow> [] | Some batch \<Rightarrow> items_of batch)"

lemma held_inv_prio_ok: "held_inv N fl s \<Longrightarrow> prio_ok (queue_items N s)"
  by (auto simp: held_inv_def books_ok_def prio_ok_def)

context batcher_queue
begin

lemma extract_if_ready_cases:
  assumes "prio_ok (queue_items N s)" "fees_defined gp (batch_constant_cost N) (length (queue_items N s))"
  obtains (not_ready) t where "extract_batch_if_ready N b gp s = (Ret None, t)"
      "mset (queue_items N t) = mset (queue_items N s)" "user_states t = user_states s"
      "posting_batch t = posting_batch s" "max_size (batch_state t) = max_size (batch_state s)"
      "outbox t = outbox s"
    | (ready) batch t where "extract_batch_if_ready N b gp s = (Ret (Some batch), t)"
      "\<not> posting_batch s" "posting_batch t" "batch_ready N gp batch"
      "mset (queue_items N s) = mset (items_of batch) + mset (queue_items N t)"
      "\<And>x e. x \<in> set (queue_items N t) \<Longrightarrow> e \<in> set batch \<Longrightarrow> entry_fee (fst x) \<le> entry_fee e"
      "user_states t = user_states s" "max_size (batch_state t) = max_size (batch_state s)"
      "outbox t = outbox s" "last_uploaded_batch_block s + min_block_interval (cfg N) \<le> b"
proof (cases "pq_len (pq N) (batch_queue (batch_state s)) < 1 \<or>
    b < last_uploaded_batch_block s + min_block_interval (cfg N) \<or> posting_batch s")
  case True
  then have "extract_batch_if_ready N b gp s = (Ret None, s)" by (auto simp: extract_batch_if_ready_def Let_def)
  then show ?thesis by (rule not_ready) simp_all
next
  case False
  let ?q = "batch_queue (batch_state s)"
  obtain r q' where e: "extract_batch_directly (pq N) ?q gp (max_batch_byte_size (cfg N))
      (max_batch_proof_qty (cfg N)) (batch_constant_cost N) = (Ret r, q')"
    and spec: "case r of
       Inr batch \<Rightarrow> batch_ready N gp batch \<and>
          mset (pq_iter (pq N) ?q) = mset (items_of batch) + mset (pq_iter (pq N) q') \<and>
          (\<forall>x \<in> set (pq_iter (pq N) q'). \<forall>e \<in> set batch. entry_fee (fst x) \<le> entry_fee e)
     | Inl err \<Rightarrow> err = BatchCostTooHigh \<and> mset (pq_iter (pq N) q') = mset (pq_iter (pq N) ?q)"
    unfolding batch_ready_def items_of_def
    using extract_directly_spec [OF assms, of "max_batch_byte_size (cfg N)" "max_batch_proof_qty (cfg N)"] by blast
  show ?thesis
  proof (cases r)
    case (Inl err)
    show ?thesis
      by (rule not_ready [of "(set_queue q' (s\<lparr>posting_batch := True\<rparr>))\<lparr>posting_batch := False\<rparr>"])
        (use False e Inl spec in \<open>auto simp: extract_batch_if_ready_def Let_def set_queue_def\<close>)
  next
    case (Inr batch)
    show ?thesis
      by (rule ready [of batch "update_queue_metrics (pq_len (pq N) q')
                 (case calculate_batch_size (pq N) q' of Inr n \<Rightarrow> n | Inl _ \<Rightarrow> 0)
                 (set_queue q' (s\<lparr>posting_batch := True\<rparr>))"])
        (use False e Inr spec in \<open>auto simp: extract_batch_if_ready_def Let_def set_queue_def update_queue_metrics_def\<close>)
  qed
qed

text \<open>What is in flight after an extraction.\<close>

lemma extract_held:
  assumes "held_inv N [] s" "fees_defined gp (batch_constant_cost N) (length (queue_items N s))"
    and "extract_batch_if_ready N b gp s = (r, t)"
  shows "\<exists>taken. r = Ret taken \<and> held_inv N (in_flight taken) t \<and>
    (fee_inv N [] s \<longrightarrow> fee_inv N (in_flight taken) t)"
proof (rule extract_if_ready_cases [OF held_inv_prio_ok [OF assms(1)] assms(2), of b])
  fix t'
  assume e: "extract_batch_if_ready N b gp s = (Ret None, t')"
    "mset (queue_items N t') = mset (queue_items N s)" "user_states t' = user_states s"
  then have "held_inv N [] t" "fee_inv N [] s \<Longrightarrow> fee_inv N [] t" "r = Ret None"
    using assms books_ok_mset [of "queue_items N t'" "queue_items N s"] fees_ok_mset [of "queue_items N t'" "queue_items N s"]
    by (auto simp: held_inv_def fee_inv_def)
  then show ?thesis by (intro exI [of _ None]) (simp add: in_flight_def)
next
  fix batch t'
  assume e: "extract_batch_if_ready N b gp s = (Ret (Some batch), t')"
    "mset (queue_items N s) = mset (items_of batch) + mset (queue_items N t')" "user_states t' = user_states s"
  let ?xs = "queue_items N t' @ items_of batch"
  have m: "mset (queue_items N s) = mset ?xs" using e(2) by simp
  then have "held_inv N (items_of batch) t" "fee_inv N [] s \<Longrightarrow> fee_inv N (items_of batch) t" "r = Ret (Some batch)"
    using assms e(1,3) books_ok_mset [OF m] fees_ok_mset [OF m] by (auto simp: held_inv_def fee_inv_def)
  then show ?thesis by (intro exI [of _ "Some batch"]) (simp add: in_flight_def)
qed

section \<open>Success\<close>

lemma refresh_spec:
  assumes r: "restorable xs (items_of batch) (user_states s)"
    and q: "mset (queue_items N s) = mset xs \<or> mset (queue_items N s) = mset (xs @ items_of batch)"
  obtains t where "update_user_states_from_queue_state N (senders_of batch) s = (Ret (), t)"
    "batch_state t = batch_state s" "posting_batch t = posting_batch s" "outbox t = outbox s" "held_inv N [] t"
    "fee_order (xs @ items_of batch) \<Longrightarrow> limits_ok xs (user_states s) \<Longrightarrow> fee_inv N [] t"
    "restorable xs (items_of batch) (user_states t)"
proof -
  have "fees_sum (entries_of a (queue_items N s)) < 2 ^ 256" for a
  proof -
    have "fees_sum (entries_of a (queue_items N s)) \<le> fees_sum (entries_of a (xs @ items_of batch))"
      using q fees_sum_mset [OF entries_of_mset] by (metis (no_types, lifting) entries_of_simps(3) fees_sum_simps(3) le_add1 order_refl)
    also have "\<dots> < 2 ^ 256" using r unfolding restorable_def by blast
    finally show ?thesis .
  qed
  then obtain d where d: "calculate_new_user_states_data (pq N) (batch_queue (batch_state s)) = Some d"
    "\<And>a. data_for d a (entries_of a (queue_items N s))"
    by (rule calculate_new_user_states_data_spec) blast
  let ?us = "\<lambda>a. if a \<in> set (senders_of batch) then map_option (refreshed (d a)) (user_states s a) else user_states s a"
  obtain t where t: "update_user_states_from_queue_state N (senders_of batch) s = (Ret (), t)"
    "batch_state t = batch_state s" "posting_batch t = posting_batch s" "outbox t = outbox s" "user_states t = ?us"
    using update_user_states_spec [OF d(1), of "senders_of batch"] by (auto simp: senders_of_def)
  have as: "set (senders_of batch) = sender ` fst ` set (items_of batch)" by (simp add: senders_of_def image_image)
  note rr = restorable_refresh [OF r d(2) as q]
  have "restorable xs (items_of batch) (user_states t)"
    by (rule restorable_users [OF r])
      (use as in \<open>auto simp: t(5) refreshed_def option.map_comp comp_def split: option.splits prod.splits intro!: option.map_cong0\<close>)
  then show ?thesis
    using that [OF t(1,2,3,4)] rr t(2,5) by (simp add: held_inv_def fee_inv_def)
qed

lemma cleanup_spec:
  assumes h: "held_inv N [] s" and r: "restorable xs (items_of batch) (user_states s)"
  obtains t where "cleanup_user_states_after_successful_submission N batch s = (Ret (), t)"
    "batch_state t = batch_state s" "posting_batch t = posting_batch s" "outbox t = outbox s" "held_inv N [] t"
    "fee_inv N [] s \<Longrightarrow> fee_inv N [] t" "restorable xs (items_of batch) (user_states t)"
proof (cases "batch_try_lock (lk N)")
  case False
  then show ?thesis
    using that [of s] h r by (simp add: cleanup_user_states_after_successful_submission_def)
next
  case True
  have a: "acct_ok (queue_items N s) (user_states s)" using inv_acct [OF h] by simp
  obtain d where d: "calculate_new_user_states_data (pq N) (batch_queue (batch_state s)) = Some d"
    "\<And>a. data_for d a (entries_of a (queue_items N s))"
    using calculate_new_user_states_data_spec held_fees_bounded [of _ "[]"] a by (metis append_Nil2)
  let ?t = "cleanup_loop N d (senders_of batch) s"
  note us = cleanup_loop_users [of N d "senders_of batch" s]
  note books = cleanup_books [OF d(2) us]
  have "restorable xs (items_of batch) (user_states ?t)"
  proof (rule restorable_users [OF r])
    show "map_option us_nonce (user_states ?t a) = map_option us_nonce (user_states s a)" for a
      using us [of a] by auto
    show "user_states ?t a = user_states s a" if "a \<notin> sender ` fst ` set (items_of batch)" for a
      using that by (intro cleanup_loop_others) (simp add: senders_of_def image_image)
  qed
  then show ?thesis
    using that [of ?t] True d(1) h books
    by (simp add: cleanup_user_states_after_successful_submission_def cleanup_loop_frame held_inv_def
        fee_inv_def books_ok_def fees_ok_def)
qed

section \<open>Restoration\<close>

lemma restore_loop_room:
  assumes "distinct (map (entry_key \<circ> fst) (queue_items N s @ items_of es))"
    and "length (queue_items N s) + length es \<le> max_size (batch_state s)"
  shows "\<exists>t. restore_loop N es acc s = (Ret (acc @ es), t) \<and>
    mset (queue_items N t) = mset (queue_items N s @ items_of es) \<and> user_states t = user_states s \<and>
    posting_batch t = posting_batch s"
  using assms
proof (induction es arbitrary: s acc)
  case (Cons e es)
  let ?s = "set_queue (pq_push (pq N) (batch_queue (batch_state s)) e (prio_of e)) s"
  have room: "\<not> is_queue_full (pq N) (batch_state s)" using Cons.prems(2) by (simp add: is_queue_full_def len_iter)
  have "entry_key e \<notin> entry_key ` fst ` set (queue_items N s)" using Cons.prems(1) by (auto simp: image_image)
  from push_new_key [OF this] have m: "mset (queue_items N ?s) = mset ((e, prio_of e) # queue_items N s)" by simp
  have "distinct (map (entry_key \<circ> fst) (queue_items N ?s @ items_of es)) =
      distinct (map (entry_key \<circ> fst) (queue_items N s @ items_of (e # es)))"
    by (rule distinct_map_mset) (use m in simp)
  then have dis: "distinct (map (entry_key \<circ> fst) (queue_items N ?s @ items_of es))" using Cons.prems(1) by blast
  have "\<exists>t. restore_loop N es (acc @ [e]) ?s = (Ret ((acc @ [e]) @ es), t) \<and>
    mset (queue_items N t) = mset (queue_items N ?s @ items_of es) \<and> user_states t = user_states ?s \<and>
    posting_batch t = posting_batch ?s"
    using Cons.prems(2) mset_eq_size [OF m] by (intro Cons.IH [OF dis]) simp
  then show ?case using room m by (auto simp: prio_of_def Let_def)
qed simp

lemma restore_spec:
  assumes r: "restorable (queue_items N s) (items_of batch) (user_states s)"
    and room: "length (queue_items N s) + length batch \<le> max_size (batch_state s)"
  obtains t where "restore_proofs_after_batch_failure N batch s = (Ret (), t)"
    "mset (queue_items N t) = mset (queue_items N s @ items_of batch)" "held_inv N [] t"
    "fee_order (queue_items N s @ items_of batch) \<Longrightarrow> limits_ok (queue_items N s) (user_states s) \<Longrightarrow>
     fee_inv N [] t" "posting_batch t = posting_batch s"
proof -
  have "distinct (map (entry_key \<circ> fst) (queue_items N s @ items_of batch))"
    using r by (simp add: restorable_def)
  from restore_loop_room [OF this room, of "[]"] obtain s1 where s1:
    "restore_loop N batch [] s = (Ret batch, s1)" "mset (queue_items N s1) = mset (queue_items N s @ items_of batch)"
    "user_states s1 = user_states s" "posting_batch s1 = posting_batch s"
    by auto
  have r1: "restorable (queue_items N s) (items_of batch) (user_states s1)" using r s1(3) by simp
  obtain t where t: "update_user_states_from_queue_state N (senders_of batch) s1 = (Ret (), t)"
    "batch_state t = batch_state s1" "posting_batch t = posting_batch s1" "outbox t = outbox s1" "held_inv N [] t"
    "fee_order (queue_items N s @ items_of batch) \<Longrightarrow> limits_ok (queue_items N s) (user_states s1) \<Longrightarrow> fee_inv N [] t"
    by (rule refresh_spec [OF r1 disjI2 [OF s1(2)]]) blast
  show ?thesis
    by (rule that [of t]) (use s1 t in \<open>simp_all add: restore_proofs_after_batch_failure_def\<close>)
qed

end

end
