(* ===== verification/Finalize_Correct.thy ===== *)
theory Finalize_Correct
  imports Batch_Cycle
begin

text \<open>
  How a finalization ends. Either the task is on chain, and the users of the batch are taken off the
  books; or nothing but metrics has changed; or the contract reported an unfunded user, and queue and
  user states have been flushed.
\<close>

section \<open>What a successful submission has done\<close>

text \<open>
  A task for the batch is on chain: the tree of its commitments, the pointer to its uploaded bytes,
  the fee parameters for its length, its senders, and a receipt of the transaction.
\<close>

definition task_created :: "('q, 't) batcher_env \<Rightarrow> u256 \<Rightarrow> BatchQueueEntry list \<Rightarrow> 't \<Rightarrow> bool" where
  "task_created N gp batch tr \<longleftrightarrow>
     mt_build (merkle N) (map verification_data_commitment batch) = Some tr \<and>
     (\<exists>bytes urls a n receipt.
        cbor_serialize_batch N (map (verification_data \<circ> nonced_verification_data) batch) = Inr bytes \<and>
        urls = uploaded_urls N bytes (hex_encode (hex (eth N)) (mt_root (merkle N) tr) @ ''.json'') \<and>
        urls \<noteq> [] \<and> ta_data_pointer a = join_urls urls \<and> ta_merkle_root a = mt_root (merkle N) tr \<and>
        ta_proof_submitters a = map sender batch \<and>
        create_new_task_fee_params (aggregator_fee_percentage_multiplier (cfg N))
          (aggregator_gas_cost (cfg N)) (length batch) gp = Some (ta_fee_params a) \<and>
        create_new_task_retryable (eth N) a n = Inr receipt)"

lemma create_new_task_success:
  assumes "create_new_task N a s = (Ret (Inr rc), t)"
  shows "\<exists>n. create_new_task_retryable (eth N) a n = Inr rc"
proof -
  let ?f = "create_new_task_retryable (eth N) a"
  obtain n where n: "retry_function (driver (eth N)) ?f ETHEREUM_CALL_MAX_RETRIES = ?f n"
    using retry_function_ex by blast
  show ?thesis
    using assms n by (auto simp: create_new_task_def Let_def
        split: sum.splits RetryError.splits BatcherError.splits option.splits)
qed

lemma submit_batch_success:
  assumes "submit_batch N bytes root leaves es gp s = (Ret (Inr ()), t)"
  obtains a n rc where "uploaded_urls N bytes (hex_encode (hex (eth N)) root @ ''.json'') \<noteq> []"
    "ta_data_pointer a = join_urls (uploaded_urls N bytes (hex_encode (hex (eth N)) root @ ''.json''))"
    "ta_merkle_root a = root" "ta_proof_submitters a = map sender es"
    "create_new_task_fee_params (aggregator_fee_percentage_multiplier (cfg N))
       (aggregator_gas_cost (cfg N)) (length leaves) gp = Some (ta_fee_params a)"
    "create_new_task_retryable (eth N) a n = Inr rc"
proof -
  let ?u = "uploaded_urls N bytes (hex_encode (hex (eth N)) root @ ''.json'')"
  obtain x s1 where u: "upload_batch_to_multiple_s3 N bytes (hex_encode (hex (eth N)) root @ ''.json'') s = (x, s1)"
    by fastforce
  have ne: "?u \<noteq> []" and x: "x = Inr (join_urls ?u)"
    using assms u by (auto simp: submit_batch_def upload_batch_to_multiple_s3_def Let_def split: if_splits)
  obtain fp where fp: "create_new_task_fee_params (aggregator_fee_percentage_multiplier (cfg N))
      (aggregator_gas_cost (cfg N)) (length leaves) gp = Some fp"
    using assms u x by (auto simp: submit_batch_def or_panic_Ret_iff)
  let ?a = "\<lparr> ta_merkle_root = root, ta_data_pointer = join_urls ?u, ta_proof_submitters = map sender es,
              ta_fee_params = fp \<rparr>"
  obtain v where sim: "simulate_create_new_task N ?a = Inr v"
    using assms u x fp by (cases "simulate_create_new_task N ?a") (simp_all add: submit_batch_def)
  obtain s2 r s3 where c: "create_new_task N ?a s2 = (Ret r, s3)"
      "(case r of Inr _ \<Rightarrow> (Ret (Inr ()), s3\<lparr>metrics := (metrics s3)\<lparr>sent_batches := Suc (sent_batches (metrics s3))\<rparr>\<rparr>)
        | Inl e \<Rightarrow> (Ret (Inl e), s3\<lparr>metrics := (metrics s3)\<lparr>reverted_batches := Suc (reverted_batches (metrics s3))\<rparr>\<rparr>))
       = (Ret (Inr ()), t)"
    using assms u x fp sim
    by (simp add: submit_batch_def Let_def or_panic_Ret_iff and_then_Ret_iff) blast
  then obtain rc where "r = Inr rc" by (cases r) auto
  then show ?thesis using create_new_task_success c(1) ne fp that [of ?a _ rc] by force
qed

text \<open>The answers to the clients: the inclusion data of each entry at its position.\<close>

definition answers :: "('q, 't) batcher_env \<Rightarrow> 't \<Rightarrow> nat \<times> BatchQueueEntry \<Rightarrow> sink \<times> out_msg \<Rightarrow> bool" where
  "answers N tr p o' \<longleftrightarrow>
     messaging_sink (snd p) = Some (fst o') \<and>
     (\<exists>d b. BatchInclusionData_new (merkle N) (fst p) tr (entry_nonce (snd p)) = Some d \<and>
          cbor_serialize_response N (BatchInclusion d) = Inr b \<and> snd o' = SubmitResp (BatchInclusion d))"

lemma inclusion_loop_success:
  "inclusion_loop N tr xs s = (Ret (Inr ()), t) \<Longrightarrow>
   \<exists>out. outbox t = outbox s @ out \<and> list_all2 (answers N tr) xs out"
proof (induction N tr xs s rule: inclusion_loop.induct)
  case (2 N tr i entry rest s)
  obtain d where d: "BatchInclusionData_new (merkle N) i tr (entry_nonce entry) = Some d"
    using "2.prems" by (auto simp: or_panic_Ret_iff)
  obtain r where r: "cbor_serialize_response N (BatchInclusion d) = Inr r"
    using "2.prems" d by (cases "cbor_serialize_response N (BatchInclusion d)") simp_all
  obtain w where w: "messaging_sink entry = Some w"
    using "2.prems" d r by (cases "messaging_sink entry") simp_all
  have "inclusion_loop N tr rest (send_message w (SubmitResp (BatchInclusion d)) s) = (Ret (Inr ()), t)"
    using "2.prems" d r w by simp
  then obtain out where "outbox t = outbox s @ [(w, SubmitResp (BatchInclusion d))] @ out" "list_all2 (answers N tr) rest out"
    using "2.IH" [OF r w] by auto
  moreover have "answers N tr (i, entry) (w, SubmitResp (BatchInclusion d))" using d r w by (simp add: answers_def)
  ultimately show ?case by (intro exI [of _ "(w, SubmitResp (BatchInclusion d)) # out"]) simp
qed auto

lemma inclusion_loop_errors:
  "inclusion_loop N tr xs s = (Ret (Inl e), t) \<Longrightarrow> e = WsSinkEmpty \<or> (\<exists>m. e = SerializationErr m)"
  by (induction N tr xs s rule: inclusion_loop.induct)
    (auto simp: or_panic_def split: option.splits sum.splits)

section \<open>Flushing\<close>

lemma notify_all_posting [simp]: "posting_batch (notify_all m es s) = posting_batch s"
  unfolding notify_all_def by (induction es arbitrary: s) (simp_all add: notify_def split: option.splits)

definition flushed :: "('q, 't) batcher_env \<Rightarrow> 'q batcher \<Rightarrow> bool" where
  "flushed N s \<longleftrightarrow> queue_items N s = [] \<and> (\<forall>a u. user_states s a = Some u \<longrightarrow> (\<exists>n. u = UserState_new n))"

lemma flushed_inv: "flushed N s \<Longrightarrow> held_inv N [] s" "flushed N s \<Longrightarrow> fee_inv N [] s"
  using accounted_new
  by (auto simp: flushed_def held_inv_def fee_inv_def books_ok_def fees_ok_def prio_ok_def acct_ok_def
      fee_order_def limits_ok_def)

text \<open>
  How a batch that left the queue of \<open>s\<close> fares, by the result of the finalization: it is posted and
  answered, or everything is flushed, or it is back in the queue.
\<close>

definition cycle_outcome ::
    "('q, 't) batcher_env \<Rightarrow> u256 \<Rightarrow> BatchQueueEntry list \<Rightarrow> 'q batcher \<Rightarrow> BatcherError + unit \<Rightarrow> 'q batcher \<Rightarrow> bool" where
  "cycle_outcome N gp batch s r t \<longleftrightarrow>
     (case r of
        Inr _ \<Rightarrow> batch_state t = batch_state s \<and>
          (\<exists>tr out. task_created N gp batch tr \<and> outbox t = outbox s @ out \<and>
             list_all2 (answers N tr) (rev (enumerate 0 batch)) out)
      | Inl (StateCorruptedAndFlushed _) \<Rightarrow> flushed N t
      | Inl _ \<Rightarrow> mset (queue_items N t) = mset (queue_items N s @ items_of batch))"

lemma not_flushed_error:
  assumes "\<And>m. e \<noteq> StateCorruptedAndFlushed m"
  shows "after_finalization N batch (Inl e) s =
      and_then (restore_proofs_after_batch_failure N batch (s\<lparr>posting_batch := False\<rparr>)) (\<lambda>_ s. (Ret (Inl e), s))"
    and "cycle_outcome N gp batch s' (Inl e) t \<longleftrightarrow> mset (queue_items N t) = mset (queue_items N s' @ items_of batch)"
  using assms by (cases e; auto simp: after_finalization_def cycle_outcome_def)+

context batcher_queue
begin

lemma flush_spec:
  "flushed N (flush_queue_and_clear_nonce_cache N s)"
  "posting_batch (flush_queue_and_clear_nonce_cache N s) = posting_batch s"
  by (auto simp: flush_queue_and_clear_nonce_cache_def flushed_def Let_def iter_clear set_queue_def set_user_def
      update_queue_metrics_def split: option.splits sum.splits if_splits)

lemma submission_failed_cases:
  assumes "submission_failed N batch e s = (Ret r, t)" "\<And>m. e \<noteq> StateCorruptedAndFlushed m"
  obtains (kept) "r = Inl e" "t = s"
    | (flush) m where "r = Inl (StateCorruptedAndFlushed m)" "flushed N t" "posting_batch t = posting_batch s"
  using assms flush_spec [of s]
  by (auto simp: submission_failed_def flushed_def split: BatcherError.splits TransactionSendError.splits)

lemma finalize_cases:
  assumes h: "held_inv N (items_of batch) s" and f: "finalize_batch N b batch gp s = (Ret r, t)"
  obtains (failed) e where "r = Inl e" "\<And>m. e \<noteq> StateCorruptedAndFlushed m" "batch_state t = batch_state s"
      "user_states t = user_states s" "posting_batch t = posting_batch s"
    | (flush_all) m where "r = Inl (StateCorruptedAndFlushed m)" "flushed N t" "posting_batch t = posting_batch s"
    | (posted) tr where "task_created N gp batch tr" "\<And>m. r \<noteq> Inl (StateCorruptedAndFlushed m)"
      "batch_state t = batch_state s" "posting_batch t = posting_batch s" "held_inv N [] t"
      "fee_inv N (items_of batch) s \<Longrightarrow> fee_inv N [] t"
      "restorable (queue_items N s) (items_of batch) (user_states t)"
      "r = Inr () \<Longrightarrow> \<exists>out. outbox t = outbox s @ out \<and> list_all2 (answers N tr) (rev (enumerate 0 batch)) out"
proof (cases "cbor_serialize_batch N (map (verification_data \<circ> nonced_verification_data) batch)")
  case (Inl e)
  then show ?thesis using f failed by (auto simp: finalize_batch_def)
next
  case (Inr bytes)
  show ?thesis
  proof (cases "mt_build (merkle N) (map verification_data_commitment batch)")
    case None
    then show ?thesis using f Inr failed by (auto simp: finalize_batch_def)
  next
    case (Some tr)
    let ?s = "s\<lparr>last_uploaded_batch_block := b\<rparr>"
    obtain x s1 where sb: "submit_batch N bytes (mt_root (merkle N) tr)
        (map (hash_data (keccak N)) (map verification_data_commitment batch)) batch gp ?s = (Ret x, s1)"
      using f Inr Some by (auto simp: finalize_batch_def and_then_Ret_iff)
    note fr = submit_batch_frame [OF sb]
    show ?thesis
    proof (cases x)
      case (Inl e)
      have ne: "e \<noteq> StateCorruptedAndFlushed m" for m
        using submit_batch_errors sb Inl by blast
      have "submission_failed N batch e s1 = (Ret r, t)"
        using f Inr Some sb Inl by (simp add: finalize_batch_def)
      then show ?thesis
        using ne
      proof (cases rule: submission_failed_cases)
        case kept
        then show ?thesis using fr by (intro failed [of e]) (simp_all add: ne)
      next
        case (flush m)
        then show ?thesis using fr by (intro flush_all [of m]) simp_all
      qed
    next
      case (Inr v)
      then have ok: "x = Inr ()" by simp
      have cr: "task_created N gp batch tr"
        by (rule submit_batch_success [OF sb [unfolded ok]])
          (use Some \<open>cbor_serialize_batch N _ = Inr bytes\<close> in \<open>auto simp: task_created_def\<close>)
      have r0: "restorable (queue_items N s) (items_of batch) (user_states s1)"
        using books_restorable h fr by (simp add: held_inv_def)
      obtain s2 where s2: "update_user_states_from_queue_state N (senders_of batch) s1 = (Ret (), s2)"
        "batch_state s2 = batch_state s1" "posting_batch s2 = posting_batch s1" "outbox s2 = outbox s1" "held_inv N [] s2"
        "fee_order (queue_items N s @ items_of batch) \<Longrightarrow> limits_ok (queue_items N s) (user_states s1) \<Longrightarrow> fee_inv N [] s2"
        "restorable (queue_items N s) (items_of batch) (user_states s2)"
        by (rule refresh_spec [OF r0]) (use fr in auto)
      obtain s3 where s3: "cleanup_user_states_after_successful_submission N batch s2 = (Ret (), s3)"
        "batch_state s3 = batch_state s2" "posting_batch s3 = posting_batch s2" "outbox s3 = outbox s2" "held_inv N [] s3"
        "fee_inv N [] s2 \<Longrightarrow> fee_inv N [] s3" "restorable (queue_items N s) (items_of batch) (user_states s3)"
        by (rule cleanup_spec [OF s2(5,7)]) blast
      have il: "inclusion_loop N tr (rev (enumerate 0 batch)) s3 = (Ret r, t)"
        using f \<open>cbor_serialize_batch N _ = Inr bytes\<close> Some sb Inr s2(1) s3(1)
        by (simp add: finalize_batch_def send_batch_inclusion_data_responses_def)
      note fi = inclusion_loop_frame [OF il]
      have "limits_ok (queue_items N s) (user_states s1)" if "fee_inv N (items_of batch) s"
        using that fr by (auto simp: fee_inv_def fees_ok_def limits_ok_def)
      then have fee: "fee_inv N [] t" if "fee_inv N (items_of batch) s"
        using that s2(6) s3(6) held_inv_cong(2) [of t s3 N "[]"] fi by (simp add: fee_inv_def fees_ok_def)
      show ?thesis
      proof (rule posted [OF cr _ _ _ _ fee])
        show "r \<noteq> Inl (StateCorruptedAndFlushed m)" for m
          using inclusion_loop_errors [of N tr _ s3 _ t] il by (cases r) auto
        show "held_inv N [] t" using s3(5) held_inv_cong(1) [of t s3 N "[]"] fi by simp
        show "\<exists>out. outbox t = outbox s @ out \<and> list_all2 (answers N tr) (rev (enumerate 0 batch)) out" if "r = Inr ()"
          using inclusion_loop_success il that s2(4) s3(4) fr by fastforce
      qed (use fi s2 s3 fr in simp_all)
    qed
  qed
qed

text \<open>What the steps after the finalization leave, for each of its results.\<close>

lemma after_finalization_spec:
  assumes h: "held_inv N (items_of batch) s" and f: "finalize_batch N b batch gp s = (Ret r, s1)"
    and room: "length (queue_items N s) + length batch \<le> max_size (batch_state s)"
  obtains t where "after_finalization N batch r s1 = (Ret r, t)" "held_inv N [] t" "\<not> posting_batch t"
    "cycle_outcome N gp batch s r t"
    "fee_inv N (items_of batch) s \<Longrightarrow> fee_inv N [] t"
  using h f
proof (cases rule: finalize_cases)
  case (failed e)
  let ?s = "s1\<lparr>posting_batch := False\<rparr>"
  have r: "restorable (queue_items N ?s) (items_of batch) (user_states ?s)"
    using books_restorable h failed by (simp add: held_inv_def)
  obtain t where t: "restore_proofs_after_batch_failure N batch ?s = (Ret (), t)"
    "mset (queue_items N t) = mset (queue_items N ?s @ items_of batch)" "held_inv N [] t"
    "fee_order (queue_items N ?s @ items_of batch) \<Longrightarrow> limits_ok (queue_items N ?s) (user_states ?s) \<Longrightarrow>
     fee_inv N [] t" "posting_batch t = posting_batch ?s"
    by (rule restore_spec [OF r]) (use room failed in simp_all)
  show ?thesis
  proof (rule that [of t])
    show "after_finalization N batch r s1 = (Ret r, t)"
      using failed(1) t(1) not_flushed_error(1) [OF failed(2), of N batch s1] by simp
    show "cycle_outcome N gp batch s r t"
      using failed(1,3) t(2) not_flushed_error(2) [OF failed(2), of N gp batch s t] by simp
    show "fee_inv N [] t" if "fee_inv N (items_of batch) s"
      using that t(4) failed by (auto simp: fee_inv_def fees_ok_def limits_ok_def)
  qed (use t in simp_all)
next
  case (flush_all m)
  let ?t = "s1\<lparr>posting_batch := False\<rparr>"
  have fl: "flushed N ?t" using flush_all(2) by (simp add: flushed_def)
  show ?thesis
    by (rule that [of ?t]) (use fl flushed_inv [OF fl] flush_all(1) in \<open>simp_all add: after_finalization_def cycle_outcome_def\<close>)
next
  case (posted tr)
  let ?t = "s1\<lparr>posting_batch := False\<rparr>"
  show ?thesis
  proof (cases r)
    case (Inr v)
    then obtain out where "outbox s1 = outbox s @ out" "list_all2 (answers N tr) (rev (enumerate 0 batch)) out"
      using posted(8) by auto
    then show ?thesis
      using Inr posted held_inv_cong [of ?t s1 N "[]"]
      by (intro that [of ?t]) (auto simp: after_finalization_def cycle_outcome_def)
  next
    case (Inl e)
    then have ne: "e \<noteq> StateCorruptedAndFlushed m" for m using posted(2) by blast
    have r: "restorable (queue_items N ?t) (items_of batch) (user_states ?t)" using posted by simp
    obtain t where t: "restore_proofs_after_batch_failure N batch ?t = (Ret (), t)"
      "mset (queue_items N t) = mset (queue_items N ?t @ items_of batch)" "held_inv N [] t"
      "fee_order (queue_items N ?t @ items_of batch) \<Longrightarrow> limits_ok (queue_items N ?t) (user_states ?t) \<Longrightarrow>
       fee_inv N [] t" "posting_batch t = posting_batch ?t"
      by (rule restore_spec [OF r]) (use room posted in simp_all)
    show ?thesis
    proof (rule that [of t])
      show "after_finalization N batch r s1 = (Ret r, t)"
        using Inl t(1) not_flushed_error(1) [OF ne, of N batch s1] by simp
      show "cycle_outcome N gp batch s r t"
        using posted(3) Inl t(2) not_flushed_error(2) [OF ne, of N gp batch s t] by simp
      show "fee_inv N [] t" if i: "fee_inv N (items_of batch) s"
        using i posted(6) [OF i] t(4) posted(3) by (simp add: fee_inv_def fees_ok_def)
    qed (use t in simp_all)
  qed
qed

text \<open>One new block, when the set of disabled verifiers has not changed.\<close>

lemma new_block_spec:
  assumes h: "held_inv N [] s" and room: "length (queue_items N s) \<le> max_size (batch_state s)"
    and g: "get_gas_price (eth N) = Inr g" "modified_gas_price g = Some gp"
    and fd: "fees_defined gp (batch_constant_cost N) (length (queue_items N s))"
    and dv: "disabled_verifiers_call (eth N) = Inr (disabled_verifiers s)"
    and nb: "handle_new_block N b s = (Ret r, t)"
  shows "held_inv N [] t \<and> (fee_inv N [] s \<longrightarrow> fee_inv N [] t) \<and>
    (r = Inr () \<and> mset (queue_items N t) = mset (queue_items N s) \<and> outbox t = outbox s \<and> posting_batch t = posting_batch s \<or>
     (\<exists>batch m. batch_ready N gp batch \<and> mset (queue_items N s) = mset (items_of batch) + mset (queue_items N m) \<and>
        outbox m = outbox s \<and> cycle_outcome N gp batch m r t \<and> \<not> posting_batch s \<and> \<not> posting_batch t))"
proof -
  obtain f where f: "calculate_fee_per_proof_with_gas_price (amount_of_proofs_for_min_max_fee (cfg N)) g = Some f"
    using nb g(1) by (auto simp: handle_new_block_def update_min_max_fee_def and_then_Ret_iff or_panic_Ret_iff)
  let ?s = "s\<lparr>current_min_max_fee := f\<rparr>"
  have h': "held_inv N [] ?s" "fee_inv N [] s \<Longrightarrow> fee_inv N [] ?s" using h held_inv_cong [of ?s s N "[]"] by simp_all
  have fd': "fees_defined gp (batch_constant_cost N) (length (queue_items N ?s))" using fd by simp
  have red: "handle_new_block N b s = and_then (extract_batch_if_ready N b gp ?s) (\<lambda>b' s. case b' of
            None \<Rightarrow> (Ret (Inr ()), s)
          | Some batch \<Rightarrow> and_then (finalize_batch N b batch gp s) (after_finalization N batch))"
    using g dv f by (simp add: handle_new_block_def update_min_max_fee_def update_disabled_verifiers_def)
  show ?thesis
  proof (rule extract_if_ready_cases [OF held_inv_prio_ok [OF h'(1)] fd', of b])
    fix m
    assume e: "extract_batch_if_ready N b gp ?s = (Ret None, m)" "mset (queue_items N m) = mset (queue_items N ?s)"
      "user_states m = user_states ?s" "outbox m = outbox ?s" "posting_batch m = posting_batch ?s"
    have "t = m" "r = Inr ()" using nb e(1) red by simp_all
    then show ?thesis
      using e extract_held [OF h'(1) fd' e(1)] h'(2) by (auto simp: in_flight_def)
  next
    fix batch m
    assume e: "extract_batch_if_ready N b gp ?s = (Ret (Some batch), m)" "\<not> posting_batch ?s" "batch_ready N gp batch"
      "mset (queue_items N ?s) = mset (items_of batch) + mset (queue_items N m)"
      "max_size (batch_state m) = max_size (batch_state ?s)" "outbox m = outbox ?s"
    have hm: "held_inv N (items_of batch) m" "fee_inv N [] s \<Longrightarrow> fee_inv N (items_of batch) m"
      using extract_held [OF h'(1) fd' e(1)] h'(2) by (auto simp: in_flight_def)
    have "length (queue_items N ?s) = length (items_of batch @ queue_items N m)"
      by (rule mset_eq_size) (use e(4) in simp)
    then have rm: "length (queue_items N m) + length batch \<le> max_size (batch_state m)"
      using room e(5) by (simp add: items_of_def)
    obtain r1 s1 where fb: "finalize_batch N b batch gp m = (Ret r1, s1)" "after_finalization N batch r1 s1 = (Ret r, t)"
      using nb red e(1) by (auto simp: and_then_Ret_iff)
    obtain t' where t': "after_finalization N batch r1 s1 = (Ret r1, t')" "held_inv N [] t'" "\<not> posting_batch t'"
      "cycle_outcome N gp batch m r1 t'" "fee_inv N (items_of batch) m \<Longrightarrow> fee_inv N [] t'"
      by (rule after_finalization_spec [OF hm(1) fb(1) rm]) blast
    then have "t' = t" "r1 = r" using fb(2) by simp_all
    then show ?thesis using t' e hm(2) by auto
  qed
qed

end

section \<open>Properties\<close>

text \<open>
  Claim C4. A new block that is handled undisturbed loses no proof and unbalances no account. It is assumed that
  the books balance and nothing is in flight, that the queue is within its capacity, that the gas price is in the range in which the fees
  are defined, that the disabled verifiers are the same as before, and that no other handler runs while this one posts
  (a proof accepted meanwhile can fill the queue, and then a failed batch does not come back).
  When \<open>handle_new_block\<close> returns from such a state, the books balance again, and
  \<^item> on success the queue is unchanged, or it lost exactly a batch that satisfies every limit and
    whose fees cover the charge, for which a task with the tree of its commitments, its senders
    and its fee parameters is on chain, and whose clients have been sent their inclusion data;
  \<^item> after \<open>StateCorruptedAndFlushed\<close> the queue and the cached users are empty (but for the
    non-paying user, re-read from Ethereum);
  \<^item> after every other error every proof is in the queue again.
\<close>

theorem new_block_accounts_for_every_proof:
  assumes "batch_pq (pq N)" "held_inv N [] s" "length (queue_items N s) \<le> max_size (batch_state s)"
    and "get_gas_price (eth N) = Inr g" "modified_gas_price g = Some gp"
    and "fees_defined gp (batch_constant_cost N) (length (queue_items N s))"
    and "disabled_verifiers_call (eth N) = Inr (disabled_verifiers s)"
    and "handle_new_block N b s = (Ret r, t)"
  shows "held_inv N [] t \<and>
    (case r of
       Inr _ \<Rightarrow> mset (queue_items N t) = mset (queue_items N s) \<or>
         (\<exists>batch tr out. batch_ready N gp batch \<and>
            mset (queue_items N s) = mset (items_of batch) + mset (queue_items N t) \<and>
            task_created N gp batch tr \<and> outbox t = outbox s @ out \<and>
            list_all2 (answers N tr) (rev (enumerate 0 batch)) out)
     | Inl (StateCorruptedAndFlushed _) \<Rightarrow> flushed N t
     | Inl _ \<Rightarrow> mset (queue_items N t) = mset (queue_items N s))"
proof -
  note spec = batcher_queue.new_block_spec [OF batcher_queue.intro [OF assms(1)] assms(2-8)]
  from spec have "held_inv N [] t" by blast
  moreover from spec consider "r = Inr ()" "mset (queue_items N t) = mset (queue_items N s)"
    | batch m where "batch_ready N gp batch" "mset (queue_items N s) = mset (items_of batch) + mset (queue_items N m)"
      "outbox m = outbox s" "cycle_outcome N gp batch m r t" by blast
  then have "case r of
       Inr _ \<Rightarrow> mset (queue_items N t) = mset (queue_items N s) \<or>
         (\<exists>batch tr out. batch_ready N gp batch \<and>
            mset (queue_items N s) = mset (items_of batch) + mset (queue_items N t) \<and>
            task_created N gp batch tr \<and> outbox t = outbox s @ out \<and>
            list_all2 (answers N tr) (rev (enumerate 0 batch)) out)
     | Inl (StateCorruptedAndFlushed _) \<Rightarrow> flushed N t
     | Inl _ \<Rightarrow> mset (queue_items N t) = mset (queue_items N s)"
  proof cases
    case 1
    then show ?thesis by simp
  next
    case 2
    show ?thesis
    proof (cases r)
      case (Inl e)
      then show ?thesis using 2 by (cases e) (simp_all add: cycle_outcome_def add.commute)
    next
      case (Inr v)
      then show ?thesis using 2 by (auto simp: cycle_outcome_def)
    qed
  qed
  ultimately show ?thesis by blast
qed

section \<open>Evaluation\<close>

lemma sample_uploaded [simp]: "uploaded_urls sample_env bs f = [''s3/'' @ f]"
  by (simp add: uploaded_urls_def upload_batch_to_s3_def sample_eth_def retry_first_try upload_batch_to_s3_retryable_def)

lemma sample_task [simp]:
  "simulate_create_new_task sample_env a = Inr ()" "create_new_task sample_env a s = (Ret (Inr 1), s)"
  by (simp_all add: simulate_create_new_task_def create_new_task_def sample_eth_def retry_first_try
      simulate_create_new_task_retryable_def create_new_task_retryable_def wait_for_receipt_def)

lemma sample_extract_ready:
  "extract_batch_if_ready sample_env 5 1 ((sample_state [sample_item 1 0 600000] 10 us)\<lparr>current_min_max_fee := f\<rparr>) =
   (Ret (Some [sample_entry 1 0 600000]), (sample_state [] 10 us)
      \<lparr>current_min_max_fee := f, posting_batch := True, metrics := zero_metrics\<lparr>queue_len := 0, queue_size_bytes := 9\<rparr>\<rparr>)"
  by (simp add: extract_batch_if_ready_def extract_batch_directly_def calculate_batch_size_def reject_loop.simps
      drain_loop.simps should_remove_def push_all_def pushed_def drop_key_def calculate_fee_per_proof_def
      gas_per_proof_def sdk_constants checked_mul_def constant_gas_cost_def less_BatchQueueEntryPriority_def
      prio_cmp_def Let_def set_queue_def update_queue_metrics_def sample_state_def)

lemmas block_defs =
  handle_new_block_def update_min_max_fee_def update_disabled_verifiers_def
  calculate_fee_per_proof_with_gas_price_def calculate_fee_per_proof_def gas_per_proof_def sdk_constants
  checked_mul_def modified_gas_price_def DEFAULT_CONSTANT_GAS_COST_value finalize_batch_def submit_batch_def
  upload_batch_to_multiple_s3_def sample_merkle_def create_new_task_fee_params_def constant_gas_cost_def
  as_u64_def senders_of_def calculate_new_user_states_data_def refreshed_def
  cleanup_user_states_after_successful_submission_def send_batch_inclusion_data_responses_def
  BatchInclusionData_new_def after_finalization_def sample_inclusion_def

abbreviation sample_one :: "item list batcher" where
  "sample_one \<equiv> sample_state [sample_item 1 0 600000] 10 ((\<lambda>_. None)(1 \<mapsto> sample_user 1 600000 600000 1))"

lemma sample_new_block:
  "\<exists>t. handle_new_block sample_env 5 sample_one = (Ret (Inr ()), t) \<and> batch_state t = \<lparr> batch_queue = [], max_size = 10 \<rparr> \<and>
     user_states t = (\<lambda>_. None)(1 \<mapsto> sample_user 1 u256_max 0 0) \<and> \<not> posting_batch t \<and>
     outbox t = [(1, SubmitResp (BatchInclusion \<lparr> batch_merkle_root = [0], batch_inclusion_proof = [],
                   index_in_batch = 0, user_nonce = 0 \<rparr>))]"
  by (simp add: block_defs sample_extract_ready Let_def)
    (simp add: sample_state_def sample_user_def set_user_def send_message_def fun_eq_iff)

lemma sample_one_inv: "held_inv sample_env [] sample_one" "fee_inv sample_env [] sample_one"
  by (simp_all add: held_inv_def fee_inv_def books_ok_def fees_ok_def acct_ok_def accounted_def fee_order_def
      limits_ok_def sample_user_def)

lemma sample_gas:
  "modified_gas_price 1 = Some 1" "batch_constant_cost sample_env = 537500"
  "fees_defined 1 (batch_constant_cost sample_env) (Suc 0)"
  by (simp_all add: modified_gas_price_def checked_mul_def sdk_constants constant_gas_cost_def)
    (rule fees_definedI, simp_all add: gas_in_range_def)

theorem new_block_accounts_for_every_proof_witness:
  "held_inv sample_env [] (snd (handle_new_block sample_env 5 sample_one))"
proof -
  obtain t where t: "handle_new_block sample_env 5 sample_one = (Ret (Inr ()), t)" using sample_new_block by blast
  show ?thesis
    using new_block_accounts_for_every_proof [OF sample_batch_pq sample_one_inv(1) _ _ sample_gas(1) _ _ t] sample_gas(3) t
    by simp
qed

end
