(* ===== verification/Eviction.thy ===== *)
theory Eviction
  imports Finalize_Correct
begin

text \<open>
  Eviction from a full queue: in \<open>handle_submit_proof_msg\<close>, to make room for a proof that pays more,
  and in \<open>restore_proofs_after_batch_failure\<close>. Both run with a guard of \<open>user_states\<close> held, and both
  reach an acquisition of the same lock that the guard excludes. The theorems say exactly when the
  task waits for itself, and what an eviction that does go through does to the accounts.
\<close>

section \<open>Restoration\<close>

lemma evicted_async_stuck: "fst (update_evicted_user_state_async N WriteGuard e s) = Stuck"
  by (simp add: update_evicted_user_state_async_def write_blocks_def read_blocks_def Let_def split: option.splits)

lemma and_then_Stuck: "fst r = Stuck \<Longrightarrow> fst (and_then r f) = Stuck"
  by (cases "(r, f)" rule: and_then.cases) auto

text \<open>
  Claim C28. A failed batch cannot be restored into a full queue: as soon as a restored proof pays more
  than the lowest-paying queued one, the restoration evicts that one while it holds the write guard
  of \<open>user_states\<close>, asks for the same lock again, and never returns.
\<close>

theorem restore_into_full_queue_stuck:
  assumes "batch_pq (pq N)" "is_queue_full (pq N) (batch_state s)"
    and "pq_peek (pq N) (batch_queue (batch_state s)) = Some (lowest, p)" "entry_fee lowest < entry_fee e"
  shows "fst (restore_proofs_after_batch_failure N (e # es) s) = Stuck"
proof -
  have law: "priority_queue entry_key (pq N)" using assms(1) by (simp add: batch_pq_def)
  have "pq_pop (pq N) (batch_queue (batch_state s)) \<noteq> None"
    using assms(3) priority_queue.pop_None [OF law] priority_queue.peek_None [OF law] by (metis option.distinct(1))
  then obtain v pv q where pop: "pq_pop (pq N) (batch_queue (batch_state s)) = Some ((v, pv), q)"
    by (metis not_None_eq prod.exhaust)
  have "fst (restore_loop N (e # es) [] s) = Stuck"
    using assms(2-4) pop by (simp add: Let_def and_then_Stuck evicted_async_stuck)
  then show ?thesis by (simp add: restore_proofs_after_batch_failure_def and_then_Stuck del: restore_loop.simps)
qed

lemma sample_restore_stuck:
  "is_queue_full (pq sample_env) (batch_state (sample_state [sample_item 1 0 5] 1 us))"
  "pq_peek (pq sample_env) (batch_queue (batch_state (sample_state [sample_item 1 0 5] 1 us))) =
     Some (sample_entry 1 0 5, prio_of (sample_entry 1 0 5))"
  by (simp_all add: is_queue_full_def) (simp add: sample_item_def)

theorem restore_into_full_queue_stuck_witness:
  "fst (restore_proofs_after_batch_failure sample_env [sample_entry 2 0 7]
     (sample_state [sample_item 1 0 5] 1 (\<lambda>_. None))) = Stuck"
  by (rule restore_into_full_queue_stuck [OF sample_batch_pq sample_restore_stuck]) simp

section \<open>Submission\<close>

text \<open>
  Claim C29. A proof submitted to a full queue never gets its answer when the first candidate for
  eviction has no other queued proof: the handler waits for the write lock of \<open>user_states\<close>, whose
  read guard it holds itself (the temporary of the \<open>if let\<close> in the loop over the candidates).
\<close>

theorem evicting_last_proof_stuck:
  assumes "batch_pq (pq N)" "user_states s c = Some u" "c \<noteq> own" "user_try_lock (lk N) c"
    and "x \<in> set (queue_items N s)" "sender (fst x) = c" "entry_fee (fst x) < fee"
    and "\<forall>y \<in> set (queue_items N s). sender (fst y) = c \<longrightarrow> y = x"
  shows "fst (evict_loop N own fee (c # cs) s) = Stuck"
proof -
  have law: "priority_queue entry_key (pq N)" using assms(1) by (simp add: batch_pq_def)
  let ?f = "filter (\<lambda>y. sender (fst y) = c \<and> entry_fee (fst y) < fee) (queue_items N s)"
  have "x \<in> set ?f" using assms(5-7) by simp
  then obtain tg ts where tg: "?f = tg # ts" by (cases ?f) auto
  then have "tg \<in> set ?f" by simp
  then have x: "tg = x" using assms(8) by simp
  obtain q where q: "pq_remove (pq N) (batch_queue (batch_state s)) (fst x) = Some (x, q)"
    using priority_queue.remove_Some_ex [OF law assms(5)] by blast
  have m: "mset (queue_items N s) = add_mset x (mset (pq_iter (pq N) q))"
    by (rule priority_queue.remove_mset [OF law q])
  have fresh: "entry_key (fst x) \<notin> entry_key ` fst ` set (pq_iter (pq N) q)"
    by (rule priority_queue.remove_fresh [OF law q])
  have "sender (fst y) \<noteq> c" if y: "y \<in> set (pq_iter (pq N) q)" for y
  proof
    assume "sender (fst y) = c"
    moreover have "y \<in># mset (queue_items N s)" using y m by simp
    ultimately have "y = x" using assms(8) by simp
    then show False using fresh y by blast
  qed
  then have "last_fee_of (pq_iter (pq N) q) c = None"
    by (simp add: last_fee_of_def filter_False)
  then have "fst (update_evicted_user_state_with_lock N ReadGuard (fst x) u (set_queue q s)) = Stuck"
    using assms(6) by (simp add: update_evicted_user_state_with_lock_def write_blocks_def)
  then show ?thesis
    using assms(2-4) tg x q by (cases x) (simp add: and_then_Stuck)
qed

abbreviation sample_two_users :: "address \<rightharpoonup> UserState" where
  "sample_two_users \<equiv> (\<lambda>_. None)(1 \<mapsto> sample_user 1 5 5 1)"

theorem evicting_last_proof_stuck_witness:
  "fst (evict_loop sample_env 2 7 [1] (sample_state [sample_item 1 0 5] 1 sample_two_users)) = Stuck"
  by (rule evicting_last_proof_stuck [OF sample_batch_pq, of _ _ "sample_user 1 5 5 1" _ "sample_item 1 0 5"]) simp_all

end
