(* ===== verification/Handler_Frames.thy ===== *)
theory Handler_Frames
  imports Submit_Correct
begin

text \<open>
  What the handlers of client messages leave alone: the posting flag, the block of the last batch, the
  disabled verifiers, the minimum fee, the number of open connections and the capacity of the queue.
\<close>

definition background :: "'q batcher \<Rightarrow> bool \<times> u64 \<times> u256 \<times> u256 \<times> int \<times> nat" where
  "background s = (posting_batch s, last_uploaded_batch_block s, disabled_verifiers s, current_min_max_fee s,
                   open_connections (metrics s), max_size (batch_state s))"

lemma background_updates [simp]:
  "background (s\<lparr>batch_state := (batch_state s)\<lparr>batch_queue := q\<rparr>\<rparr>) = background s" "background (s\<lparr>user_states := us\<rparr>) = background s"
  "background (s\<lparr>metrics := (metrics s)\<lparr>received_proofs := n\<rparr>\<rparr>) = background s"
  "background (s\<lparr>metrics := (metrics s)\<lparr>user_lock_timeouts := n\<rparr>\<rparr>) = background s"
  "background (s\<lparr>metrics := (metrics s)\<lparr>batch_lock_timeouts := n\<rparr>\<rparr>) = background s"
  by (simp_all add: background_def)

lemma background_simps [simp]:
  "background (reply ws m s) = background s"
  "background (user_error l1 l2 s) = background s"
  "background (inc_user_states_lock_timeouts s) = background s"
  "background (update_queue_metrics l n s) = background s"
  "background (notify w out s) = background s"
  "background (send_message ws out s) = background s"
  "background (set_queue q s) = background s"
  "background (set_user a u s) = background s"
  by (simp_all add: background_def reply_def batcher_updates notify_def split: option.splits)

lemma phases_keep:
  "validate_message N m ws s = (r1, t) \<Longrightarrow> background t = background s"
  "lock_user_state N a ws s = (r2, t) \<Longrightarrow> background t = background s"
  "check_balance N a nvd u ws s = (r3, t) \<Longrightarrow> background t = background s"
  "verify_proof_if_enabled N vd ws s = (ok, t) \<Longrightarrow> background t = background s"
  by (auto simp: validate_message_def message_checks lock_user_state_def check_balance_def and_some_def
      try_user_lock_with_timeout_def verify_proof_if_enabled_def Let_def or_panic_def
      split: if_splits option.splits sum.splits)

lemma apply_replacement_keeps:
  "apply_replacement N f r a u s = (out, t) \<Longrightarrow> background t = background s"
  by (auto simp: apply_replacement_def Let_def or_panic_def split: option.splits)

lemma handle_replacement_keeps:
  assumes "handle_replacement_message N nvd ws sig addr u s = (out, t)"
  shows "background t = background s"
proof -
  obtain ok s1 where v: "verify_proof_if_enabled N (verification_data nvd) ws s = (ok, s1)" by fastforce
  show ?thesis
    using assms v phases_keep(4) [OF v]
    by (auto simp: handle_replacement_message_def try_batch_lock_with_timeout_def Let_def or_panic_def
        dest!: apply_replacement_keeps split: if_splits option.splits)
qed

lemma evicted_user_keeps:
  "update_evicted_user_state_with_lock N g e u s = (r, t) \<Longrightarrow> background t = background s"
  by (auto simp: update_evicted_user_state_with_lock_def Let_def split: option.splits if_splits prod.splits)

lemma evict_loop_keeps: "evict_loop N own fee cs s = (r, t) \<Longrightarrow> background t = background s"
proof (induction cs arbitrary: s)
  case (Cons c cs)
  show ?case
  proof (cases "evict_loop N own fee cs s = (r, t)")
    case True
    then show ?thesis by (rule Cons.IH)
  next
    case False
    then obtain e u q where
      "and_then (update_evicted_user_state_with_lock N ReadGuard e u (set_queue q s))
         (\<lambda>_ s. (Ret (Some e), notify (messaging_sink e) (SubmitResp UnderpricedProof) s)) = (r, t)"
      using Cons.prems by (auto split: option.splits if_splits list.splits prod.splits)
    moreover obtain r' s' where u: "update_evicted_user_state_with_lock N ReadGuard e u (set_queue q s) = (r', s')"
      by fastforce
    ultimately show ?thesis using evicted_user_keeps [OF u] by (cases r') auto
  qed
qed simp

lemma handle_new_proof_keeps:
  assumes "handle_new_proof N nvd ws sig addr u s = (out, t)"
  shows "background t = background s"
proof -
  have room: "background s2 = background s1" if "make_room N addr nvd ws s1 = (r, s2)" for r s1 s2
  proof (cases "is_queue_full (pq N) (batch_state s1)")
    case True
    obtain r' s' where e: "evict_loop N addr (max_fee nvd)
      (eviction_candidates (max_fee nvd) (queue_items N s1)) s1 = (r', s')" by fastforce
    then show ?thesis
      using that True evict_loop_keeps [OF e] by (cases r') (auto simp: make_room_def split: if_splits)
  qed (use that in \<open>simp add: make_room_def\<close>)
  have add: "background s2 = background s1" if "add_and_count N nvd ws sig addr u s1 = (r, s2)" for r s1 s2
    using that by (auto simp: add_and_count_def add_to_batch_eq Let_def split: prod.splits)
  obtain ok s1 where v: "verify_proof_if_enabled N (verification_data nvd) ws s = (ok, s1)" by fastforce
  obtain r s2 where m: "make_room N addr nvd ws s1 = (r, s2)" by fastforce
  show ?thesis
    using assms v phases_keep(4) [OF v] m room [OF m] add
    by (cases r) (auto simp: handle_new_proof_def try_batch_lock_with_timeout_def Let_def split: if_splits)
qed

lemma handle_submit_keeps:
  assumes "handle_submit_proof_msg N m ws s = (out, t)"
  shows "background t = background s"
proof -
  obtain v s1 where v: "validate_message N m ws s = (v, s1)" by fastforce
  have "background t' = background s'"
    if "and_then (lock_user_state N addr ws s') (\<lambda>l s. case l of None \<Rightarrow> (Ret (), s) | Some u \<Rightarrow>
     and_then (check_balance N addr nvd u ws s) (\<lambda>b s. case b of None \<Rightarrow> (Ret (), s) | Some _ \<Rightarrow>
       (let msg_nonce = nonce (msg_verification_data m); expected_nonce = us_nonce u in
        if expected_nonce < msg_nonce
        then (Ret (), user_error ''invalid_nonce'' [] (reply ws InvalidNonce s))
        else if msg_nonce < expected_nonce
        then handle_replacement_message N nvd ws (msg_signature m) addr u s
        else handle_new_proof N nvd ws (msg_signature m) addr u s))) = (out, t')" for addr nvd s' t'
  proof -
    obtain l s2 where l: "lock_user_state N addr ws s' = (l, s2)" by fastforce
    have b: "background s3 = background s2" if "check_balance N addr nvd u ws s2 = (b, s3)" for u b s3
      using phases_keep(3) that by blast
    show ?thesis
      using that l phases_keep(2) [OF l]
      by (cases l) (auto simp: Let_def elim!: and_then.elims dest!: b handle_replacement_keeps [OF sym]
          handle_new_proof_keeps [OF sym] split: option.splits if_splits)
  qed
  then show ?thesis
    using assms v phases_keep(1) [OF v]
    by (cases v) (auto simp: handle_submit_proof_msg_def split: option.splits)
qed

lemma queries_keep:
  "handle_get_nonce_for_address_msg N a ws s = (r, t) \<Longrightarrow> background t = background s"
  "handle_get_last_max_fee N a ws s = (r, t) \<Longrightarrow> background t = background s"
  by (auto simp: handle_get_nonce_for_address_msg_def handle_get_last_max_fee_def try_user_lock_with_timeout_def
      Let_def split: option.splits if_splits sum.splits)

lemma handle_message_keeps: "handle_message N D m ws s = (r, t) \<Longrightarrow> background t = background s"
  by (auto simp: handle_message_def dest: queries_keep handle_submit_keeps split: option.splits ClientMessage.splits)

end
