(* ===== verification/Listeners_Correct.thy ===== *)
theory Listeners_Correct
  imports Finalize_Correct Handler_Frames
begin

text \<open>
  Correctness of the tasks around the handlers: no block is skipped by the polling for unlocked balances,
  the proofs of a user who unlocked the balance leave the queue, the blocks handled are exactly those
  with a new greatest number, and the gauge of open connections.
\<close>

section \<open>Unlocked balances\<close>

lemma poll_step_range:
  "{f..fst (poll_step N (f, s))} \<subseteq> polled_range N f \<or> fst (poll_step N (f, s)) = f"
  by (auto simp: poll_step_def polled_range_def process_balance_unlocked_events_def split: sum.splits)

text \<open>
  Claim C33. The polling misses no block: whatever Ethereum answers in the turns of the loop, errors
  included, every block after the one the loop started from, up to the one it has reached, is in a
  range whose events were queried.
\<close>

theorem polling_covers_all_blocks:
  fixes s :: "'q batcher"
  shows "{from_block..fst (poll_balance_unlocked_events Ns (from_block, s))} - {from_block} \<subseteq> polled_ranges Ns (from_block, s)"
proof (induction Ns arbitrary: from_block s)
  case (Cons N Ns)
  obtain c s' where p: "poll_step N (from_block, s) = (c, s')" by fastforce
  let ?upto = "fst (poll_balance_unlocked_events Ns (c, s'))"
  have "{c..?upto} - {c} \<subseteq> polled_ranges Ns (c, s')" by (rule Cons.IH)
  moreover have "{from_block..c} \<subseteq> polled_range N from_block \<or> c = from_block"
    using poll_step_range [of from_block N s] p by simp
  ultimately have "{from_block..?upto} - {from_block} \<subseteq> polled_range N from_block \<union> polled_ranges Ns (c, s')"
    by (auto simp: subset_iff) (metis linear order_antisym_conv)
  then show ?case using p by simp
qed simp

context batcher_queue
begin

text \<open>Removing one user: the user's entries go, the others stay, and the books still balance.\<close>

lemma remove_user_held:
  assumes h: "held_inv N fl s" and fl: "\<And>x. x \<in> set fl \<Longrightarrow> sender (fst x) \<noteq> a"
  shows "held_inv N fl (remove_user_proofs_and_reset_state N a s)"
    and "posting_batch (remove_user_proofs_and_reset_state N a s) = posting_batch s"
proof -
  obtain xs q where x: "pq_extract_if (pq N) (batch_queue (batch_state s)) (\<lambda>e _. sender e = a) = (xs, q)"
    by fastforce
  let ?keep = "filter (\<lambda>x. sender (fst x) \<noteq> a)"
  have "mset (pq_iter (pq N) q) = mset (?keep (queue_items N s))"
    using extract_if [OF x] by (simp add: case_prod_beta)
  moreover have "?keep fl = fl" using fl by (simp add: filter_id_conv)
  ultimately have m: "mset (pq_iter (pq N) q @ fl) = mset (?keep (queue_items N s @ fl))" by simp
  have b: "books_ok (queue_items N s @ fl) (user_states s)" using h by (simp add: held_inv_def)
  then have "acct_ok (?keep (queue_items N s @ fl)) ((user_states s)(a := None))"
    by (intro acct_ok_remove_user) (simp add: books_ok_def)
  moreover have "prio_ok (?keep xs') \<and> distinct (map (entry_key \<circ> fst) (?keep xs'))" if "books_ok xs' us" for xs' us
    using that by (auto simp: books_ok_def prio_ok_def intro: distinct_map_filter)
  ultimately have "books_ok (?keep (queue_items N s @ fl)) ((user_states s)(a := None))"
    using b unfolding books_ok_def by blast
  then have "books_ok (pq_iter (pq N) q @ fl) ((user_states s)(a := None))" using books_ok_mset [OF m] by simp
  then show "held_inv N fl (remove_user_proofs_and_reset_state N a s)"
    using h x by (auto simp: remove_user_proofs_and_reset_state_def try_batch_lock_with_timeout_def held_inv_def)
  show "posting_batch (remove_user_proofs_and_reset_state N a s) = posting_batch s"
    using x by (simp add: remove_user_proofs_and_reset_state_def try_batch_lock_with_timeout_def)
qed

lemma remove_user_spec:
  assumes "batch_lock (lk N)"
  shows "mset (queue_items N (remove_user_proofs_and_reset_state N a s)) =
    mset (filter (\<lambda>x. sender (fst x) \<noteq> a) (queue_items N s))"
proof -
  obtain xs q where x: "pq_extract_if (pq N) (batch_queue (batch_state s)) (\<lambda>e _. sender e = a) = (xs, q)"
    by fastforce
  then show ?thesis
    using assms extract_if [OF x]
    by (simp add: remove_user_proofs_and_reset_state_def try_batch_lock_with_timeout_def case_prod_beta)
qed

end

lemma user_has_proofs_core:
  "user_has_proofs_in_queue N a s = (b, t) \<Longrightarrow> batch_state t = batch_state s \<and> user_states t = user_states s"
  by (auto simp: user_has_proofs_in_queue_def try_user_lock_with_timeout_def split: option.splits if_splits)

text \<open>A user without counted proofs has none queued.\<close>

lemma no_proofs_no_entries:
  assumes h: "held_inv N [] s" and l: "user_lock (lk N) a" and n: "length (queue_items N s) < 2 ^ 64"
    and u: "user_has_proofs_in_queue N a s = (False, t)" and x: "x \<in> set (queue_items N s)"
  shows "sender (fst x) \<noteq> a"
proof
  assume a: "sender (fst x) = a"
  have ok: "acct_ok (queue_items N s) (user_states s)" using inv_acct [OF h] by simp
  obtain v where v: "user_states s a = Some v" using ok x a by (auto simp: acct_ok_def)
  then have "proofs_in_batch v = 0"
    using u l by (auto simp: user_has_proofs_in_queue_def try_user_lock_with_timeout_def word_gt_0 split: if_splits)
  then have "(of_nat (length (entries_of a (queue_items N s))) :: u64) = 0"
    using acct_okD [OF ok v] by (simp add: accounted_def)
  moreover have "length (entries_of a (queue_items N s)) < 2 ^ 64"
    using n length_filter_le order_le_less_trans unfolding entries_of_def by blast
  then have "unat (of_nat (length (entries_of a (queue_items N s))) :: u64) = length (entries_of a (queue_items N s))"
    by (simp add: unsigned_of_nat take_bit_nat_eq_self)
  ultimately have "length (entries_of a (queue_items N s)) = 0" by simp
  then show False using x a by (auto simp: entries_of_def filter_empty_conv)
qed

context batcher_queue
begin

lemma process_unlocked_spec:
  assumes "held_inv N [] s" "batch_lock (lk N)" "\<And>a. user_lock (lk N) a" "length (queue_items N s) < 2 ^ 64"
  shows "held_inv N [] (process_unlocked_users N as s) \<and>
    mset (queue_items N (process_unlocked_users N as s)) \<subseteq># mset (queue_items N s) \<and>
    (\<forall>a \<in> set as. user_balance_is_unlocked (eth N) a \<longrightarrow>
       (\<forall>x \<in> set (queue_items N (process_unlocked_users N as s)). sender (fst x) \<noteq> a))"
  using assms(1,4)
proof (induction as arbitrary: s)
  case (Cons a as)
  obtain b s1 where u: "user_has_proofs_in_queue N a s = (b, s1)" by fastforce
  note c = user_has_proofs_core [OF u]
  define s2 where "s2 = (if b \<and> user_balance_is_unlocked (eth N) a then remove_user_proofs_and_reset_state N a s1 else s1)"
  have h1: "held_inv N [] s1" using Cons.prems(1) held_inv_cong(1) [of s1 s N "[]"] c by simp
  have h2: "held_inv N [] s2" using h1 remove_user_held(1) [OF h1] by (simp add: s2_def)
  have sub: "mset (queue_items N s2) \<subseteq># mset (queue_items N s)"
    using c remove_user_spec [OF assms(2), of a s1] by (simp add: s2_def multiset_filter_subset)
  have gone: "sender (fst x) \<noteq> a" if "x \<in> set (queue_items N s2)" "user_balance_is_unlocked (eth N) a" for x
  proof (cases b)
    case True
    then show ?thesis using that mset_eq_set [OF remove_user_spec [OF assms(2), of a s1]] by (auto simp: s2_def)
  next
    case False
    then show ?thesis
      using no_proofs_no_entries [OF Cons.prems(1) assms(3) Cons.prems(2)] u that c by (auto simp: s2_def)
  qed
  have "length (queue_items N s2) < 2 ^ 64" using size_mset_mono [OF sub] Cons.prems(2) by simp
  from Cons.IH [OF h2 this] have IH: "held_inv N [] (process_unlocked_users N as s2)"
    "mset (queue_items N (process_unlocked_users N as s2)) \<subseteq># mset (queue_items N s2)"
    "\<forall>a \<in> set as. user_balance_is_unlocked (eth N) a \<longrightarrow>
       (\<forall>x \<in> set (queue_items N (process_unlocked_users N as s2)). sender (fst x) \<noteq> a)" by blast+
  have "process_unlocked_users N (a # as) s = process_unlocked_users N as s2" using u by (simp add: s2_def)
  moreover have "set (queue_items N (process_unlocked_users N as s2)) \<subseteq> set (queue_items N s2)"
    using IH(2) by (metis set_mset_mono set_mset_mset)
  ultimately show ?case using IH gone sub by (auto intro: subset_mset.order_trans)
qed simp

end

text \<open>
  Claim C34. A user who unlocked the balance has no proof left in the queue, if every lock is obtained in time: after the events of a
  range have been processed, with no time-out on a user or on the queue, from a state in which nothing is in flight and the
  books balance, no proof of a user among them whose balance is still unlocked is queued, nothing was added, and the books
  balance. (After a time-out the user is skipped, and the events are not read again.)
\<close>

theorem unlocked_users_lose_their_proofs:
  assumes "batch_pq (pq N)" "held_inv N [] s" "batch_lock (lk N)" "\<forall>a. user_lock (lk N) a"
    and "length (queue_items N s) < 2 ^ 64"
    and "process_balance_unlocked_events N from_block s = (Inr b, t)"
    and "query_balance_unlocked_events (eth N) from_block b = Inr users"
    and "a \<in> set users" "user_balance_is_unlocked (eth N) a"
  shows "(\<forall>x \<in> set (queue_items N t). sender (fst x) \<noteq> a) \<and> mset (queue_items N t) \<subseteq># mset (queue_items N s) \<and>
    held_inv N [] t"
proof -
  have "t = process_unlocked_users N users s"
    using assms(6,7) by (auto simp: process_balance_unlocked_events_def split: sum.splits)
  then show ?thesis
    using batcher_queue.process_unlocked_spec [OF batcher_queue.intro [OF assms(1)] assms(2,3) _ assms(5)] assms(4,8,9)
    by blast
qed

definition sample_unlock_env :: "(item list, VerificationDataCommitment list) batcher_env" where
  "sample_unlock_env = sample_env\<lparr>eth := sample_eth\<lparr>user_unlock_block := (\<lambda>_ _ _. Inr 7), unlocked_events := (\<lambda>_ _ _ _. Inr [1])\<rparr>\<rparr>"

lemma sample_unlock_sel [simp]:
  "pq sample_unlock_env = list_pq entry_key" "lk sample_unlock_env = free_locks"
  "user_balance_is_unlocked (eth sample_unlock_env) 1" "get_current_block_number (eth sample_unlock_env) = Inr 100"
  "query_balance_unlocked_events (eth sample_unlock_env) f 100 = Inr [1]"
  by (simp_all add: sample_unlock_env_def user_balance_is_unlocked_def user_balance_is_unlocked_retryable_def
      sample_eth_def retry_first_try get_current_block_number_def get_current_block_number_retryable_def
      query_balance_unlocked_events_def query_balance_unlocked_events_retryable_def)

theorem unlocked_users_lose_their_proofs_witness:
  "1 \<notin> (sender \<circ> fst) ` set (queue_items sample_unlock_env (snd (process_balance_unlocked_events sample_unlock_env 50 sample_one))) \<and>
   held_inv sample_unlock_env [] (snd (process_balance_unlocked_events sample_unlock_env 50 sample_one))"
proof -
  have h: "held_inv sample_unlock_env [] sample_one" using sample_one_inv(1) by (simp add: held_inv_def)
  obtain t where t: "process_balance_unlocked_events sample_unlock_env 50 sample_one = (Inr 100, t)"
    by (simp add: process_balance_unlocked_events_def)
  show ?thesis
    using unlocked_users_lose_their_proofs [OF _ h _ _ _ t, of "[1]" 1] sample_batch_pq t by auto
qed

section \<open>New blocks\<close>

text \<open>The block numbers the streams deliver, up to the turn in which neither has a block.\<close>

definition turn_block :: "stream_item \<times> stream_item \<Rightarrow> u64 option" where
  "turn_block t =
     map_option (\<lambda>n. case n of None \<Rightarrow> 0 | Some b \<Rightarrow> b) (case fst t of Some b \<Rightarrow> Some b | None \<Rightarrow> snd t)"

definition delivered :: "(stream_item \<times> stream_item) list \<Rightarrow> u64 list" where
  "delivered ts = map (the \<circ> turn_block) (takeWhile (\<lambda>t. turn_block t \<noteq> None) ts)"

lemma delivered_simps [simp]:
  "delivered [] = []"
  "delivered (t # ts) = (case turn_block t of None \<Rightarrow> [] | Some n \<Rightarrow> n # delivered ts)"
  by (auto simp: delivered_def split: option.splits)

lemma listen_step:
  "listen_new_blocks_loop l (t # ts) =
     (case turn_block t of None \<Rightarrow> []
      | Some n \<Rightarrow> if n \<le> l then listen_new_blocks_loop l ts else n # listen_new_blocks_loop n ts)"
  by (cases t) (auto simp: turn_block_def Let_def split: option.splits)

text \<open>
  The blocks handled are exactly those that are new: of the numbers the two streams deliver, in
  order, the loop handles those above the last block seen before and above every number delivered
  earlier, each once, in order.
\<close>

lemma blocks_handled_exactly:
  "listen_new_blocks_loop last_seen ts =
     (let ns = delivered ts in
      map ((!) ns) (filter (\<lambda>i. last_seen < ns ! i \<and> (\<forall>j < i. ns ! j < ns ! i)) [0..<length ns]))"
proof (induction ts arbitrary: last_seen)
  case (Cons t ts)
  show ?case
  proof (cases "turn_block t")
    case (Some n)
    let ?ns = "delivered ts"
    have shift: "filter (\<lambda>i. last_seen < (n # ?ns) ! i \<and> (\<forall>j < i. (n # ?ns) ! j < (n # ?ns) ! i)) (map Suc is) =
        map Suc (filter (\<lambda>i. max last_seen n < ?ns ! i \<and> (\<forall>j < i. ?ns ! j < ?ns ! i)) is)" for "is"
      by (induction "is") (auto simp: less_Suc_eq_0_disj)
    have "[0..<length (n # ?ns)] = 0 # map Suc [0..<length ?ns]" by (simp add: upt_conv_Cons map_Suc_upt del: upt_Suc)
    then show ?thesis
      using Some Cons.IH [of last_seen] Cons.IH [of n] shift
      by (auto simp: listen_step Let_def max_def simp del: listen_new_blocks_loop.simps upt_Suc)
  qed (simp add: listen_step del: listen_new_blocks_loop.simps)
qed simp

section \<open>Connections\<close>

lemma handle_messages_keep: "handle_messages N D ms ws s = (r, t) \<Longrightarrow> background t = background s"
proof (induction ms arbitrary: s)
  case (Cons m ms)
  obtain r' s' where h: "handle_message N D m ws s = (r', s')" by fastforce
  then show ?case using Cons.prems Cons.IH [of s'] handle_message_keeps [OF h] by (cases r') auto
qed simp

text \<open>
  A connection that ends leaves the gauge of open connections as it found it, except when the
  version message cannot be sent: then the task ends at once and the connection is counted for ever.
\<close>

lemma connection_gauge:
  assumes "handle_connection N D c ws s = (Ret r, t)"
  shows "open_connections (metrics t) = open_connections (metrics s) +
    (if accept_async c = Accepted \<and> isl (version_msg c) then 1 else 0)"
proof -
  let ?s = "send_message ws (SubmitResp (ProtocolVersion EXPECTED_PROTOCOL_VERSION)) (add_open_connections 1 s)"
  have "open_connections (metrics t) = open_connections (metrics s)"
    if c: "accept_async c = Accepted" "version_msg c = Inr v" "first_msg c = FirstMsg m" for v m
  proof -
    obtain r' t' where h: "handle_messages N D (m # later_msgs c) ws ?s = (Ret r', t')"
      using assms c by (auto simp: handle_connection_def and_then_Ret_iff simp del: handle_messages.simps)
    have "open_connections (metrics t') = open_connections (metrics s) + 1"
      using handle_messages_keep [OF h] by (simp add: background_def send_message_def add_open_connections_def)
    then show ?thesis
      using assms c h by (auto simp: handle_connection_def add_open_connections_def Let_def simp del: handle_messages.simps)
  qed
  note full = this
  show ?thesis
  proof (cases "accept_async c = Accepted \<and> (\<exists>v m. version_msg c = Inr v \<and> first_msg c = FirstMsg m)")
    case True
    then show ?thesis using full by auto
  next
    case False
    then show ?thesis
      using assms
      by (cases "accept_async c"; cases "version_msg c"; cases "first_msg c")
        (simp_all add: handle_connection_def add_open_connections_def user_error_def send_message_def Let_def, auto)
  qed
qed

definition sample_connection :: connection where
  "sample_connection = \<lparr> accept_async = Accepted, version_msg = Inl ''broken pipe'', first_msg = FirstClosed,
     later_msgs = [], broken = False \<rparr>"

lemma connection_gauge_witness:
  "open_connections (metrics (snd (handle_connection sample_env (\<lambda>_. None) sample_connection 1 sample_one))) = 1"
proof -
  obtain r t where t: "handle_connection sample_env (\<lambda>_. None) sample_connection 1 sample_one = (Ret r, t)"
    by (simp add: handle_connection_def sample_connection_def)
  show ?thesis using connection_gauge [OF t] t by (simp add: sample_connection_def zero_metrics_def)
qed

end
