(* ===== verification/Queue_Effects.thy ===== *)
theory Queue_Effects
  imports Eviction Listeners_Correct
begin

text \<open>
  What every operation of the batcher does to the queue, whatever its outcome and whatever the state: a handler
  that returns, panics or waits for itself, with the books balanced or not, on a queue with room or a full one.
  The queue is taken up to order, as a multiset of items (an entry with the priority it is queued under).
\<close>

section \<open>A finalization that succeeds\<close>

text \<open>Its task is on chain, whatever the state of the queue and of the users.\<close>

lemma finalize_posted:
  assumes "finalize_batch N b batch gp s = (Ret (Inr ()), t)"
  obtains tr where "task_created N gp batch tr"
proof -
  obtain bytes where bytes: "cbor_serialize_batch N (map (verification_data \<circ> nonced_verification_data) batch) = Inr bytes"
    using assms by (cases "cbor_serialize_batch N (map (verification_data \<circ> nonced_verification_data) batch)")
      (auto simp: finalize_batch_def)
  obtain tr where tr: "mt_build (merkle N) (map verification_data_commitment batch) = Some tr"
    using assms bytes by (cases "mt_build (merkle N) (map verification_data_commitment batch)") (auto simp: finalize_batch_def)
  obtain x s1 where sb: "submit_batch N bytes (mt_root (merkle N) tr)
      (map (hash_data (keccak N)) (map verification_data_commitment batch)) batch gp (s\<lparr>last_uploaded_batch_block := b\<rparr>) = (Ret x, s1)"
    using assms bytes tr by (auto simp: finalize_batch_def and_then_Ret_iff)
  have ok: "x = Inr ()"
  proof (cases x)
    case (Inl e)
    then have "submission_failed N batch e s1 = (Ret (Inr ()), t)" using assms bytes tr sb by (simp add: finalize_batch_def)
    then show ?thesis by (auto simp: submission_failed_def split: BatcherError.splits TransactionSendError.splits)
  qed simp
  have "task_created N gp batch tr"
    by (rule submit_batch_success [OF sb [unfolded ok]]) (use tr bytes in \<open>auto simp: task_created_def\<close>)
  then show ?thesis by (rule that)
qed

section \<open>Entering a queue\<close>

text \<open>
  An entry whose key is already queued does not enter: the queue keeps the old entry and only changes its
  priority. The restoration of a batch skips an entry when the queue is full.
\<close>

definition enter :: "BatchQueueEntry \<Rightarrow> item multiset \<Rightarrow> item multiset" where
  "enter e P =
     (if entry_key e \<in> entry_key ` fst ` set_mset P
      then image_mset (\<lambda>x. if entry_key (fst x) = entry_key e then (fst x, prio_of e) else x) P
      else add_mset (e, prio_of e) P)"

definition readmit :: "nat \<Rightarrow> BatchQueueEntry list \<Rightarrow> item multiset \<Rightarrow> item multiset" where
  "readmit cap es P = fold (\<lambda>e P. if cap \<le> size P \<and> P \<noteq> {#} then P else enter e P) es P"

text \<open>The fee an item is ranked by.\<close>

abbreviation rank :: "item \<Rightarrow> u256" where
  "rank x \<equiv> prio_max_fee (snd x)"

lemma enter_entries: "fst ` set_mset (enter e P) \<subseteq> insert e (fst ` set_mset P)"
proof -
  have "fst ` set_mset (image_mset (\<lambda>x. if entry_key (fst x) = entry_key e then (fst x, prio_of e) else x) P) = fst ` set_mset P"
    unfolding set_image_mset image_image by (intro image_cong) simp_all
  then show ?thesis by (auto simp: enter_def)
qed

lemma readmit_Cons:
  "readmit cap (e # es) P = readmit cap es (if cap \<le> size P \<and> P \<noteq> {#} then P else enter e P)"
  by (simp add: readmit_def)

lemma readmit_Nil [simp]: "readmit cap [] P = P"
  by (simp add: readmit_def)

lemma readmit_entries: "fst ` set_mset (readmit cap es P) \<subseteq> set es \<union> fst ` set_mset P"
proof (induction es arbitrary: P)
  case (Cons e es)
  show ?case
  proof (cases "cap \<le> size P \<and> P \<noteq> {#}")
    case True
    then show ?thesis using Cons.IH [of P] by (auto simp: readmit_Cons)
  next
    case False
    then have "readmit cap (e # es) P = readmit cap es (enter e P)" by (auto simp: readmit_Cons)
    then show ?thesis using Cons.IH [of "enter e P"] enter_entries [of e P] by auto
  qed
qed simp

lemma rank_of_prio: "snd y \<le> snd x \<Longrightarrow> rank x \<le> rank y" for x y :: item
  by (auto simp: prio_le_iff)

abbreviation queued :: "('q, 't) batcher_env \<Rightarrow> 'q batcher \<Rightarrow> item multiset" where
  "queued N s \<equiv> mset (queue_items N s)"

section \<open>Extraction\<close>

context batch_pq
begin

lemma push_enter: "mset (pq_iter Q (pq_push Q q e (prio_of e))) = enter e (mset (pq_iter Q q))"
proof -
  have "mset (pushed entry_key xs e (prio_of e)) = enter e (mset xs)" for xs :: "item list"
    by (auto simp: pushed_def enter_def case_prod_beta intro!: image_mset_cong)
  then show ?thesis by (simp add: iter_push)
qed

lemma reject_loop_any:
  assumes "n = CBOR_ARRAY_MAX_OVERHEAD + sizes_sum (pq_iter Q q)"
  shows "\<exists>r rej q'. reject_loop Q gp mb mq cost q n acc = Some (r, q') \<and>
    mset (pq_iter Q q) = mset rej + mset (pq_iter Q q') \<and>
    (\<forall>x \<in> set rej. \<forall>y \<in> set (pq_iter Q q'). snd y \<le> snd x) \<and>
    (r = Panicked \<or> r = Ret (acc @ rej) \<and>
       (pq_iter Q q' = [] \<or> CBOR_ARRAY_MAX_OVERHEAD + sizes_sum (pq_iter Q q') \<le> mb \<and> length (pq_iter Q q') \<le> mq))"
  using assms
proof (induction "length (pq_iter Q q)" arbitrary: q n acc)
  case 0
  then have "pq_iter Q q = []" by simp
  then show ?case
    using should_remove_empty by (subst reject_loop.simps) (fastforce simp del: reject_loop.simps)
next
  case (Suc k)
  have ne: "pq_iter Q q \<noteq> []" using Suc.hyps(2) by auto
  show ?case
  proof (cases "should_remove Q gp mb mq cost q n")
    case None
    then have "reject_loop Q gp mb mq cost q n acc = Some (Panicked, q)" by (subst reject_loop.simps) simp
    then show ?thesis by (intro exI [of _ Panicked] exI [of _ "[]"] exI [of _ q]) simp
  next
    case (Some rm)
    show ?thesis
    proof (cases rm)
      case False
      have "reject_loop Q gp mb mq cost q n acc = Some (Ret (acc @ []), q)"
        using Some False by (subst reject_loop.simps) simp
      moreover have "CBOR_ARRAY_MAX_OVERHEAD + sizes_sum (pq_iter Q q) \<le> mb \<and> length (pq_iter Q q) \<le> mq"
      proof -
        obtain x where "pq_peek Q q = Some x" using ne peek_None [of q] by (cases "pq_peek Q q") auto
        then show ?thesis
          using Some False Suc.prems by (auto simp: should_remove_def Let_def len_iter split: prod.splits)
      qed
      ultimately show ?thesis by (intro exI [of _ "Ret (acc @ [])"] exI [of _ "[]"] exI [of _ q]) simp
    next
      case True
      obtain x q' where pop: "pq_pop Q q = Some (x, q')"
        using ne pop_None [of q] by (cases "pq_pop Q q") auto
      have len: "k = length (pq_iter Q q')" using pop_length [OF pop] Suc.hyps(2) by simp
      have m: "mset (pq_iter Q q) = add_mset x (mset (pq_iter Q q'))" by (rule pop_mset [OF pop])
      have "sizes_sum (pq_iter Q q) = entry_size (fst x) + sizes_sum (pq_iter Q q')"
        using sizes_sum_mset [of "pq_iter Q q" "x # pq_iter Q q'"] m by (simp add: sizes_sum_def)
      then have n': "n - entry_size (fst x) = CBOR_ARRAY_MAX_OVERHEAD + sizes_sum (pq_iter Q q')"
        using Suc.prems by simp
      have step: "reject_loop Q gp mb mq cost q n acc =
          reject_loop Q gp mb mq cost q' (n - entry_size (fst x)) (acc @ [x])"
        using pop Some True by (subst reject_loop.simps) simp
      obtain r rej q'' where ih: "reject_loop Q gp mb mq cost q' (n - entry_size (fst x)) (acc @ [x]) = Some (r, q'')"
        "mset (pq_iter Q q') = mset rej + mset (pq_iter Q q'')"
        "\<forall>x \<in> set rej. \<forall>y \<in> set (pq_iter Q q''). snd y \<le> snd x"
        "r = Panicked \<or> r = Ret ((acc @ [x]) @ rej) \<and> (pq_iter Q q'' = [] \<or>
           CBOR_ARRAY_MAX_OVERHEAD + sizes_sum (pq_iter Q q'') \<le> mb \<and> length (pq_iter Q q'') \<le> mq)"
        using Suc.hyps(1) [OF len n', of "acc @ [x]"] by blast
      have "set (pq_iter Q q'') \<subseteq> set (pq_iter Q q)"
        using mset_eq_setD [of "pq_iter Q q'" "rej @ pq_iter Q q''"] ih(2) mset_eq_setD [of "pq_iter Q q" "x # pq_iter Q q'"] m
        by auto
      then have "\<forall>z \<in> set (x # rej). \<forall>y \<in> set (pq_iter Q q''). snd y \<le> snd z"
        using ih(3) pop_Some [OF pop] by auto
      then show ?thesis
        using ih m step by (intro exI [of _ r] exI [of _ "x # rej"] exI [of _ q'']) auto
    qed
  qed
qed

lemma extract_any:
  obtains (batch) xs q' where "extract_batch_directly Q q gp mb mq cost = (Ret (Inr (map fst xs)), q')"
      "mset (pq_iter Q q) = mset (pq_iter Q q') + mset xs" "xs \<noteq> []"
      "\<And>x y. x \<in> set (pq_iter Q q') \<Longrightarrow> y \<in> set xs \<Longrightarrow> rank x \<le> rank y"
      "CBOR_ARRAY_MAX_OVERHEAD + sizes_sum xs \<le> mb" "length xs \<le> mq"
    | (too_costly) q' where "extract_batch_directly Q q gp mb mq cost = (Ret (Inl BatchCostTooHigh), q')"
      "mset (pq_iter Q q') = mset (pq_iter Q q)"
    | (panic) lost q' where "extract_batch_directly Q q gp mb mq cost = (Panicked, q')"
      "mset (pq_iter Q q) = mset (pq_iter Q q') + mset lost"
      "\<And>x y. x \<in> set lost \<Longrightarrow> y \<in> set (pq_iter Q q') \<Longrightarrow> rank x \<le> rank y"
proof -
  obtain r rej q1 where l: "reject_loop Q gp mb mq cost q
        (CBOR_ARRAY_MAX_OVERHEAD + sizes_sum (pq_iter Q q)) [] = Some (r, q1)"
    and m: "mset (pq_iter Q q) = mset rej + mset (pq_iter Q q1)"
    and top: "\<forall>x \<in> set rej. \<forall>y \<in> set (pq_iter Q q1). snd y \<le> snd x"
    and r: "r = Panicked \<or> r = Ret rej \<and> (pq_iter Q q1 = [] \<or>
       CBOR_ARRAY_MAX_OVERHEAD + sizes_sum (pq_iter Q q1) \<le> mb \<and> length (pq_iter Q q1) \<le> mq)"
    using reject_loop_any [OF refl, of gp mb mq cost q "[]"] by auto
  have e: "extract_batch_directly Q q gp mb mq cost = and_then (r, q1) (\<lambda>rejected_entries q.
             if pq_is_empty Q q then (Ret (Inl BatchCostTooHigh), push_all Q q rejected_entries)
             else (case drain_loop Q q [] of
                     None \<Rightarrow> (Stuck, q)
                   | Some (batch_for_posting, q) \<Rightarrow> (Ret (Inr batch_for_posting), push_all Q q rejected_entries)))"
    using l by (simp add: extract_batch_directly_def calculate_batch_size_sum)
  show ?thesis
  proof (cases "r = Panicked")
    case True
    show ?thesis by (rule panic [of q1 rej]) (use e True m top rank_of_prio in auto)
  next
    case False
    then have ret: "r = Ret rej" using r by blast
    show ?thesis
    proof (cases "pq_iter Q q1 = []")
      case True
      show ?thesis
        by (rule too_costly [of "push_all Q q1 rej"])
          (use e ret True push_back [OF m True] m in \<open>simp_all add: is_empty_iter\<close>)
    next
      case ne: False
      obtain xs q2 where d: "drain_loop Q q1 [] = Some (map fst xs, q2)"
        and xs: "mset xs = mset (pq_iter Q q1)" and e2: "pq_iter Q q2 = []"
        using drain_loop_spec [of q1 "[]"] by auto
      have pb: "mset (pq_iter Q (push_all Q q2 rej)) = mset rej" by (rule push_back [OF m e2])
      show ?thesis
      proof (rule batch)
        show "extract_batch_directly Q q gp mb mq cost = (Ret (Inr (map fst xs)), push_all Q q2 rej)"
          using e ret ne d by (simp add: is_empty_iter)
        show "mset (pq_iter Q q) = mset (pq_iter Q (push_all Q q2 rej)) + mset xs" using m xs pb by simp
        show "xs \<noteq> []" using ne xs by auto
        show "CBOR_ARRAY_MAX_OVERHEAD + sizes_sum xs \<le> mb" "length xs \<le> mq"
          using r ret ne sizes_sum_mset [OF xs] mset_eq_length [OF xs] by auto
        show "rank x \<le> rank y" if "x \<in> set (pq_iter Q (push_all Q q2 rej))" "y \<in> set xs" for x y
          using that top mset_eq_setD [OF pb] mset_eq_setD [OF xs] rank_of_prio by blast
      qed
    qed
  qed
qed

end

text \<open>The batch that an extraction may take from the queue, with no assumption on the state.\<close>

context batcher_queue
begin

abbreviation cap :: "'q batcher \<Rightarrow> nat" where
  "cap s \<equiv> max_size (batch_state s)"

lemma extract_if_ready_any:
  obtains (kept) t where "extract_batch_if_ready N b gp s = (Ret None, t)" "queued N t = queued N s"
      "posting_batch t = posting_batch s" "cap t = cap s"
    | (taken) xs t where "extract_batch_if_ready N b gp s = (Ret (Some (map fst xs)), t)"
      "\<not> posting_batch s" "posting_batch t" "queued N s = queued N t + mset xs" "xs \<noteq> []"
      "\<And>x y. x \<in># queued N t \<Longrightarrow> y \<in> set xs \<Longrightarrow> rank x \<le> rank y" "cap t = cap s"
      "CBOR_ARRAY_MAX_OVERHEAD + sizes_sum xs \<le> max_batch_byte_size (cfg N)" "length xs \<le> max_batch_proof_qty (cfg N)"
    | (panic) lost t where "extract_batch_if_ready N b gp s = (Panicked, t)" "\<not> posting_batch s" "posting_batch t"
      "queued N s = queued N t + mset lost" "cap t = cap s"
      "\<And>x y. x \<in> set lost \<Longrightarrow> y \<in># queued N t \<Longrightarrow> rank x \<le> rank y"
proof (cases "pq_len (pq N) (batch_queue (batch_state s)) < 1 \<or>
    b < last_uploaded_batch_block s + min_block_interval (cfg N) \<or> posting_batch s")
  case True
  then have "extract_batch_if_ready N b gp s = (Ret None, s)" by (auto simp: extract_batch_if_ready_def Let_def)
  then show ?thesis by (rule kept) simp_all
next
  case False
  let ?q = "batch_queue (batch_state s)"
  show ?thesis
  proof (cases rule: extract_any [of ?q gp "max_batch_byte_size (cfg N)" "max_batch_proof_qty (cfg N)"
        "constant_gas_cost (aggregator_fee_percentage_multiplier (cfg N)) (aggregator_gas_cost (cfg N))"])
    case (batch xs q')
    show ?thesis
      by (rule taken [of xs "update_queue_metrics (pq_len (pq N) q')
                 (case calculate_batch_size (pq N) q' of Inr n \<Rightarrow> n | Inl _ \<Rightarrow> 0)
                 (set_queue q' (s\<lparr>posting_batch := True\<rparr>))"])
        (use False batch in \<open>auto simp: extract_batch_if_ready_def Let_def set_queue_def update_queue_metrics_def\<close>)
  next
    case (too_costly q')
    show ?thesis
      by (rule kept [of "(set_queue q' (s\<lparr>posting_batch := True\<rparr>))\<lparr>posting_batch := False\<rparr>"])
        (use False too_costly in \<open>auto simp: extract_batch_if_ready_def Let_def set_queue_def\<close>)
  next
    case (panic lost q')
    show ?thesis
      by (rule that(3) [of "set_queue q' (s\<lparr>posting_batch := True\<rparr>)" lost])
        (use False panic in \<open>auto simp: extract_batch_if_ready_def Let_def set_queue_def\<close>)
  qed
qed

section \<open>Submission\<close>

lemma add_and_count_any:
  assumes "add_and_count N nvd ws sig addr u s = (out, t)"
  shows "queued N t = enter (new_entry N nvd ws sig addr) (queued N s)"
proof -
  have "prio_of (new_entry N nvd ws sig addr) = BatchQueueEntryPriority (max_fee nvd) (nonce nvd)"
    by (simp add: prio_of_def new_entry_def BatchQueueEntry_new_def)
  then show ?thesis
    using assms push_enter [of "batch_queue (batch_state s)" "new_entry N nvd ws sig addr"]
    by (auto simp: add_and_count_def add_to_batch_eq Let_def split: prod.splits)
qed

lemma evict_loop_any:
  assumes "evict_loop N own fee cs s = (r, t)"
  obtains (none) "r = Ret None" "batch_state t = batch_state s" "user_states t = user_states s"
    | (one) x where "queued N s = add_mset x (queued N t)" "entry_fee (fst x) < fee" "sender (fst x) \<noteq> own"
      "r \<noteq> Ret None"
  using assms
proof (induction cs arbitrary: s thesis)
  case Nil
  then show ?case by simp
next
  case (Cons c cs)
  show ?case
  proof (cases "\<exists>u tg xs y. user_states s c = Some u \<and> c \<noteq> own \<and> user_try_lock (lk N) c \<and>
      filter (\<lambda>x. sender (fst x) = c \<and> entry_fee (fst x) < fee) (queue_items N s) = tg # xs \<and>
      pq_remove (pq N) (batch_queue (batch_state s)) (fst tg) = Some y")
    case False
    then have "evict_loop N own fee cs s = (r, t)"
      using Cons.prems(3) by (auto split: option.splits if_splits list.splits)
    then show ?thesis by (rule Cons.IH [rotated 2]) (use Cons.prems(1,2) in blast)+
  next
    case True
    then obtain u tg xs e p q where c: "c \<noteq> own"
      and tg: "filter (\<lambda>x. sender (fst x) = c \<and> entry_fee (fst x) < fee) (queue_items N s) = tg # xs"
      and rm: "pq_remove (pq N) (batch_queue (batch_state s)) (fst tg) = Some ((e, p), q)"
      and red: "evict_loop N own fee (c # cs) s =
         and_then (update_evicted_user_state_with_lock N ReadGuard e u (set_queue q s))
           (\<lambda>_ s. (Ret (Some e), notify (messaging_sink e) (SubmitResp UnderpricedProof) s))"
      by auto
    have "tg \<in> set (filter (\<lambda>x. sender (fst x) = c \<and> entry_fee (fst x) < fee) (queue_items N s))" using tg by simp
    then have t: "tg \<in> set (queue_items N s)" "sender (fst tg) = c" "entry_fee (fst tg) < fee" by auto
    have "(e, p) = tg"
      using remove_Some [OF rm] t(1) distinct_map_eqD [OF distinct_keys, of "(e, p)" "batch_queue (batch_state s)" tg] by simp
    obtain r' s' where u: "update_evicted_user_state_with_lock N ReadGuard e u (set_queue q s) = (r', s')" by fastforce
    have "batch_state s' = batch_state (set_queue q s)"
      using u by (auto simp: update_evicted_user_state_with_lock_def write_blocks_def Let_def split: option.splits prod.splits)
    moreover have "batch_state t = batch_state s'" "r \<noteq> Ret None"
      using Cons.prems(3) unfolding red u by (cases r'; auto)+
    ultimately show ?thesis
      using Cons.prems(2) [of tg] remove_mset [OF rm] \<open>(e, p) = tg\<close> t c by simp
  qed
qed

text \<open>The ways a submission may change the queue, whatever its outcome.\<close>

lemma handle_new_proof_any:
  assumes h: "handle_new_proof N nvd ws sig addr u s = (out, t)"
  obtains (same) "queued N t = queued N s"
    | (accepted) "size (queued N s) < cap s" "queued N t = enter (new_entry N nvd ws sig addr) (queued N s)"
    | (displaced) x P where "queued N s = add_mset x P" "cap s \<le> Suc (size P)" "entry_fee (fst x) < max_fee nvd"
      "sender (fst x) \<noteq> addr" "queued N t = enter (new_entry N nvd ws sig addr) P"
    | (evicted) x P where "queued N s = add_mset x P" "cap s \<le> Suc (size P)" "queued N t = P"
proof -
  obtain ok s1 where v: "verify_proof_if_enabled N (verification_data nvd) ws s = (ok, s1)" by fastforce
  note v1 = verify_proof_core [OF v]
  show ?thesis
  proof (cases "max_fee nvd \<le> last_max_fee_limit u \<and> ok \<and> batch_lock (lk N)")
    case False
    then have "queued N t = queued N s"
      using h v v1 by (auto simp: handle_new_proof_def try_batch_lock_with_timeout_def Let_def not_le split: if_splits)
    then show ?thesis by (rule same)
  next
    case True
    obtain r s2 where mk: "make_room N addr nvd ws s1 = (r, s2)" by fastforce
    have h2: "and_then (r, s2) (\<lambda>room s. if room = None then (Ret (), s) else add_and_count N nvd ws sig addr u s) = (out, t)"
      using h v True mk leD [of "max_fee nvd" "last_max_fee_limit u"]
      by (auto simp: handle_new_proof_def try_batch_lock_with_timeout_def Let_def)
    show ?thesis
    proof (cases "is_queue_full (pq N) (batch_state s1)")
      case False
      then have "add_and_count N nvd ws sig addr u s1 = (out, t)" using h2 mk by (auto simp: make_room_def)
      then show ?thesis
        using accepted add_and_count_any [of nvd ws sig addr u s1 out t] v1 False by (simp add: is_queue_full_def len_iter)
    next
      case full: True
      obtain r' s' where e: "evict_loop N addr (max_fee nvd)
          (eviction_candidates (max_fee nvd) (queue_items N s1)) s1 = (r', s')" by fastforce
      have le: "cap s \<le> size (queued N s)" using full v1 by (simp add: is_queue_full_def len_iter)
      from e show ?thesis
      proof (cases rule: evict_loop_any)
        case none
        then have "queued N t = queued N s" using h2 mk e full v1 by (auto simp: make_room_def)
        then show ?thesis by (rule same)
      next
        case (one x)
        have m: "queued N s = add_mset x (queued N s')" using one(1) v1 by simp
        show ?thesis
        proof (cases r')
          case (Ret ev)
          then have "add_and_count N nvd ws sig addr u s' = (out, t)"
            using h2 mk e full one(4) by (cases ev) (auto simp: make_room_def)
          then show ?thesis using displaced [OF m _ one(2,3)] add_and_count_any [of nvd ws sig addr u s' out t] le m by simp
        qed (use evicted [OF m] h2 mk e full le m in \<open>auto simp: make_room_def\<close>)
      qed
    qed
  qed
qed

lemma handle_replacement_any:
  assumes h: "handle_replacement_message N nvd ws sig addr u s = (out, t)"
  obtains (same) "queued N t = queued N s"
    | (replaced) entry p P where "queued N s = add_mset (entry, p) P" "entry_fee entry \<le> max_fee nvd"
      "entry_key entry = entry_key (replacement_of N entry nvd sig ws)"
      "queued N t = add_mset (replacement_of N entry nvd sig ws, prio_of (replacement_of N entry nvd sig ws)) P"
proof (cases "queued N t = queued N s")
  case False
  obtain ok s1 where v: "verify_proof_if_enabled N (verification_data nvd) ws s = (ok, s1)" by fastforce
  note v1 = verify_proof_core [OF v]
  have lock: "batch_lock (lk N)"
    by (rule ccontr) (use h False in \<open>auto simp: handle_replacement_message_def try_batch_lock_with_timeout_def Let_def\<close>)
  have "get_entry (pq N) (batch_state s) addr (nonce nvd) \<noteq> None"
    by (rule notI) (use h False lock in \<open>auto simp: handle_replacement_message_def try_batch_lock_with_timeout_def\<close>)
  then obtain entry where g: "get_entry (pq N) (batch_state s) addr (nonce nvd) = Some entry" by blast
  let ?r = "replacement_of N entry nvd sig ws"
  obtain least where b: "min_bump (min_bump_percentage (cfg N)) (entry_fee entry) = Some least" "ok \<and> least \<le> max_fee nvd"
    using h False v v1 lock g
    by (cases "min_bump (min_bump_percentage (cfg N)) (entry_fee entry)")
      (auto simp: handle_replacement_message_def try_batch_lock_with_timeout_def Let_def split: if_splits)
  let ?s = "notify (messaging_sink entry) CloseSink (notify (messaging_sink entry) (SubmitResp ProofReplaced) s1)"
  have ar: "apply_replacement N (entry_fee entry) ?r addr u ?s = (out, t)"
    using h False v v1 lock g b
    by (auto simp: handle_replacement_message_def try_batch_lock_with_timeout_def Let_def split: if_splits)
  obtain p where e: "(entry, p) \<in> set (queue_items N s)" "sender entry = addr" "entry_nonce entry = nonce nvd"
    by (rule get_entry_Some [OF g])
  have key: "entry_key (fst (entry, p)) = entry_key ?r" using e by (simp add: entry_key_def)
  have "queue_items N t = pq_iter (pq N) (queue_replace (pq N) (batch_queue (batch_state s)) ?r (prio_of ?r))"
    using ar v1 by (auto simp: apply_replacement_def Let_def or_panic_def prio_of_def split: option.splits)
  then have "queued N t = add_mset (?r, prio_of ?r) (queued N s - {#(entry, p)#})"
    using queue_replace_mset [OF e(1) key] by simp
  moreover have "entry_fee entry \<le> max_fee nvd" using min_bump_ge [OF b(1)] b(2) by (meson order_trans)
  ultimately show ?thesis using replaced [of entry p "queued N s - {#(entry, p)#}"] e(1) key by simp
qed (rule same)

lemma submit_any:
  assumes h: "handle_submit_proof_msg N m ws s = (out, t)"
  obtains (same) "queued N t = queued N s"
    | (accepted) e where "size (queued N s) < cap s" "queued N t = enter e (queued N s)"
    | (displaced) x e P where "queued N s = add_mset x P" "cap s \<le> Suc (size P)" "entry_fee (fst x) < entry_fee e"
      "sender (fst x) \<noteq> sender e" "queued N t = enter e P"
    | (evicted) x P where "queued N s = add_mset x P" "cap s \<le> Suc (size P)" "queued N t = P"
    | (replaced) x e P where "queued N s = add_mset x P" "entry_fee (fst x) \<le> entry_fee e"
      "entry_key (fst x) = entry_key e" "queued N t = add_mset (e, prio_of e) P"
  using h
proof (cases rule: handle_submit_cases)
  case early
  then show ?thesis by (intro same) simp
next
  case (no_change addr r s1 s2)
  then show ?thesis using lock_user_state_cases(1) [OF no_change(3)] by (intro same) simp
next
  case (handled addr nvd u s1 s2 s3)
  have bs: "batch_state s3 = batch_state s" using handled lock_user_state_cases(1) [OF handled(3)] by simp
  have new: "entry_fee (new_entry N nvd ws (msg_signature m) addr) = max_fee nvd"
    "sender (new_entry N nvd ws (msg_signature m) addr) = addr"
    by (simp_all add: new_entry_def BatchQueueEntry_new_def)
  from handled(10) show ?thesis
  proof (elim disjE conjE)
    assume "handle_replacement_message N nvd ws (msg_signature m) addr u s3 = (out, t)"
    then show ?thesis
    proof (cases rule: handle_replacement_any)
      case (replaced entry p P)
      then show ?thesis using that(5) [of "(entry, p)" P "replacement_of N entry nvd (msg_signature m) ws"] bs by simp
    qed (use same bs in simp)
  next
    assume "handle_new_proof N nvd ws (msg_signature m) addr u s3 = (out, t)"
    then show ?thesis
    proof (cases rule: handle_new_proof_any)
      case (displaced x P)
      then show ?thesis using that(3) [of x P "new_entry N nvd ws (msg_signature m) addr"] bs new by simp
    qed (use same accepted evicted bs in \<open>auto\<close>)
  qed
qed

section \<open>Restoring a batch\<close>

lemma update_user_states_frame:
  "update_user_states_from_queue_state N as s = (r, t) \<Longrightarrow>
   batch_state t = batch_state s \<and> posting_batch t = posting_batch s"
  by (induction as arbitrary: s) (auto simp: or_panic_def split: option.splits)

lemma cleanup_frame:
  "cleanup_user_states_after_successful_submission N batch s = (r, t) \<Longrightarrow>
   batch_state t = batch_state s \<and> posting_batch t = posting_batch s"
  by (auto simp: cleanup_user_states_after_successful_submission_def or_panic_def cleanup_loop_frame
      split: if_splits option.splits)

text \<open>An entry of a failed batch goes back under its own priority, is skipped, or blocks the restoration.\<close>

lemma restore_loop_any:
  assumes "restore_loop N es acc s = (r, t)"
  obtains (finished) "\<exists>res. r = Ret res" "queued N t = readmit (cap s) es (queued N s)" "cap t = cap s" "posting_batch t = posting_batch s"
    | (blocked) es1 e es2 x where "r = Stuck" "es = es1 @ e # es2"
      "readmit (cap s) es1 (queued N s) = add_mset x (queued N t)" "cap s \<le> Suc (size (queued N t))"
      "\<And>y. y \<in># queued N t \<Longrightarrow> rank x \<le> rank y" "cap t = cap s" "posting_batch t = posting_batch s"
  using assms
proof (induction es arbitrary: acc s thesis)
  case Nil
  then show ?case by auto
next
  case (Cons e es)
  let ?q = "batch_queue (batch_state s)"
  let ?s = "set_queue (pq_push (pq N) ?q e (prio_of e)) s"
  let ?full = "cap s \<le> size (queued N s) \<and> queued N s \<noteq> {#}"
  have full: "is_queue_full (pq N) (batch_state s) \<longleftrightarrow> cap s \<le> size (queued N s)"
    by (simp add: is_queue_full_def len_iter)
  have go_on: ?case if step: "restore_loop N es acc' s' = (r, t)" and c: "cap s' = cap s" "posting_batch s' = posting_batch s"
    and m: "\<And>us. readmit (cap s) (e # us) (queued N s) = readmit (cap s) us (queued N s')" for acc' s'
  proof (rule Cons.IH [OF _ _ step])
    show ?case if "\<exists>res. r = Ret res" "queued N t = readmit (cap s') es (queued N s')" "cap t = cap s'"
      "posting_batch t = posting_batch s'"
      by (rule Cons.prems(1)) (use that c m in simp_all)
    show ?case if "r = Stuck" "es = es1 @ e' # es2" "readmit (cap s') es1 (queued N s') = add_mset x (queued N t)"
      "cap s' \<le> Suc (size (queued N t))" "\<And>y. y \<in># queued N t \<Longrightarrow> rank x \<le> rank y" "cap t = cap s'"
      "posting_batch t = posting_batch s'" for es1 e' es2 x
      by (rule Cons.prems(2) [of "e # es1" e' es2 x]) (use that c m in simp_all)
  qed
  have pushed: ?case if "restore_loop N (e # es) acc s = restore_loop N es (acc @ [e]) ?s" "\<not> ?full"
    by (rule go_on [of "acc @ [e]" ?s]) (use that Cons.prems(3) push_enter [of ?q e] in \<open>auto simp: readmit_Cons\<close>)
  show ?case
  proof (cases "cap s \<le> size (queued N s)")
    case False
    then show ?thesis using full by (intro pushed) (simp_all add: prio_of_def Let_def)
  next
    case True
    show ?thesis
    proof (cases "pq_peek (pq N) ?q")
      case None
      then show ?thesis using full True peek_None [of ?q] by (intro pushed) (simp_all add: prio_of_def Let_def)
    next
      case (Some lp)
      obtain lowest p where l: "lp = (lowest, p)" by fastforce
      have ne: "queue_items N s \<noteq> []" using Some peek_None [of ?q] by auto
      show ?thesis
      proof (cases "entry_fee lowest < entry_fee e")
        case False
        then have "restore_loop N (e # es) acc s = restore_loop N es acc s" using full True Some l by simp
        then show ?thesis using go_on [of acc s] Cons.prems(3) True ne by (simp add: readmit_Cons)
      next
        case pays: True
        obtain v pv q where pop: "pq_pop (pq N) ?q = Some ((v, pv), q)"
          using ne pop_None [of ?q] by (metis not_None_eq prod.exhaust)
        have st: "fst (update_evicted_user_state_async N WriteGuard v (set_queue q s)) = Stuck"
          by (rule evicted_async_stuck)
        have "batch_state (snd (update_evicted_user_state_async N WriteGuard v (set_queue q s))) = batch_state (set_queue q s)"
          "posting_batch (snd (update_evicted_user_state_async N WriteGuard v (set_queue q s))) = posting_batch s"
          by (auto simp: update_evicted_user_state_async_def write_blocks_def read_blocks_def Let_def set_queue_def split: option.splits)
        then have t: "r = Stuck" "batch_state t = batch_state (set_queue q s)" "posting_batch t = posting_batch s"
          using Cons.prems(3) full True Some l pays pop st
          by (cases "update_evicted_user_state_async N WriteGuard v (set_queue q s)"; simp add: Let_def)+
        have m: "queued N s = add_mset (v, pv) (queued N t)" using pop_mset [OF pop] t(2) by simp
        have "rank (v, pv) \<le> rank y" if "y \<in># queued N t" for y
          using pop_Some [OF pop] that m rank_of_prio by (metis insert_iff set_mset_add_mset_insert set_mset_mset)
        then show ?thesis using Cons.prems(2) [of "[]" e es "(v, pv)"] t m True by simp
      qed
    qed
  qed
qed

section \<open>Finalization\<close>

lemma flush_any:
  "queued N (flush_queue_and_clear_nonce_cache N s) = {#}" "cap (flush_queue_and_clear_nonce_cache N s) = cap s"
  using flush_spec(1) [of s]
  by (simp_all add: flushed_def flush_queue_and_clear_nonce_cache_def Let_def split: option.splits sum.splits)

lemma finalize_any:
  assumes "finalize_batch N b batch gp s = (out, t)"
  shows "posting_batch t = posting_batch s \<and> cap t = cap s \<and>
    (queued N t = queued N s \<or> (\<exists>m. out = Ret (Inl (StateCorruptedAndFlushed m))) \<and> queued N t = {#})"
proof (cases "\<exists>bytes tr. cbor_serialize_batch N (map (verification_data \<circ> nonced_verification_data) batch) = Inr bytes \<and>
    mt_build (merkle N) (map verification_data_commitment batch) = Some tr")
  case False
  then have "t = s" using assms by (auto simp: finalize_batch_def split: sum.splits option.splits)
  then show ?thesis by simp
next
  case True
  then obtain bytes tr where bt: "cbor_serialize_batch N (map (verification_data \<circ> nonced_verification_data) batch) = Inr bytes"
    "mt_build (merkle N) (map verification_data_commitment batch) = Some tr" by blast
  obtain x s1 where sb: "submit_batch N bytes (mt_root (merkle N) tr)
      (map (hash_data (keccak N)) (map verification_data_commitment batch)) batch gp (s\<lparr>last_uploaded_batch_block := b\<rparr>) = (x, s1)"
    by fastforce
  note fr = submit_batch_frame [OF sb]
  have red: "and_then (x, s1) (\<lambda>r s. case r of
       Inl e \<Rightarrow> submission_failed N batch e s
     | Inr _ \<Rightarrow>
       and_then (update_user_states_from_queue_state N (senders_of batch) s) (\<lambda>_ s.
       and_then (cleanup_user_states_after_successful_submission N batch s) (\<lambda>_ s.
       send_batch_inclusion_data_responses N batch tr s))) = (out, t)"
    using assms bt sb by (simp add: finalize_batch_def)
  show ?thesis
  proof (cases "\<exists>e. x = Ret (Inl e)")
    case True
    then obtain e where "submission_failed N batch e s1 = (out, t)" using red by auto
    then show ?thesis
      using fr flush_any flush_spec(2)
      by (auto simp: submission_failed_def split: BatcherError.splits TransactionSendError.splits)
  next
    case False
    obtain r2 s2 where u: "update_user_states_from_queue_state N (senders_of batch) s1 = (r2, s2)" by fastforce
    obtain r3 s3 where c: "cleanup_user_states_after_successful_submission N batch s2 = (r3, s3)" by fastforce
    obtain r4 s4 where i: "inclusion_loop N tr (rev (enumerate 0 batch)) s3 = (r4, s4)" by fastforce
    have "t = s1 \<or> t = s2 \<or> t = s3 \<or> t = s4"
      using red False u c i
      by (cases x; cases r2; cases r3) (auto simp: send_batch_inclusion_data_responses_def split: sum.splits)
    then show ?thesis
      using fr update_user_states_frame [OF u] cleanup_frame [OF c] inclusion_loop_frame [OF i] by auto
  qed
qed

lemma finish_any:
  assumes f: "finalize_batch N b batch gp s = (Ret r, s1)" and a: "after_finalization N batch r s1 = (out, t)"
  obtains (posted) "queued N t = queued N s" "\<not> posting_batch t" "cap t = cap s"
    | (reset) "queued N t = {#}" "\<not> posting_batch t" "cap t = cap s"
    | (restored) "queued N t = readmit (cap s) batch (queued N s)" "\<not> posting_batch t" "cap t = cap s"
    | (blocked) es1 e es2 x where "batch = es1 @ e # es2" "readmit (cap s) es1 (queued N s) = add_mset x (queued N t)"
      "cap s \<le> Suc (size (queued N t))" "\<And>y. y \<in># queued N t \<Longrightarrow> rank x \<le> rank y" "\<not> posting_batch t" "cap t = cap s"
proof -
  note fin = finalize_any [OF f]
  let ?s = "s1\<lparr>posting_batch := False\<rparr>"
  show ?thesis
  proof (cases "r = Inr () \<or> (\<exists>m. r = Inl (StateCorruptedAndFlushed m))")
    case True
    then have "t = ?s" using a by (auto simp: after_finalization_def)
    then show ?thesis using fin posted reset by auto
  next
    case False
    then obtain e where e: "r = Inl e" "\<And>m. e \<noteq> StateCorruptedAndFlushed m" by (cases r) auto
    then have q: "queued N ?s = queued N s" "cap ?s = cap s" using fin by auto
    obtain r2 s2 where rl: "restore_loop N batch [] ?s = (r2, s2)" by fastforce
    have red: "and_then (and_then (r2, s2) (\<lambda>restored s. update_user_states_from_queue_state N (senders_of restored) s))
        (\<lambda>_ s. (Ret (Inl e), s)) = (out, t)"
      using a e not_flushed_error(1) [OF e(2), of N batch s1] rl by (simp add: restore_proofs_after_batch_failure_def)
    have bs: "batch_state t = batch_state s2 \<and> posting_batch t = posting_batch s2"
    proof (cases r2)
      case (Ret res)
      obtain r3 s3 where u: "update_user_states_from_queue_state N (senders_of res) s2 = (r3, s3)" by fastforce
      then show ?thesis using red Ret update_user_states_frame [OF u] by (cases r3) auto
    qed (use red in auto)
    from rl show ?thesis
    proof (cases rule: restore_loop_any)
      case finished
      then show ?thesis using restored bs q by simp
    next
      case (blocked es1 e' es2 x)
      then show ?thesis using that(4) [of es1 e' es2 x] bs q by simp
    qed
  qed
qed

section \<open>Unlocked balances\<close>

lemma unlock_any:
  assumes "t = process_unlocked_users N [a] s"
  shows "queued N t = queued N s \<or> queued N t = filter_mset (\<lambda>x. sender (fst x) \<noteq> a) (queued N s)"
    and "cap t = cap s" "posting_batch t = posting_batch s"
proof -
  obtain h s1 where u: "user_has_proofs_in_queue N a s = (h, s1)" by fastforce
  note c = user_has_proofs_core [OF u]
  have p: "posting_batch s1 = posting_batch s"
    using u by (auto simp: user_has_proofs_in_queue_def try_user_lock_with_timeout_def split: option.splits if_splits)
  let ?r = "remove_user_proofs_and_reset_state N a s1"
  have t: "t = s1 \<or> t = ?r" using assms u by simp
  have r: "cap ?r = cap s1" "posting_batch ?r = posting_batch s1"
    by (auto simp: remove_user_proofs_and_reset_state_def try_batch_lock_with_timeout_def set_queue_def split: prod.splits)
  have "queued N ?r = queued N s1 \<or> queued N ?r = filter_mset (\<lambda>x. sender (fst x) \<noteq> a) (queued N s1)"
  proof (cases "batch_lock (lk N)")
    case True
    then show ?thesis using remove_user_spec [OF True, of a s1] by simp
  next
    case False
    then show ?thesis by (simp add: remove_user_proofs_and_reset_state_def try_batch_lock_with_timeout_def)
  qed
  then show "queued N t = queued N s \<or> queued N t = filter_mset (\<lambda>x. sender (fst x) \<noteq> a) (queued N s)"
    and "cap t = cap s" "posting_batch t = posting_batch s"
    using t c p r by auto
qed

end

end
