(* ===== verification/Batcher_System.thy ===== *)
theory Batcher_System
  imports Queue_Effects
begin

text \<open>
  The batcher as a transition system. Its tasks run concurrently, but everything a task does to the
  queue and the user states it does under their locks, so the system is a sequence of atomic steps:
  client messages, the extraction of a batch, its finalization (the network calls in between touch
  neither queue nor users), updates of the minimum fee and of the disabled verifiers, and the removal
  of the proofs of a user who unlocked the balance. A state is the batcher with the batch that is being posted.
  The environment (what Ethereum answers, which locks time out) may be another one at every step.

  \<open>batcher_step\<close> has every step, from every state and with every outcome: a submission that evicts, a change
  of the verifiers or an unlocked balance while a batch is in flight, a batch that comes back to a full queue,
  a handler that panics or waits for itself. \<open>calm_step\<close> is the part of it in which the accounts of the users
  stay true to their proofs: those four disturbances are left out of it, by its premises.
\<close>

section \<open>Steps\<close>

type_synonym 'q system = "'q batcher \<times> BatchQueueEntry list option"

text \<open>
  A handler that does not return has stopped where it was: what it wrote stays. A batch whose finalization
  does not return is gone, with the posting flag as it was left.
\<close>

inductive batcher_step :: "('q, 't) batcher_env set \<Rightarrow> 'q system \<Rightarrow> 'q system \<Rightarrow> bool" for Ns where
  submit: "N \<in> Ns \<Longrightarrow> handle_submit_proof_msg N m ws s = (out, t) \<Longrightarrow> batcher_step Ns (s, fl) (t, fl)"
| get_nonce: "N \<in> Ns \<Longrightarrow> handle_get_nonce_for_address_msg N a ws s = (out, t) \<Longrightarrow>
     batcher_step Ns (s, fl) (t, fl)"
| get_fee: "N \<in> Ns \<Longrightarrow> handle_get_last_max_fee N a ws s = (out, t) \<Longrightarrow> batcher_step Ns (s, fl) (t, fl)"
| min_fee: "N \<in> Ns \<Longrightarrow> update_min_max_fee N g s = (out, t) \<Longrightarrow> batcher_step Ns (s, fl) (t, fl)"
| take_batch: "N \<in> Ns \<Longrightarrow> extract_batch_if_ready N b gp s = (Ret taken, t) \<Longrightarrow>
     batcher_step Ns (s, fl) (t, if taken = None then fl else taken)"
| take_fails: "N \<in> Ns \<Longrightarrow> extract_batch_if_ready N b gp s = (out, t) \<Longrightarrow> \<not> returned (out, t) \<Longrightarrow>
     batcher_step Ns (s, fl) (t, fl)"
| finish: "N \<in> Ns \<Longrightarrow> finalize_batch N b batch gp s = (Ret r, s1) \<Longrightarrow>
     after_finalization N batch r s1 = (out, t) \<Longrightarrow> batcher_step Ns (s, Some batch) (t, None)"
| finish_fails: "N \<in> Ns \<Longrightarrow> finalize_batch N b batch gp s = (out, t) \<Longrightarrow> \<not> returned (out, t) \<Longrightarrow>
     batcher_step Ns (s, Some batch) (t, None)"
| verifiers: "N \<in> Ns \<Longrightarrow> batcher_step Ns (s, fl) (update_disabled_verifiers N d s, fl)"
| unlock: "N \<in> Ns \<Longrightarrow> batcher_step Ns (s, fl) (process_unlocked_users N [a] s, fl)"

text \<open>One batch at a time: while a batch is in flight the posting flag is set. The capacity of the queue never changes.\<close>

lemma step_flag:
  assumes "batcher_step Ns (s, fl) (t, fl')" "\<And>N. N \<in> Ns \<Longrightarrow> batch_pq (pq N)" "fl \<noteq> None \<longrightarrow> posting_batch s"
  shows "(fl' \<noteq> None \<longrightarrow> posting_batch t) \<and> max_size (batch_state t) = max_size (batch_state s)"
proof -
  have loc: "batcher_queue N" if "N \<in> Ns" for N using assms(2) [OF that] by (rule batcher_queue.intro)
  from assms(1) show ?thesis
  proof cases
    case (submit N m ws out)
    then show ?thesis using assms(3) handle_submit_keeps [of N m ws s out t] by (simp add: background_def)
  next
    case (get_nonce N a ws out)
    then show ?thesis using assms(3) queries_keep(1) [of N a ws s out t] by (simp add: background_def)
  next
    case (get_fee N a ws out)
    then show ?thesis using assms(3) queries_keep(2) [of N a ws s out t] by (simp add: background_def)
  next
    case (min_fee N g out)
    then show ?thesis using assms(3) by (auto simp: update_min_max_fee_def or_panic_def split: option.splits)
  next
    case (take_batch N b gp taken)
    show ?thesis
      by (cases rule: batcher_queue.extract_if_ready_any [OF loc [OF take_batch(2)], of b gp s])
        (use take_batch assms(3) in auto)
  next
    case (take_fails N b gp out)
    show ?thesis
      by (cases rule: batcher_queue.extract_if_ready_any [OF loc [OF take_fails(2)], of b gp s])
        (use take_fails assms(3) in auto)
  next
    case (finish N b batch gp r s1 out)
    show ?thesis
      by (cases rule: batcher_queue.finish_any [OF loc [OF finish(3)] finish(4,5)]) (use finish(2) in auto)
  next
    case (finish_fails N b batch gp out)
    then show ?thesis using batcher_queue.finalize_any [OF loc, of N b batch gp s out t] by auto
  next
    case (verifiers N d)
    note flush = batcher_queue.flush_any(2) [OF loc [OF verifiers(3)], of "s\<lparr>disabled_verifiers := d\<rparr>"]
      batcher_queue.flush_spec(2) [OF loc [OF verifiers(3)], of "s\<lparr>disabled_verifiers := d\<rparr>"]
    then show ?thesis using assms(3) verifiers by (simp add: update_disabled_verifiers_def)
  next
    case (unlock N a)
    then show ?thesis using assms(3) batcher_queue.unlock_any(2,3) [OF loc refl, of N a s] by simp
  qed
qed

definition initial :: "'q bq_ops \<Rightarrow> 'q system \<Rightarrow> bool" where
  "initial Q p \<longleftrightarrow> pq_iter Q (batch_queue (batch_state (fst p))) = [] \<and>
     (\<forall>a u. user_states (fst p) a = Some u \<longrightarrow> (\<exists>n. u = UserState_new n)) \<and>
     \<not> posting_batch (fst p) \<and> snd p = None"

definition batcher_reachable :: "('q, 't) batcher_env set \<Rightarrow> 'q bq_ops \<Rightarrow> 'q system \<Rightarrow> bool" where
  "batcher_reachable Ns Q p \<longleftrightarrow> (\<exists>p0. initial Q p0 \<and> (batcher_step Ns)\<^sup>*\<^sup>* p0 p)"

lemma reachable_step: "batcher_reachable Ns Q p \<Longrightarrow> batcher_step Ns p p' \<Longrightarrow> batcher_reachable Ns Q p'"
  unfolding batcher_reachable_def by (meson rtranclp.rtrancl_into_rtrancl)

text \<open>An invariant of the reachable states holds at the start and is kept by the steps from reachable states.\<close>

lemma reachable_induct [consumes 1, case_names initial step]:
  assumes "batcher_reachable Ns Q p" "\<And>p. initial Q p \<Longrightarrow> P p"
    and "\<And>p p'. batcher_reachable Ns Q p \<Longrightarrow> P p \<Longrightarrow> batcher_step Ns p p' \<Longrightarrow> P p'"
  shows "P p"
proof -
  obtain p0 where p0: "(batcher_step Ns)\<^sup>*\<^sup>* p0 p" "initial Q p0" using assms(1) by (auto simp: batcher_reachable_def)
  from p0(1) show ?thesis
  proof (induction rule: rtranclp_induct)
    case base
    then show ?case using assms(2) p0(2) .
  next
    case (step p p')
    then show ?case using assms(3) p0(2) unfolding batcher_reachable_def by blast
  qed
qed

lemma reachable_flag:
  assumes "batcher_reachable Ns Q p" "\<And>N. N \<in> Ns \<Longrightarrow> pq N = Q" "batch_pq Q"
  shows "snd p \<noteq> None \<longrightarrow> posting_batch (fst p)"
  using assms(1)
proof (induction rule: reachable_induct)
  case (initial p)
  then show ?case by (simp add: initial_def)
next
  case (step p p')
  then show ?case
    using step_flag [of Ns "fst p" "snd p" "fst p'" "snd p'"] assms(2,3) by simp
qed

section \<open>Undisturbed runs\<close>

text \<open>
  The steps that keep the books: the queue of a submission is not full, so nothing is evicted; the prices are in
  the range in which the fees of a batch are defined; a batch that fails has room to come back; the verifiers do
  not change while a batch is in flight, and no user in the batch in flight is removed; and every handler returns.
\<close>

inductive calm_step :: "('q, 't) batcher_env set \<Rightarrow> 'q system \<Rightarrow> 'q system \<Rightarrow> bool" for Ns where
  submit: "N \<in> Ns \<Longrightarrow> \<not> is_queue_full (pq N) (batch_state s) \<Longrightarrow>
     handle_submit_proof_msg N m ws s = (Ret (), t) \<Longrightarrow> calm_step Ns (s, fl) (t, fl)"
| get_nonce: "N \<in> Ns \<Longrightarrow> handle_get_nonce_for_address_msg N a ws s = (Ret (), t) \<Longrightarrow>
     calm_step Ns (s, fl) (t, fl)"
| get_fee: "N \<in> Ns \<Longrightarrow> handle_get_last_max_fee N a ws s = (Ret (), t) \<Longrightarrow> calm_step Ns (s, fl) (t, fl)"
| min_fee: "N \<in> Ns \<Longrightarrow> update_min_max_fee N g s = (Ret (), t) \<Longrightarrow> calm_step Ns (s, fl) (t, fl)"
| take_batch: "N \<in> Ns \<Longrightarrow> fees_defined gp (batch_constant_cost N) (length (queue_items N s)) \<Longrightarrow>
     extract_batch_if_ready N b gp s = (Ret taken, t) \<Longrightarrow>
     calm_step Ns (s, fl) (t, if taken = None then fl else taken)"
| finish: "N \<in> Ns \<Longrightarrow> length (queue_items N s) + length batch \<le> max_size (batch_state s) \<Longrightarrow>
     finalize_batch N b batch gp s = (Ret r, s1) \<Longrightarrow> after_finalization N batch r s1 = (Ret r', t) \<Longrightarrow>
     calm_step Ns (s, Some batch) (t, None)"
| verifiers: "N \<in> Ns \<Longrightarrow> calm_step Ns (s, None) (update_disabled_verifiers N d s, None)"
| unlock: "N \<in> Ns \<Longrightarrow> (\<And>batch e. fl = Some batch \<Longrightarrow> e \<in> set batch \<Longrightarrow> sender e \<noteq> a) \<Longrightarrow>
     calm_step Ns (s, fl) (process_unlocked_users N [a] s, fl)"

lemma calm_is_step: "calm_step Ns p p' \<Longrightarrow> batcher_step Ns p p'"
  by (cases rule: calm_step.cases) (auto simp del: process_unlocked_users.simps intro: batcher_step.intros)

definition calm_reachable :: "('q, 't) batcher_env set \<Rightarrow> 'q bq_ops \<Rightarrow> 'q system \<Rightarrow> bool" where
  "calm_reachable Ns Q p \<longleftrightarrow> (\<exists>p0. initial Q p0 \<and> (calm_step Ns)\<^sup>*\<^sup>* p0 p)"

lemma calm_is_reachable: "calm_reachable Ns Q p \<Longrightarrow> batcher_reachable Ns Q p"
proof -
  have "calm_step Ns \<le> batcher_step Ns" using calm_is_step by auto
  then have "(calm_step Ns)\<^sup>*\<^sup>* \<le> (batcher_step Ns)\<^sup>*\<^sup>*" by (rule rtranclp_mono)
  then show "calm_reachable Ns Q p \<Longrightarrow> batcher_reachable Ns Q p"
    unfolding calm_reachable_def batcher_reachable_def by blast
qed

text \<open>
  The invariant: the books balance for what is queued and in flight together, and the flag is set
  exactly while a batch is in flight.
\<close>

definition system_inv :: "('q, 't) batcher_env \<Rightarrow> 'q system \<Rightarrow> bool" where
  "system_inv N p \<longleftrightarrow> held_inv N (in_flight (snd p)) (fst p) \<and> (posting_batch (fst p) \<longleftrightarrow> snd p \<noteq> None)"

lemma held_inv_pq: "pq N = pq N' \<Longrightarrow> held_inv N fl s = held_inv N' fl s"
  by (simp add: held_inv_def)

lemma queries_core:
  "handle_get_nonce_for_address_msg N a ws s = (r, t) \<Longrightarrow> batch_state t = batch_state s \<and> user_states t = user_states s"
  "handle_get_last_max_fee N a ws s = (r, t) \<Longrightarrow> batch_state t = batch_state s \<and> user_states t = user_states s"
  by (auto simp: handle_get_nonce_for_address_msg_def handle_get_last_max_fee_def try_user_lock_with_timeout_def
      Let_def split: option.splits if_splits sum.splits)

context batcher_queue
begin

lemma extract_posting:
  assumes "held_inv N fl s" "fees_defined gp (batch_constant_cost N) (length (queue_items N s))"
    and "extract_batch_if_ready N b gp s = (Ret taken, t)"
  shows "posting_batch t = (posting_batch s \<or> taken \<noteq> None)" "posting_batch s \<Longrightarrow> taken = None \<and> t = s"
proof -
  show "posting_batch t = (posting_batch s \<or> taken \<noteq> None)"
    by (rule extract_if_ready_cases [OF held_inv_prio_ok [OF assms(1)] assms(2), of b]) (use assms(3) in auto)
  show "taken = None \<and> t = s" if "posting_batch s"
    using assms(3) that by (auto simp: extract_batch_if_ready_def Let_def split: if_splits)
qed

end

context batcher_queue
begin

lemma process_user_held:
  assumes "held_inv N fl s" "\<And>x. x \<in> set fl \<Longrightarrow> sender (fst x) \<noteq> a"
  shows "held_inv N fl (process_unlocked_users N [a] s)"
proof -
  obtain h s1 where u: "user_has_proofs_in_queue N a s = (h, s1)" by fastforce
  have "held_inv N fl s1" using assms(1) held_inv_cong(1) [of s1 s N fl] user_has_proofs_core [OF u] by simp
  then show ?thesis using remove_user_held(1) [of fl s1 a] assms(2) u by auto
qed

end

lemma system_step_inv:
  assumes "calm_step Ns p p'" "\<And>N. N \<in> Ns \<Longrightarrow> pq N = pq M" "batch_pq (pq M)" "system_inv M p"
  shows "system_inv M p'"
proof -
  have loc: "batcher_queue N" and same: "held_inv M = held_inv N" if "N \<in> Ns" for N
    using assms(2) [OF that] assms(3) held_inv_pq [of N M] by (auto intro: batcher_queue.intro)
  from assms(1) show ?thesis
  proof cases
    case (submit N s m ws t fl)
    then show ?thesis
      using assms(4) batcher_queue.handle_submit_inv(1) [OF loc, of N "in_flight fl" s m ws t] same
        handle_submit_keeps [of N m ws s "Ret ()" t] by (simp add: system_inv_def background_def)
  next
    case (get_nonce N a ws s t fl)
    then show ?thesis using assms(4) queries_core(1) [of N a ws s "Ret ()" t] held_inv_cong(1) [of t s M "in_flight fl"]
        queries_keep(1) [of N a ws s "Ret ()" t] by (simp add: system_inv_def background_def)
  next
    case (get_fee N a ws s t fl)
    then show ?thesis using assms(4) queries_core(2) [of N a ws s "Ret ()" t] held_inv_cong(1) [of t s M "in_flight fl"]
        queries_keep(2) [of N a ws s "Ret ()" t] by (simp add: system_inv_def background_def)
  next
    case (min_fee N g s t fl)
    then show ?thesis using assms(4) held_inv_cong(1) [of t s M "in_flight fl"]
      by (auto simp: system_inv_def update_min_max_fee_def or_panic_Ret_iff)
  next
    case (take_batch N gp s b taken t fl)
    have h: "held_inv N (in_flight fl) s" "posting_batch s \<longleftrightarrow> fl \<noteq> None"
      using assms(4) take_batch(1) same [OF take_batch(3)] by (simp_all add: system_inv_def)
    note post = batcher_queue.extract_posting [OF loc [OF take_batch(3)] h(1) take_batch(4,5)]
    show ?thesis
    proof (cases fl)
      case None
      have "held_inv N (in_flight taken) t"
        using batcher_queue.extract_held [OF loc [OF take_batch(3)] _ take_batch(4,5)] h(1) None by (auto simp: in_flight_def)
      then show ?thesis using h post take_batch(2) None same [OF take_batch(3)] by (auto simp: system_inv_def)
    next
      case (Some batch)
      then show ?thesis using h post take_batch(2) same [OF take_batch(3)] by (auto simp: system_inv_def)
    qed
  next
    case (finish N s batch b gp r s1 r' t)
    have "held_inv N (items_of batch) s"
      using assms(4) finish(1) same [OF finish(3)] by (simp add: system_inv_def in_flight_def)
    then obtain t' where "after_finalization N batch r s1 = (Ret r, t')" "held_inv N [] t'" "\<not> posting_batch t'"
      by (rule batcher_queue.after_finalization_spec [OF loc [OF finish(3)] _ finish(5,4)]) blast
    then show ?thesis using finish same [OF finish(3)] by (simp add: system_inv_def in_flight_def)
  next
    case (verifiers N s d)
    let ?s = "s\<lparr>disabled_verifiers := d\<rparr>"
    have "held_inv M [] (flush_queue_and_clear_nonce_cache N ?s)"
      using flushed_inv(1) [OF batcher_queue.flush_spec(1) [OF loc [OF verifiers(3)], of ?s]] same [OF verifiers(3)] by simp
    then show ?thesis
      using assms(4) verifiers batcher_queue.flush_spec(2) [OF loc [OF verifiers(3)], of ?s]
      by (simp add: system_inv_def update_disabled_verifiers_def in_flight_def)
  next
    case (unlock N fl a s)
    have h: "held_inv N (in_flight fl) s" using assms(4) unlock(1) same [OF unlock(3)] by (simp add: system_inv_def)
    have fl: "sender (fst x) \<noteq> a" if "x \<in> set (in_flight fl)" for x
      using that unlock(4) [of "the fl" "fst x"] by (cases fl) (auto simp: in_flight_def)
    have "held_inv N (in_flight fl) (process_unlocked_users N [a] s)"
      by (rule batcher_queue.process_user_held [OF loc [OF unlock(3)] h]) (rule fl)
    moreover have "posting_batch (process_unlocked_users N [a] s) = posting_batch s"
      by (rule batcher_queue.unlock_any(3) [OF loc [OF unlock(3)] refl])
    ultimately show ?thesis using assms(4) unlock(1,2) same [OF unlock(3)] by (simp add: system_inv_def)
  qed
qed

lemma new_user_accounted: "accounted (UserState_new n) []"
  by (simp add: accounted_def UserState_new_def)

lemma initial_inv:
  assumes "initial (pq M) p"
  shows "system_inv M p"
proof -
  have "accounted u []" if "user_states (fst p) a = Some u" for a u
    using assms that new_user_accounted unfolding initial_def by metis
  then show ?thesis
    using assms by (simp add: initial_def system_inv_def in_flight_def held_inv_def books_ok_def prio_ok_def acct_ok_def)
qed

lemma calm_inv:
  assumes "\<And>N. N \<in> Ns \<Longrightarrow> pq N = pq M" "batch_pq (pq M)" "calm_reachable Ns (pq M) p"
  shows "system_inv M p"
proof -
  obtain p0 where "(calm_step Ns)\<^sup>*\<^sup>* p0 p" "initial (pq M) p0" using assms(3) by (auto simp: calm_reachable_def)
  then show ?thesis
    by (induction rule: rtranclp_induct) (use initial_inv system_step_inv assms(1,2) in blast)+
qed

section \<open>Properties\<close>


text \<open>
  At most one batch is in flight, in every run: while one is, an extraction at any block and gas price
  takes nothing and changes nothing.
\<close>

lemma one_batch_in_flight:
  assumes "\<forall>N \<in> Ns. pq N = Q" "batch_pq Q" "batcher_reachable Ns Q (s, Some batch)"
  shows "extract_batch_if_ready N b gp s = (Ret None, s)"
  using reachable_flag [OF assms(3)] assms(1,2) by (simp add: extract_batch_if_ready_def Let_def)

lemma sample_calm_step:
  "calm_step {sample_env} (sample_state [] 10 (\<lambda>_. None), None)
     (snd (handle_submit_proof_msg sample_env (sample_msg 1 0 600000) 1 (sample_state [] 10 (\<lambda>_. None))), None)"
  by (rule calm_step.submit [of sample_env]) (use sample_submit sample_empty_inv(3) in simp_all)

lemma sample_calm_submitted:
  "calm_reachable {sample_env} (list_pq entry_key)
     (snd (handle_submit_proof_msg sample_env (sample_msg 1 0 600000) 1 (sample_state [] 10 (\<lambda>_. None))), None)"
  using sample_calm_step unfolding calm_reachable_def by (intro exI conjI r_into_rtranclp) (simp_all add: initial_def)

lemmas sample_reach_submitted = calm_is_reachable [OF sample_calm_submitted]


lemma sample_extract_submitted:
  "extract_batch_if_ready sample_env 5 1 ((sample_state [sample_item 1 0 600000] 10 us)\<lparr>metrics := m\<rparr>) =
   (Ret (Some [sample_entry 1 0 600000]), (sample_state [] 10 us)
      \<lparr>posting_batch := True, metrics := m\<lparr>queue_len := 0, queue_size_bytes := 9\<rparr>\<rparr>)"
  by (simp add: extract_batch_if_ready_def extract_batch_directly_def calculate_batch_size_def reject_loop.simps
      drain_loop.simps should_remove_def push_all_def pushed_def drop_key_def calculate_fee_per_proof_def
      gas_per_proof_def sdk_constants checked_mul_def constant_gas_cost_def less_BatchQueueEntryPriority_def
      prio_cmp_def Let_def set_queue_def update_queue_metrics_def sample_state_def)

lemma sample_calm_in_flight:
  "calm_reachable {sample_env} (list_pq entry_key)
     (snd (extract_batch_if_ready sample_env 5 1 (snd (handle_submit_proof_msg sample_env (sample_msg 1 0 600000) 1
        (sample_state [] 10 (\<lambda>_. None))))), Some [sample_entry 1 0 600000])"
proof -
  let ?s = "snd (handle_submit_proof_msg sample_env (sample_msg 1 0 600000) 1 (sample_state [] 10 (\<lambda>_. None)))"
  obtain t where t: "extract_batch_if_ready sample_env 5 1 ?s = (Ret (Some [sample_entry 1 0 600000]), t)"
    unfolding sample_submit snd_conv using sample_extract_submitted by blast
  have q: "fees_defined 1 (batch_constant_cost sample_env) (length (queue_items sample_env ?s))"
    unfolding sample_submit snd_conv using sample_gas(3) by simp
  have "calm_step {sample_env} (?s, None) (t, if Some [sample_entry 1 0 600000] = None then None
      else Some [sample_entry 1 0 600000])"
    by (rule calm_step.take_batch [of sample_env, OF _ q t]) simp
  then have "calm_step {sample_env} (?s, None) (t, Some [sample_entry 1 0 600000])" by (simp only: option.distinct if_False)
  with sample_calm_submitted show ?thesis
    unfolding t snd_conv calm_reachable_def by (meson rtranclp.rtrancl_into_rtrancl)
qed

lemmas sample_reach_in_flight = calm_is_reachable [OF sample_calm_in_flight]

end
