(* ===== verification/Vetted.thy ===== *)
theory Vetted
  imports Batcher_System
begin

text \<open>
  What every proof the batcher holds, queued or in flight, has been through: the checks of the submission
  handler. The list of disabled verifiers changes only in \<open>update_disabled_verifiers\<close>, which flushes the queue;
  every other operation keeps it. So the systems of the proofs held are enabled, as long as the list does not
  change while a batch is in flight: a batch that fails comes back into the queue unchecked.
\<close>

section \<open>The disabled verifiers are left alone\<close>

definition leaves_disabled :: "u256 \<Rightarrow> ('a, 'q batcher) res \<Rightarrow> bool" where
  "leaves_disabled d m \<longleftrightarrow> disabled_verifiers (snd m) = d"

named_theorems disabled_frame

lemma leaves_Ret [disabled_frame]: "disabled_verifiers s = d \<Longrightarrow> leaves_disabled d (r, s)"
  by (simp add: leaves_disabled_def)

lemma leaves_and_then [disabled_frame]:
  assumes "leaves_disabled d m" "\<And>x t. disabled_verifiers t = d \<Longrightarrow> leaves_disabled d (f x t)"
  shows "leaves_disabled d (and_then m f)"
proof (cases m)
  case (Pair r t)
  then show ?thesis using assms by (cases r) (auto simp: leaves_disabled_def)
qed

lemma leaves_or_panic [disabled_frame]:
  assumes "disabled_verifiers s = d" "\<And>x. leaves_disabled d (f x)"
  shows "leaves_disabled d (or_panic p s f)"
  using assms by (cases p) (auto simp: leaves_disabled_def or_panic_def)

lemma disabled_updates [simp]:
  "disabled_verifiers (notify w x s) = disabled_verifiers s"
  "disabled_verifiers (notify_all x es s) = disabled_verifiers s"
  "disabled_verifiers (set_queue q s) = disabled_verifiers s"
  "disabled_verifiers (update_queue_metrics l n s) = disabled_verifiers s"
proof -
  show n: "disabled_verifiers (notify w x s) = disabled_verifiers s" for w x and s :: "'a batcher"
    by (simp add: notify_def split: option.splits)
  show "disabled_verifiers (notify_all x es s) = disabled_verifiers s"
    unfolding notify_all_def by (induction es arbitrary: s) (simp_all add: n)
qed (simp_all add: batcher_updates)

lemma disabled_flush [simp]:
  "disabled_verifiers (flush_queue_and_clear_nonce_cache N s) = disabled_verifiers s"
  by (simp add: flush_queue_and_clear_nonce_cache_def Let_def split: option.splits sum.splits)

lemma disabled_remove [simp]:
  "disabled_verifiers (remove_user_proofs_and_reset_state N a s) = disabled_verifiers s"
  by (simp add: remove_user_proofs_and_reset_state_def try_batch_lock_with_timeout_def Let_def
      split: prod.splits)

lemma disabled_cleanup [simp]: "disabled_verifiers (cleanup_loop N d as s) = disabled_verifiers s"
  by (induction as arbitrary: s) (auto split: option.splits)

lemma leaves_user_states [disabled_frame]:
  "disabled_verifiers s = d \<Longrightarrow> leaves_disabled d (update_user_states_from_queue_state N as s)"
proof (induction as arbitrary: s)
  case Nil
  then show ?case by (simp add: leaves_disabled_def)
next
  case (Cons a as)
  then show ?case by (auto simp: leaves_disabled_def Let_def or_panic_def split: option.splits if_splits sum.splits)
qed

lemma leaves_inclusion [disabled_frame]:
  "disabled_verifiers s = d \<Longrightarrow> leaves_disabled d (inclusion_loop N tr ps s)"
proof (induction N tr ps s rule: inclusion_loop.induct)
  case (2 N t i entry rest s)
  then show ?case
    by (auto simp: leaves_disabled_def or_panic_def split: option.splits sum.splits)
qed (simp add: leaves_disabled_def)

lemma leaves_async [disabled_frame]:
  "disabled_verifiers s = d \<Longrightarrow> leaves_disabled d (update_evicted_user_state_async N g e s)"
  by (auto simp: update_evicted_user_state_async_def Let_def intro!: disabled_frame
      split: option.splits prod.splits)

lemma leaves_restore_loop [disabled_frame]:
  "disabled_verifiers s = d \<Longrightarrow> leaves_disabled d (restore_loop N es acc s)"
proof (induction es arbitrary: acc s)
  case (Cons e es)
  then show ?case
    by (auto simp: Let_def intro!: disabled_frame split: option.splits)
qed (simp add: leaves_disabled_def)

lemma leaves_submit_batch [disabled_frame]:
  assumes "disabled_verifiers s = d"
  shows "leaves_disabled d (submit_batch N bytes root leaves es gp s)"
proof -
  have "leaves_disabled d (create_new_task N a t)" if "disabled_verifiers t = d" for a t
    using that by (auto simp: create_new_task_def leaves_disabled_def Let_def
        split: sum.splits RetryError.splits BatcherError.splits option.splits)
  then show ?thesis
    using assms
    by (auto simp: submit_batch_def upload_batch_to_multiple_s3_def Let_def intro!: disabled_frame
        split: sum.splits)
qed

lemma disabled_finalize:
  assumes "finalize_batch N b batch gp s = (r, s1)"
  shows "disabled_verifiers s1 = disabled_verifiers s"
    and "after_finalization N batch r' s1 = (r2, t) \<Longrightarrow> disabled_verifiers t = disabled_verifiers s"
proof -
  let ?d = "disabled_verifiers s"
  have "leaves_disabled ?d (finalize_batch N b batch gp s)"
    by (auto simp: finalize_batch_def submission_failed_def send_batch_inclusion_data_responses_def
        cleanup_user_states_after_successful_submission_def Let_def intro!: disabled_frame
        split: sum.splits option.splits BatcherError.splits TransactionSendError.splits)
  then show s1: "disabled_verifiers s1 = ?d" using assms(1) by (simp add: leaves_disabled_def)
  then have "leaves_disabled ?d (after_finalization N batch r' s1)"
    by (auto simp: after_finalization_def restore_proofs_after_batch_failure_def Let_def intro!: disabled_frame
        split: sum.splits BatcherError.splits)
  then show "after_finalization N batch r' s1 = (r2, t) \<Longrightarrow> disabled_verifiers t = disabled_verifiers s"
    by (simp add: leaves_disabled_def)
qed

lemma disabled_unlock: "disabled_verifiers (process_unlocked_users N [a] s) = disabled_verifiers s"
  by (auto simp: user_has_proofs_in_queue_def try_user_lock_with_timeout_def split: option.splits prod.splits if_splits)

lemma disabled_extract:
  "extract_batch_if_ready N b gp s = (r, t) \<Longrightarrow> disabled_verifiers t = disabled_verifiers s"
  by (auto simp: extract_batch_if_ready_def Let_def elim!: and_then.elims split: prod.splits if_splits sum.splits)

section \<open>Vetted proofs\<close>

text \<open>
  A proof is vetted when its leaf in the Merkle tree is the commitment of its own data, its verifier
  accepts it, and it respects the size limit of a submission. It is enabled when its proving system is not in the list.
\<close>

definition vetted :: "(bytes \<Rightarrow> bytes) \<Rightarrow> zk_ops \<Rightarrow> nat \<Rightarrow> BatchQueueEntry \<Rightarrow> bool" where
  "vetted K Z limit e \<longleftrightarrow>
     (let vd = verification_data (nonced_verification_data e) in
      verification_data_commitment e = verification_data_into_commitment K vd \<and> verify Z vd \<and>
      cbor_size_upper_bound (nonced_verification_data e) \<le> limit)"

definition enabled :: "u256 \<Rightarrow> BatchQueueEntry \<Rightarrow> bool" where
  "enabled d e \<longleftrightarrow> \<not> is_verifier_disabled d (proving_system (verification_data (nonced_verification_data e)))"

definition held_entries :: "'q bq_ops \<Rightarrow> 'q system \<Rightarrow> BatchQueueEntry set" where
  "held_entries Q p =
     fst ` set (pq_iter Q (batch_queue (batch_state (fst p)))) \<union> (case snd p of None \<Rightarrow> {} | Some batch \<Rightarrow> set batch)"

text \<open>Environments that check every proof with the same hash, verifiers and size limit.\<close>

definition checks_proofs :: "(bytes \<Rightarrow> bytes) \<Rightarrow> zk_ops \<Rightarrow> nat \<Rightarrow> ('q, 't) batcher_env \<Rightarrow> bool" where
  "checks_proofs K Z limit N \<longleftrightarrow>
     keccak N = K \<and> zk N = Z \<and> pre_verification_is_enabled (cfg N) \<and> max_proof_size (cfg N) \<le> limit"

lemma submitted_entry_size:
  assumes "batch_pq (pq N)" "handle_submit_proof_msg N m ws s = (out, t)"
    and "e \<in> fst ` set (queue_items N t)" "e \<notin> fst ` set (queue_items N s)"
  shows "entry_size e \<le> max_proof_size (cfg N)"
proof -
  obtain nvd where v: "valid_submission N m s (sender e) nvd" "nonced_verification_data e = nvd"
    using queued_entry_checked [OF assms] by blast
  have "cbor_size_upper_bound nvd = cbor_size_upper_bound (msg_verification_data m)"
    "cbor_size_upper_bound (msg_verification_data m) \<le> max_proof_size (cfg N)"
    using v(1) by (auto simp: valid_submission_def cbor_size_upper_bound_def Let_def split: if_splits)
  then show ?thesis using v(2) by simp
qed

lemma submitted_entry_vetted:
  assumes "batch_pq (pq N)" "checks_proofs K Z limit N" "handle_submit_proof_msg N m ws s = (out, t)"
    and "e \<in> fst ` set (queue_items N t)" "e \<notin> fst ` set (queue_items N s)"
  shows "vetted K Z limit e" "enabled (disabled_verifiers s) e"
proof -
  obtain nvd where v: "nonced_verification_data e = nvd"
    "verification_data_commitment e = verification_data_into_commitment (keccak N) (verification_data nvd)"
    "pre_verification_is_enabled (cfg N) \<longrightarrow>
       \<not> is_verifier_disabled (disabled_verifiers s) (proving_system (verification_data nvd)) \<and>
       verify (zk N) (verification_data nvd)"
    using queued_entry_checked [OF assms(1,3,4,5)] by blast
  moreover have "entry_size e \<le> limit"
    using submitted_entry_size [OF assms(1,3-5)] assms(2) by (simp add: checks_proofs_def)
  ultimately show "vetted K Z limit e" "enabled (disabled_verifiers s) e"
    using assms(2) by (simp_all add: vetted_def enabled_def checks_proofs_def Let_def)
qed

section \<open>Only a submission brings in a proof\<close>

context batcher_queue
begin

lemma extract_holds:
  assumes "extract_batch_if_ready N b gp s = (out, t)"
  shows "fst ` set_mset (queued N t) \<union> (case out of Ret (Some batch) \<Rightarrow> set batch | _ \<Rightarrow> {}) \<subseteq> fst ` set_mset (queued N s)"
  by (cases rule: extract_if_ready_any [of b gp s]) (use assms in auto)

lemma finish_holds:
  assumes "finalize_batch N b batch gp s = (Ret r, s1)" "after_finalization N batch r s1 = (out, t)"
  shows "fst ` set_mset (queued N t) \<subseteq> fst ` set_mset (queued N s) \<union> set batch"
  using assms
proof (cases rule: finish_any)
  case restored
  then show ?thesis using readmit_entries [of "cap s" batch "queued N s"] by auto
next
  case (blocked es1 e es2 x)
  have "fst ` set_mset (queued N t) \<subseteq> fst ` set_mset (readmit (cap s) es1 (queued N s))"
    using blocked(2) by auto
  then show ?thesis using readmit_entries [of "cap s" es1 "queued N s"] blocked(1) by auto
qed auto

lemma unlock_holds:
  "fst ` set_mset (queued N (process_unlocked_users N [a] s)) \<subseteq> fst ` set_mset (queued N s)"
proof -
  have "set_mset (queued N (process_unlocked_users N [a] s)) \<subseteq> set_mset (queued N s)"
    using unlock_any(1) [OF refl, of a s] by (elim disjE) (simp_all only: set_mset_filter, blast)
  then show ?thesis by (rule image_mono)
qed

end

lemma step_holds:
  assumes st: "batcher_step Ns (s, fl) (t, fl')" and q: "\<And>N. N \<in> Ns \<Longrightarrow> pq N = Q" "batch_pq Q"
    and e: "e \<in> held_entries Q (t, fl')"
  shows "e \<in> held_entries Q (s, fl) \<or>
     (\<exists>N m ws out. N \<in> Ns \<and> handle_submit_proof_msg N m ws s = (out, t) \<and>
        e \<in> fst ` set (queue_items N t) \<and> e \<notin> fst ` set (queue_items N s))"
proof -
  have loc: "batcher_queue N" and same: "held_entries Q (u, f) =
      fst ` set_mset (queued N u) \<union> (case f of None \<Rightarrow> {} | Some batch \<Rightarrow> set batch)" if "N \<in> Ns" for N u f
    using q(1) [OF that] q(2) by (auto simp: held_entries_def intro: batcher_queue.intro)
  from st show ?thesis
  proof cases
    case (submit N m ws out)
    have "e \<in> fst ` set (queue_items N t) \<or> e \<in> held_entries Q (s, fl)"
      using e same [OF submit(2)] submit(1) by auto
    moreover have "e \<in> fst ` set (queue_items N s) \<longrightarrow> e \<in> held_entries Q (s, fl)"
      using same [OF submit(2)] by auto
    ultimately show ?thesis using submit by blast
  next
    case (get_nonce N a ws out)
    then show ?thesis using e queries_core(1) [of N a ws s out t] by (simp add: held_entries_def)
  next
    case (get_fee N a ws out)
    then show ?thesis using e queries_core(2) [of N a ws s out t] by (simp add: held_entries_def)
  next
    case (min_fee N g out)
    then have "batch_state t = batch_state s" by (auto simp: update_min_max_fee_def or_panic_def split: option.splits)
    then show ?thesis using e min_fee by (simp add: held_entries_def)
  next
    case (take_batch N b gp taken)
    then show ?thesis
      using e batcher_queue.extract_holds [OF loc [OF take_batch(2)] take_batch(3)] same [OF take_batch(2)]
      by (cases taken) auto
  next
    case (take_fails N b gp out)
    then show ?thesis
      using e batcher_queue.extract_holds [OF loc [OF take_fails(2)] take_fails(3)] same [OF take_fails(2)]
      by (cases out) auto
  next
    case (finish N b batch gp r s1 out)
    then show ?thesis
      using e batcher_queue.finish_holds [OF loc [OF finish(3)] finish(4,5)] same [OF finish(3)] by auto
  next
    case (finish_fails N b batch gp out)
    then have "queued N t = queued N s" using batcher_queue.finalize_any [OF loc, of N b batch gp s out t] by auto
    then show ?thesis using e finish_fails same [OF finish_fails(3)] by auto
  next
    case (verifiers N d)
    then show ?thesis
      using e batcher_queue.flush_any(1) [OF loc [OF verifiers(3)], of "s\<lparr>disabled_verifiers := d\<rparr>"] same [OF verifiers(3)]
      by (auto simp: update_disabled_verifiers_def split: if_splits)
  next
    case (unlock N a)
    then show ?thesis
      using e batcher_queue.unlock_holds [OF loc [OF unlock(3)], of a s] same [OF unlock(3)]
      by (auto simp del: process_unlocked_users.simps)
  qed
qed

text \<open>So what every submission promises of the entry it queues holds of all the proofs in every run.\<close>

lemma reachable_held:
  assumes "batcher_reachable Ns Q p" "\<And>N. N \<in> Ns \<Longrightarrow> pq N = Q" "batch_pq Q" "e \<in> held_entries Q p"
    and "\<And>N m ws s out t e. N \<in> Ns \<Longrightarrow> handle_submit_proof_msg N m ws s = (out, t) \<Longrightarrow>
      e \<in> fst ` set (queue_items N t) \<Longrightarrow> e \<notin> fst ` set (queue_items N s) \<Longrightarrow> R e"
  shows "R e"
  using assms(1,4)
proof (induction arbitrary: e rule: reachable_induct)
  case (initial p)
  then show ?case by (simp add: initial_def held_entries_def)
next
  case (step p p')
  obtain s fl t fl' where p: "p = (s, fl)" "p' = (t, fl')" by fastforce
  have "e \<in> held_entries Q p \<or> (\<exists>N m ws out. N \<in> Ns \<and> handle_submit_proof_msg N m ws s = (out, t) \<and>
      e \<in> fst ` set (queue_items N t) \<and> e \<notin> fst ` set (queue_items N s))"
    unfolding p(1) by (rule step_holds [OF _ assms(2,3)]) (use step p in simp_all)
  then show ?case using step.IH [of e] assms(5) by blast
qed

lemma reachable_vetted:
  assumes "\<And>N. N \<in> Ns \<Longrightarrow> pq N = Q \<and> checks_proofs K Z limit N" "batch_pq Q" "batcher_reachable Ns Q p"
    and "e \<in> held_entries Q p"
  shows "vetted K Z limit e"
proof (rule reachable_held [OF assms(3) _ assms(2,4)])
  fix N m ws s out t e
  assume a: "N \<in> Ns" "handle_submit_proof_msg N m ws s = (out, t)"
    "e \<in> fst ` set (queue_items N t)" "e \<notin> fst ` set (queue_items N s)"
  have "batch_pq (pq N)" "checks_proofs K Z limit N" using assms(1) [OF a(1)] assms(2) by simp_all
  then show "vetted K Z limit e" using submitted_entry_vetted(1) a(2-4) by blast
qed (use assms(1) in simp)

section \<open>Enabled systems\<close>

text \<open>The list of disabled verifiers changes only with a flush of the queue.\<close>

lemma step_disabled:
  assumes "batcher_step Ns (s, fl) (t, fl')" "\<And>N. N \<in> Ns \<Longrightarrow> pq N = Q" "batch_pq Q"
  shows "disabled_verifiers t = disabled_verifiers s \<or> pq_iter Q (batch_queue (batch_state t)) = [] \<and> fl' = fl"
  using assms(1)
proof cases
  case (submit N m ws out)
  then show ?thesis using handle_submit_keeps [of N m ws s out t] by (simp add: background_def)
next
  case (get_nonce N a ws out)
  then show ?thesis using queries_keep(1) [of N a ws s out t] by (simp add: background_def)
next
  case (get_fee N a ws out)
  then show ?thesis using queries_keep(2) [of N a ws s out t] by (simp add: background_def)
next
  case (min_fee N g out)
  then show ?thesis by (auto simp: update_min_max_fee_def or_panic_def split: option.splits)
next
  case (take_batch N b gp taken)
  then show ?thesis using disabled_extract by blast
next
  case (take_fails N b gp out)
  then show ?thesis using disabled_extract by blast
next
  case (finish N b batch gp r s1 out)
  then show ?thesis using disabled_finalize(2) by blast
next
  case (finish_fails N b batch gp out)
  then show ?thesis using disabled_finalize(1) by blast
next
  case (verifiers N d)
  have "batcher_queue N" using assms(2) [OF verifiers(3)] assms(3) by (intro batcher_queue.intro) simp
  then show ?thesis
    using batcher_queue.flush_any(1) [of N "s\<lparr>disabled_verifiers := d\<rparr>"] verifiers assms(2) [OF verifiers(3)]
    by (simp add: update_disabled_verifiers_def)
next
  case (unlock N a)
  then show ?thesis using disabled_unlock by blast
qed

text \<open>The runs in which the list does not change while a batch is in flight.\<close>

definition steady_step :: "('q, 't) batcher_env set \<Rightarrow> 'q system \<Rightarrow> 'q system \<Rightarrow> bool" where
  "steady_step Ns p p' \<longleftrightarrow> batcher_step Ns p p' \<and>
     (disabled_verifiers (fst p') = disabled_verifiers (fst p) \<or> snd p = None)"

definition steadily_reachable :: "('q, 't) batcher_env set \<Rightarrow> 'q bq_ops \<Rightarrow> 'q system \<Rightarrow> bool" where
  "steadily_reachable Ns Q p \<longleftrightarrow> (\<exists>p0. initial Q p0 \<and> (steady_step Ns)\<^sup>*\<^sup>* p0 p)"

lemma calm_is_steady:
  assumes "calm_step Ns p p'" "\<And>N. N \<in> Ns \<Longrightarrow> pq N = Q" "batch_pq Q"
  shows "steady_step Ns p p'"
  using assms(1)
proof cases
  case (verifiers N s d)
  then show ?thesis using calm_is_step [OF assms(1)] by (simp add: steady_step_def)
qed (use calm_is_step [OF assms(1)] step_disabled [of Ns "fst p" "snd p" "fst p'" "snd p'" Q] assms(2,3)
  in \<open>auto simp: steady_step_def dest: handle_submit_keeps queries_keep disabled_extract
       disabled_finalize(2)
       simp: background_def update_min_max_fee_def or_panic_Ret_iff disabled_unlock
       simp del: process_unlocked_users.simps\<close>)

lemma steady_enabled:
  assumes "\<And>N. N \<in> Ns \<Longrightarrow> pq N = Q \<and> checks_proofs K Z limit N" "batch_pq Q" "steadily_reachable Ns Q p"
    and "e \<in> held_entries Q p"
  shows "enabled (disabled_verifiers (fst p)) e"
proof -
  obtain p0 where p0: "(steady_step Ns)\<^sup>*\<^sup>* p0 p" "initial Q p0" using assms(3) by (auto simp: steadily_reachable_def)
  from p0(1) assms(4) show ?thesis
  proof (induction arbitrary: e rule: rtranclp_induct)
    case base
    then show ?case using p0(2) by (simp add: initial_def held_entries_def)
  next
    case (step p p')
    obtain s fl t fl' where p: "p = (s, fl)" "p' = (t, fl')" by fastforce
    have st: "batcher_step Ns (s, fl) (t, fl')" and ch: "disabled_verifiers t = disabled_verifiers s \<or> fl = None"
      using step(2) p by (simp_all add: steady_step_def)
    have e: "e \<in> held_entries Q (t, fl')" using step(4) p by simp
    have qs: "\<And>N. N \<in> Ns \<Longrightarrow> pq N = Q" using assms(1) by simp
    show ?case
    proof (cases "disabled_verifiers t = disabled_verifiers s")
      case False
      then have "held_entries Q p' = {}" using step_disabled [OF st qs assms(2)] ch p by (auto simp: held_entries_def)
      then show ?thesis using step(4) by simp
    next
      case True
      have "enabled (disabled_verifiers s) e" if "N \<in> Ns" "handle_submit_proof_msg N m ws s = (out, t)"
        "e \<in> fst ` set (queue_items N t)" "e \<notin> fst ` set (queue_items N s)" for N m ws out
        using submitted_entry_vetted(2) [of N K Z limit m ws s out t e] assms(1) [OF that(1)] assms(2) that(2-4) by simp
      moreover have "e \<in> held_entries Q (s, fl) \<Longrightarrow> enabled (disabled_verifiers s) e" using step.IH [of e] p by simp
      ultimately have "enabled (disabled_verifiers s) e" using step_holds [OF st qs assms(2) e] by blast
      then show ?thesis using True p by simp
    qed
  qed
qed


lemma sample_checks_proofs: "checks_proofs id sample_zk (max_proof_size (cfg sample_env)) sample_env"
  by (simp add: checks_proofs_def sample_cfg_def)


end
