(* ===== verification/Batcher_New.thy ===== *)
theory Batcher_New
  imports Vetted
begin

text \<open>
  The construction of the batcher: \<open>Batcher::new\<close> and the configuration (\<open>batcher/src/config\<close>). Files, environment
  variables, parsers, keys and the Ethereum providers are the fields of \<open>start_env\<close>; \<open>None\<close> is a panic (every
  \<open>expect\<close> of the code, and the assertion on the sizes). The clients of the object store and the telemetry are left
  out; what the uploads need of them is whether the second one exists. Sizes are natural numbers: the sum in the
  assertion is the exact one, as it is for every size below the width of \<open>usize\<close>.
\<close>

section \<open>Configuration\<close>

record NonPayingConfigFromYaml =
  y_address :: address
  replacement_private_key :: string

text \<open>The two fields with a default may be absent from the file.\<close>

record BatcherConfigFromYaml =
  y_aggregator_fee_percentage_multiplier :: "u128 option"
  y_aggregator_gas_cost :: "u128 option"
  y_block_interval :: u64
  y_max_proof_size :: nat
  y_max_batch_byte_size :: nat
  y_max_batch_proof_qty :: nat
  y_max_queue_size :: nat
  y_pre_verification_is_enabled :: bool
  y_metrics_port :: u16
  y_non_paying :: "NonPayingConfigFromYaml option"
  y_amount_of_proofs_for_min_max_fee :: nat
  y_min_bump_percentage :: u64

record ECDSAConfig =
  private_key_store_path :: string
  private_key_store_password :: string

record ConfigFromYaml =
  y_eth_rpc_url :: string
  y_eth_rpc_url_fallback :: string
  y_ecdsa :: ECDSAConfig
  aligned_layer_deployment_config_file_path :: string
  y_batcher :: BatcherConfigFromYaml

record Addresses =
  ad_batcher_payment_service :: string
  ad_service_manager :: string

record start_env =
  env_var :: "string \<Rightarrow> string option"
  read_to_string :: "string \<Rightarrow> string + string"
  yaml_from_str :: "string \<Rightarrow> ConfigFromYaml option"
  json_addresses :: "string \<Rightarrow> Addresses option"
  metrics_start :: "u16 \<Rightarrow> bool"
  http_from_str :: "string \<Rightarrow> bool"
  get_block_number :: "provider \<Rightarrow> string + u64"
  provider_chainid :: "provider \<Rightarrow> string + u256"
  keystore_opens :: "string \<Rightarrow> string \<Rightarrow> bool"
  h160_from_str :: "string \<Rightarrow> address option"
  hex_bytes :: "string \<Rightarrow> bytes option"
  wallet_from_bytes :: "bytes \<Rightarrow> address option"
  nonces_call :: "address \<Rightarrow> string + u256"
  disabled_call :: "provider \<Rightarrow> string + u256"

definition ConfigFromYaml_new :: "start_env \<Rightarrow> string \<Rightarrow> ConfigFromYaml option" where
  "ConfigFromYaml_new S config_file =
     (case read_to_string S config_file of Inl _ \<Rightarrow> None | Inr t \<Rightarrow> yaml_from_str S t)"

definition ContractDeploymentOutput_new :: "start_env \<Rightarrow> string \<Rightarrow> Addresses option" where
  "ContractDeploymentOutput_new S deployment_output =
     (case read_to_string S deployment_output of Inl _ \<Rightarrow> None | Inr t \<Rightarrow> json_addresses S t)"

definition default_aggregator_fee_percentage_multiplier :: u128 where
  "default_aggregator_fee_percentage_multiplier = DEFAULT_AGGREGATOR_FEE_PERCENTAGE_MULTIPLIER"

definition default_aggregator_gas_cost :: u128 where
  "default_aggregator_gas_cost = DEFAULT_AGGREGATOR_GAS_COST"

definition from_yaml_config :: "start_env \<Rightarrow> NonPayingConfigFromYaml \<Rightarrow> NonPayingConfig option" where
  "from_yaml_config S config =
     Option.bind (hex_bytes S (replacement_private_key config)) (\<lambda>b.
     map_option (\<lambda>replacement. \<lparr> np_address = y_address config, np_replacement = replacement \<rparr>)
       (wallet_from_bytes S b))"

section \<open>Providers, signers and contracts\<close>

fun or_fallback :: "(provider \<Rightarrow> string + 'a) \<Rightarrow> 'a option" where
  "or_fallback f =
     (case f MainRpc of Inr x \<Rightarrow> Some x | Inl _ \<Rightarrow> (case f FallbackRpc of Inr x \<Rightarrow> Some x | Inl _ \<Rightarrow> None))"

declare or_fallback.simps [simp del]

text \<open>A signer needs the chain id of its own provider, as 64 bits, and the key store.\<close>

definition get_batcher_signer :: "start_env \<Rightarrow> provider \<Rightarrow> ECDSAConfig \<Rightarrow> unit option" where
  "get_batcher_signer S p ecdsa_config =
     (case provider_chainid S p of
        Inl _ \<Rightarrow> None
      | Inr chain \<Rightarrow>
        if keystore_opens S (private_key_store_path ecdsa_config) (private_key_store_password ecdsa_config)
        then map_option (\<lambda>_. ()) (as_u64 chain) else None)"

definition get_batcher_payment_service :: "start_env \<Rightarrow> string \<Rightarrow> address option" where
  "get_batcher_payment_service S contract_address = h160_from_str S contract_address"

definition get_service_manager :: "start_env \<Rightarrow> provider \<Rightarrow> ECDSAConfig \<Rightarrow> string \<Rightarrow> address option" where
  "get_service_manager S p ecdsa_config contract_address =
     Option.bind (get_batcher_signer S p ecdsa_config) (\<lambda>_. h160_from_str S contract_address)"

section \<open>The batcher\<close>

definition start_metrics :: BatcherMetrics where
  "start_metrics = \<lparr> open_connections = 0, received_proofs = 0, sent_batches = 0, reverted_batches = 0,
     canceled_batches = 0, user_errors = [], gas_price_used_on_latest_batch = 0,
     broken_ws_connections = 0, queue_len = 0, queue_size_bytes = 0, user_lock_timeouts = 0,
     batch_lock_timeouts = 0, user_states_lock_timeouts = 0,
     unlocked_event_polling_batch_lock_timeouts = 0, available_data_services = 0 \<rparr>"

text \<open>The non-paying configuration, with the state of its replacement address cached from the start.\<close>

definition start_non_paying ::
    "start_env \<Rightarrow> NonPayingConfigFromYaml option \<Rightarrow> (NonPayingConfig option \<times> (address \<rightharpoonup> UserState)) option" where
  "start_non_paying S non_paying =
     (case non_paying of
        None \<Rightarrow> Some (None, \<lambda>_. None)
      | Some y \<Rightarrow>
        Option.bind (from_yaml_config S y) (\<lambda>c.
        case nonces_call S (np_replacement c) of
          Inl _ \<Rightarrow> None
        | Inr nonpaying_nonce \<Rightarrow> Some (Some c, (\<lambda>_. None)(np_replacement c \<mapsto> UserState_new nonpaying_nonce))))"

text \<open>The second store, when all of it is configured; the code keeps the parts and asks for all of them at each upload.\<close>

definition start_secondary :: "start_env \<Rightarrow> string option" where
  "start_secondary S =
     (if env_var S ''AWS_BUCKET_NAME_SECONDARY'' \<noteq> None then env_var S ''DOWNLOAD_ENDPOINT_SECONDARY'' else None)"

text \<open>The batcher itself: its configuration and its first state.\<close>

definition batcher_self ::
    "start_env \<Rightarrow> 'q bq_ops \<Rightarrow> BatcherConfigFromYaml \<Rightarrow> string \<Rightarrow> u64 \<Rightarrow> u256 \<Rightarrow> address \<Rightarrow> NonPayingConfig option \<Rightarrow>
     (address \<rightharpoonup> UserState) \<Rightarrow> u256 \<Rightarrow> BatcherConfig \<times> 'q batcher" where
  "batcher_self S Q b endpoint last_block chain payment_service non_paying users disabled =
       (\<lparr> cfg_chain_id = chain, cfg_payment_service = payment_service, min_block_interval = y_block_interval b,
          max_proof_size = y_max_proof_size b, max_batch_byte_size = y_max_batch_byte_size b,
          max_batch_proof_qty = y_max_batch_proof_qty b,
          pre_verification_is_enabled = y_pre_verification_is_enabled b, non_paying_config = non_paying,
          aggregator_fee_percentage_multiplier =
            (case y_aggregator_fee_percentage_multiplier b of
               None \<Rightarrow> default_aggregator_fee_percentage_multiplier | Some m \<Rightarrow> m),
          aggregator_gas_cost =
            (case y_aggregator_gas_cost b of None \<Rightarrow> default_aggregator_gas_cost | Some g \<Rightarrow> g),
          amount_of_proofs_for_min_max_fee = y_amount_of_proofs_for_min_max_fee b,
          min_bump_percentage = ucast (y_min_bump_percentage b), download_endpoint = endpoint,
          download_endpoint_secondary = start_secondary S \<rparr>,
        \<lparr> batch_state = BatchState_new Q (y_max_queue_size b), user_states = users,
          last_uploaded_batch_block = last_block, posting_batch = False, disabled_verifiers = disabled,
          current_min_max_fee = 0, metrics = start_metrics, outbox = [] \<rparr>)"

definition Batcher_new :: "start_env \<Rightarrow> 'q bq_ops \<Rightarrow> string \<Rightarrow> (BatcherConfig \<times> 'q batcher) option" where
  "Batcher_new S Q config_file =
     Option.bind (env_var S ''AWS_BUCKET_NAME'') (\<lambda>_.
     Option.bind (env_var S ''DOWNLOAD_ENDPOINT'') (\<lambda>endpoint.
     Option.bind (ConfigFromYaml_new S config_file) (\<lambda>config.
     let b = y_batcher config in
     if \<not> y_max_proof_size b + CBOR_ARRAY_MAX_OVERHEAD \<le> y_max_batch_byte_size b then None else
     Option.bind (ContractDeploymentOutput_new S (aligned_layer_deployment_config_file_path config)) (\<lambda>addresses.
     if \<not> metrics_start S (y_metrics_port b) then None
     else if \<not> http_from_str S (y_eth_rpc_url config) \<or> \<not> http_from_str S (y_eth_rpc_url_fallback config) then None else
     Option.bind (or_fallback (get_block_number S)) (\<lambda>last_block.
     Option.bind (or_fallback (provider_chainid S)) (\<lambda>chain.
     Option.bind (get_batcher_signer S MainRpc (y_ecdsa config)) (\<lambda>_.
     Option.bind (get_batcher_signer S FallbackRpc (y_ecdsa config)) (\<lambda>_.
     Option.bind (get_batcher_payment_service S (ad_batcher_payment_service addresses)) (\<lambda>payment_service.
     Option.bind (get_service_manager S MainRpc (y_ecdsa config) (ad_service_manager addresses)) (\<lambda>_.
     Option.bind (get_service_manager S FallbackRpc (y_ecdsa config) (ad_service_manager addresses)) (\<lambda>_.
     Option.bind (start_non_paying S (y_non_paying b)) (\<lambda>(non_paying, users).
     Option.bind (or_fallback (disabled_call S)) (\<lambda>disabled.
     Some (batcher_self S Q b endpoint last_block chain payment_service non_paying users disabled))))))))))))))"

section \<open>Properties\<close>

lemma start_non_paying_fresh:
  assumes "start_non_paying S y = Some (c, us)" "us a = Some u"
  shows "\<exists>n. u = UserState_new n"
proof (cases y)
  case None
  then show ?thesis using assms by (auto simp: start_non_paying_def)
next
  case (Some v)
  then obtain d where d: "from_yaml_config S v = Some d"
    using assms(1) by (auto simp: start_non_paying_def bind_eq_Some_conv)
  then show ?thesis
    using assms Some by (cases "nonces_call S (np_replacement d)") (auto simp: start_non_paying_def split: if_splits)
qed

lemma Batcher_new_Some:
  assumes "Batcher_new S Q f = Some (c, s)"
  shows "batch_queue (batch_state s) = pq_new Q" "\<not> posting_batch s" "outbox s = []"
    and "\<And>a u. user_states s a = Some u \<Longrightarrow> \<exists>n. u = UserState_new n"
    and "max_proof_size c + CBOR_ARRAY_MAX_OVERHEAD \<le> max_batch_byte_size c"
  using assms
  by (auto simp: Batcher_new_def batcher_self_def Let_def bind_eq_Some_conv BatchState_new_def split: if_splits
      dest: start_non_paying_fresh)

lemma Batcher_new_users:
  assumes "Batcher_new S Q f = Some (c, s0)"
  shows "(case non_paying_config c of
       None \<Rightarrow> user_states s0 = (\<lambda>_. None)
     | Some np \<Rightarrow> \<exists>n. nonces_call S (np_replacement np) = Inr n \<and>
         user_states s0 = (\<lambda>_. None)(np_replacement np \<mapsto> UserState_new n))"
proof -
  have "case np of None \<Rightarrow> us = (\<lambda>_. None) | Some np \<Rightarrow> \<exists>n. nonces_call S (np_replacement np) = Inr n \<and>
      us = (\<lambda>_. None)(np_replacement np \<mapsto> UserState_new n)" if st: "start_non_paying S y = Some (np, us)" for y np us
  proof (cases y)
    case None
    then show ?thesis using st by (simp add: start_non_paying_def)
  next
    case (Some v)
    then obtain d where d: "from_yaml_config S v = Some d" using st by (auto simp: start_non_paying_def bind_eq_Some_conv)
    then show ?thesis
      using st Some by (cases "nonces_call S (np_replacement d)") (auto simp: start_non_paying_def d)
  qed
  then show ?thesis
    using assms by (auto simp: Batcher_new_def batcher_self_def Let_def bind_eq_Some_conv split: if_split_asm)
qed

lemma Batcher_new_initial:
  assumes "batch_pq Q" "Batcher_new S Q f = Some (c, s)"
  shows "initial Q (s, None)"
  using Batcher_new_Some [OF assms(2)] priority_queue.iter_new [OF assms(1) [unfolded batch_pq_def]]
  unfolding initial_def by auto

text \<open>
  Claim C36. The configuration that \<open>Batcher::new\<close> accepts never locks a proof out: started with it, in every state of every
  run of the batcher (full queues, evictions, changes of the verifiers, panics included, with pre-verification or without),
  every proof it holds, queued or in flight, fits into a batch of its own within the byte limit. The start is a
  regular one: nothing is queued or in flight, and the only user cached is the replacement address of the non-paying
  configuration, with the nonce Ethereum gave for it and no fees.
\<close>

theorem started_batcher_fits_every_proof:
  assumes "batch_pq Q" "Batcher_new S Q f = Some (c, s0)" "\<forall>N \<in> Ns. pq N = Q \<and> cfg N = c"
    and "(batcher_step Ns)\<^sup>*\<^sup>* (s0, None) (s, fl)"
  shows "(\<forall>e \<in> held_entries Q (s, fl). CBOR_ARRAY_MAX_OVERHEAD + entry_size e \<le> max_batch_byte_size c) \<and>
    initial Q (s0, None) \<and>
    (case non_paying_config c of
       None \<Rightarrow> user_states s0 = (\<lambda>_. None)
     | Some np \<Rightarrow> \<exists>n. nonces_call S (np_replacement np) = Inr n \<and>
         user_states s0 = (\<lambda>_. None)(np_replacement np \<mapsto> UserState_new n))"
proof -
  have r: "batcher_reachable Ns Q (s, fl)"
    using Batcher_new_initial [OF assms(1,2)] assms(4) unfolding batcher_reachable_def by blast
  have "entry_size e \<le> max_proof_size c" if e: "e \<in> held_entries Q (s, fl)" for e
  proof (rule reachable_held [OF r _ assms(1) e])
    fix N m ws s out t e
    assume a: "N \<in> Ns" "handle_submit_proof_msg N m ws s = (out, t)"
      "e \<in> fst ` set (queue_items N t)" "e \<notin> fst ` set (queue_items N s)"
    have "batch_pq (pq N)" "cfg N = c" using assms(1,3) a(1) by simp_all
    then show "entry_size e \<le> max_proof_size c" using submitted_entry_size a(2-4) by metis
  qed (use assms(3) in simp)
  then show ?thesis
    using Batcher_new_Some(5) [OF assms(2)] Batcher_new_initial [OF assms(1,2)] Batcher_new_users [OF assms(2)] by fastforce
qed

section \<open>A start\<close>

definition sample_start :: start_env where
  "sample_start = \<lparr>
     env_var = (\<lambda>v. if v = ''AWS_BUCKET_NAME'' then Some ''b'' else if v = ''DOWNLOAD_ENDPOINT'' then Some ''s3'' else None),
     read_to_string = (\<lambda>f. Inr f),
     yaml_from_str = (\<lambda>_. Some \<lparr> y_eth_rpc_url = ''m'', y_eth_rpc_url_fallback = ''f'',
        y_ecdsa = \<lparr> private_key_store_path = ''k'', private_key_store_password = ''p'' \<rparr>,
        aligned_layer_deployment_config_file_path = ''d'',
        y_batcher = \<lparr> y_aggregator_fee_percentage_multiplier = None, y_aggregator_gas_cost = None, y_block_interval = 2,
          y_max_proof_size = 2000, y_max_batch_byte_size = 100000, y_max_batch_proof_qty = 10, y_max_queue_size = 10,
          y_pre_verification_is_enabled = True, y_metrics_port = 9093, y_non_paying = None,
          y_amount_of_proofs_for_min_max_fee = 10, y_min_bump_percentage = 10 \<rparr> \<rparr>),
     json_addresses = (\<lambda>_. Some \<lparr> ad_batcher_payment_service = ''5'', ad_service_manager = ''6'' \<rparr>),
     metrics_start = (\<lambda>_. True), http_from_str = (\<lambda>_. True),
     get_block_number = (\<lambda>p. if p = MainRpc then Inl [] else Inr 0), provider_chainid = (\<lambda>_. Inr 1),
     keystore_opens = (\<lambda>_ _. True), h160_from_str = (\<lambda>_. Some 5), hex_bytes = (\<lambda>_. None),
     wallet_from_bytes = (\<lambda>_. None), nonces_call = (\<lambda>_. Inr 0), disabled_call = (\<lambda>_. Inr 0) \<rparr>"

lemma sample_started:
  "Batcher_new sample_start (list_pq entry_key) ''config'' = Some (sample_cfg, sample_state [] 10 (\<lambda>_. None))"
  by (simp add: Batcher_new_def batcher_self_def sample_start_def ConfigFromYaml_new_def ContractDeploymentOutput_new_def
      get_batcher_signer_def get_batcher_payment_service_def get_service_manager_def or_fallback.simps
      start_non_paying_def start_secondary_def start_metrics_def zero_metrics_def sample_state_def sample_cfg_def
      BatchState_new_def as_u64_def default_aggregator_fee_percentage_multiplier_def
      default_aggregator_gas_cost_def sdk_constants Let_def)

theorem started_batcher_fits_every_proof_witness:
  "CBOR_ARRAY_MAX_OVERHEAD + entry_size (sample_entry 1 0 600000) \<le> max_batch_byte_size sample_cfg"
proof -
  let ?t = "snd (handle_submit_proof_msg sample_env (sample_msg 1 0 600000) 1 (sample_state [] 10 (\<lambda>_. None)))"
  have r: "(batcher_step {sample_env})\<^sup>*\<^sup>* (sample_state [] 10 (\<lambda>_. None), None) (?t, None)"
    using calm_is_step [OF sample_calm_step] by blast
  have c: "\<forall>N \<in> {sample_env}. pq N = list_pq entry_key \<and> cfg N = sample_cfg" by (simp add: sample_env_def)
  have h: "sample_entry 1 0 600000 \<in> held_entries (list_pq entry_key) (?t, None)"
    unfolding sample_submit snd_conv by (simp add: held_entries_def)
  show ?thesis
    using started_batcher_fits_every_proof [OF lbq.batch_pq_axioms sample_started c r] h by blast
qed

end
