(* ===== verification/Unit_Tests.thy ===== *)
theory Unit_Tests
  imports Batch_Queue Zk_Utils
begin

text \<open>
  The unit tests of the repository on the model: each definition has the inputs and the assertions of one test function, and
  each lemma shows that the test passes. Random addresses are arguments, so a test passes whatever they are; the
  queue is the list implementation, and the result of a test that unwraps an error or indexes a batch out of range is false.
  Left out are the tests that run a verifier, ask a public node or measure a proof file (for the last, see the general
  bounds in \<open>Cbor\<close> and \<open>Wire_Fits\<close>).
\<close>

section \<open>The queue (\<open>types/batch_queue.rs\<close>)\<close>

definition bytes_for_verification_data :: bytes where
  "bytes_for_verification_data = replicate 10 42"

text \<open>The keccak function, the address of the proof generator and the one of the payment service.\<close>

type_synonym test_setup = "(bytes \<Rightarrow> bytes) \<times> address \<times> address"

definition new_for_testing :: "test_setup \<Rightarrow> address \<Rightarrow> u256 \<Rightarrow> u256 \<Rightarrow> BatchQueueEntry" where
  "new_for_testing setup sender_addr nonce_n fee =
     (let (K, proof_generator, payment_service) = setup;
          data = \<lparr> proving_system = Risc0, proof_bytes = bytes_for_verification_data,
            pub_input = Some bytes_for_verification_data, verification_key = Some bytes_for_verification_data,
            vm_program_code = Some bytes_for_verification_data, proof_generator_addr = proof_generator \<rparr>;
          nvd = \<lparr> verification_data = data, nonce = nonce_n, max_fee = fee, chain_id = 42,
            payment_service_addr = payment_service \<rparr> in
      \<lparr> nonced_verification_data = nvd, verification_data_commitment = nonced_into_commitment K nvd,
        messaging_sink = None, entry_signature = \<lparr> sig_r = 1, sig_s = 2, sig_v = 3 \<rparr>, sender = sender_addr \<rparr>)"

definition test_queue :: "test_setup \<Rightarrow> (address \<times> u256 \<times> u256) list \<Rightarrow> item list" where
  "test_queue setup es =
     foldl (\<lambda>q (a, n, f). pq_push (list_pq entry_key) q (new_for_testing setup a n f) (BatchQueueEntryPriority f n))
       (pq_new (list_pq entry_key)) es"

text \<open>The batch that is extracted and the queue that is left; \<open>None\<close> when there is no batch to unwrap.\<close>

definition finalized :: "item list \<Rightarrow> u256 \<Rightarrow> nat \<Rightarrow> (BatchQueueEntry list \<times> item list) option" where
  "finalized q gas_price max_batch_proof_qty =
     (case extract_batch_directly (list_pq entry_key) q gas_price 5000000 max_batch_proof_qty DEFAULT_CONSTANT_GAS_COST of
        (Ret (Inr batch), q') \<Rightarrow> Some (batch, q') | _ \<Rightarrow> None)"

definition passes :: "(BatchQueueEntry list \<times> item list) option \<Rightarrow> (BatchQueueEntry list \<times> item list \<Rightarrow> bool) \<Rightarrow> bool" where
  "passes r assertions = (case r of None \<Rightarrow> False | Some x \<Rightarrow> assertions x)"

text \<open>The entry at an index has the given fee or nonce.\<close>

definition fee_at :: "BatchQueueEntry list \<Rightarrow> nat \<Rightarrow> u256 \<Rightarrow> bool" where
  "fee_at batch i f \<longleftrightarrow> i < length batch \<and> entry_fee (batch ! i) = f"

definition nonce_at :: "BatchQueueEntry list \<Rightarrow> nat \<Rightarrow> u256 \<Rightarrow> bool" where
  "nonce_at batch i n \<longleftrightarrow> i < length batch \<and> entry_nonce (batch ! i) = n"

definition batch_finalization_algorithm_works_from_same_sender :: "test_setup \<Rightarrow> address \<Rightarrow> bool" where
  "batch_finalization_algorithm_works_from_same_sender setup a =
     passes (finalized (test_queue setup [(a, 1, 1300000000000002), (a, 2, 1300000000000001), (a, 3, 1300000000000000)]) 1 50)
       (\<lambda>(batch, _). fee_at batch 0 1300000000000000 \<and> fee_at batch 1 1300000000000001 \<and> fee_at batch 2 1300000000000002)"

definition batch_finalization_algorithm_works_from_same_sender_same_fee :: "test_setup \<Rightarrow> address \<Rightarrow> bool" where
  "batch_finalization_algorithm_works_from_same_sender_same_fee setup a =
     (let q = test_queue setup [(a, 1, 130000000000000), (a, 2, 130000000000000), (a, 3, 130000000000000)] in
      passes (finalized q 1 50)
        (\<lambda>(batch, _). pq_len (list_pq entry_key) q = 3 \<and> nonce_at batch 0 3 \<and> nonce_at batch 1 2 \<and> nonce_at batch 2 1 \<and>
           fee_at batch 2 130000000000000))"

definition batch_finalization_algorithm_works_from_same_sender_same_fee_nonempty_resulting_queue ::
    "test_setup \<Rightarrow> address \<Rightarrow> bool" where
  "batch_finalization_algorithm_works_from_same_sender_same_fee_nonempty_resulting_queue setup a =
     (let q = test_queue setup [(a, 1, 130000000000000), (a, 2, 130000000000000), (a, 3, 130000000000000)] in
      passes (finalized q 1 2)
        (\<lambda>(batch, _). pq_len (list_pq entry_key) q = 3 \<and> nonce_at batch 0 2 \<and> nonce_at batch 1 1))"

definition batch_finalization_algorithm_works_from_different_senders ::
    "test_setup \<Rightarrow> address \<Rightarrow> address \<Rightarrow> address \<Rightarrow> bool" where
  "batch_finalization_algorithm_works_from_different_senders setup a b c =
     (let q = test_queue setup [(a, 10, 1300000000000001), (b, 20, 1300000000000002), (c, 14, 1300000000000000)] in
      passes (finalized q 1 50)
        (\<lambda>(batch, _). pq_len (list_pq entry_key) q = 3 \<and> length batch = 3 \<and> fee_at batch 0 1300000000000000 \<and>
           fee_at batch 1 1300000000000001 \<and> fee_at batch 2 1300000000000002))"

definition batch_finalization_algorithm_works_one_not_willing_to_pay ::
    "test_setup \<Rightarrow> address \<Rightarrow> address \<Rightarrow> address \<Rightarrow> bool" where
  "batch_finalization_algorithm_works_one_not_willing_to_pay setup a b c =
     (let q = test_queue setup [(a, 10, 1300000000000002), (b, 20, 1300000000000001), (c, 14, 10)] in
      passes (finalized q 1 50)
        (\<lambda>(batch, _). pq_len (list_pq entry_key) q = 3 \<and> length batch = 2 \<and> fee_at batch 0 1300000000000001 \<and>
           fee_at batch 1 1300000000000002))"

definition batch_finalization_algorithm_works_single_high_fee_proof :: "test_setup \<Rightarrow> address \<Rightarrow> bool" where
  "batch_finalization_algorithm_works_single_high_fee_proof setup a =
     passes (finalized (test_queue setup [(a, 1, 1000000000000000000)]) 10000000000 50)
       (\<lambda>(batch, q'). length batch = 1 \<and> fee_at batch 0 1000000000000000000 \<and> pq_len (list_pq entry_key) q' = 0)"

definition batch_finalization_algorithm_works_not_bigger_than_max_batch_proof_qty :: "test_setup \<Rightarrow> address \<Rightarrow> bool" where
  "batch_finalization_algorithm_works_not_bigger_than_max_batch_proof_qty setup a =
     (let q = test_queue setup [(a, 1, 1300000000000002), (a, 2, 1300000000000001), (a, 3, 1300000000000000)] in
      passes (finalized q 1 2)
        (\<lambda>(batch, _). pq_len (list_pq entry_key) q = 3 \<and> length batch = 2 \<and> fee_at batch 0 1300000000000001 \<and>
           fee_at batch 1 1300000000000002))"

subsection \<open>They pass\<close>

lemma test_entry_simps [simp]:
  "sender (new_for_testing S a n f) = a" "entry_nonce (new_for_testing S a n f) = n"
  "entry_fee (new_for_testing S a n f) = f" "entry_size (new_for_testing S a n f) = 1064"
  "entry_key (new_for_testing S a n f) = (a, n)"
  by (simp_all add: new_for_testing_def split_beta Let_def cbor_size_upper_bound_def CBOR_OVERHEAD_BYTES_def
      bytes_for_verification_data_def entry_key_def)

lemmas run_test =
  test_queue_def finalized_def passes_def fee_at_def nonce_at_def Let_def extract_batch_directly_def
  calculate_batch_size_def reject_loop.simps drain_loop.simps should_remove_def push_all_def pushed_def drop_key_def
  calculate_fee_per_proof_def gas_per_proof_def sdk_constants checked_mul_def less_BatchQueueEntryPriority_def prio_cmp_def
  DEFAULT_CONSTANT_GAS_COST_value

lemma same_sender_passes: "batch_finalization_algorithm_works_from_same_sender setup a"
  by (simp add: batch_finalization_algorithm_works_from_same_sender_def run_test)

lemma same_fee_passes: "batch_finalization_algorithm_works_from_same_sender_same_fee setup a"
  by (simp add: batch_finalization_algorithm_works_from_same_sender_same_fee_def run_test)

lemma nonempty_queue_passes:
  "batch_finalization_algorithm_works_from_same_sender_same_fee_nonempty_resulting_queue setup a"
  by (simp add: batch_finalization_algorithm_works_from_same_sender_same_fee_nonempty_resulting_queue_def run_test)

lemma different_senders_passes: "batch_finalization_algorithm_works_from_different_senders setup a b c"
  by (simp add: batch_finalization_algorithm_works_from_different_senders_def run_test)

lemma not_willing_to_pay_passes: "batch_finalization_algorithm_works_one_not_willing_to_pay setup a b c"
  by (simp add: batch_finalization_algorithm_works_one_not_willing_to_pay_def run_test)

lemma single_high_fee_passes: "batch_finalization_algorithm_works_single_high_fee_proof setup a"
  by (simp add: batch_finalization_algorithm_works_single_high_fee_proof_def run_test)

lemma max_qty_passes: "batch_finalization_algorithm_works_not_bigger_than_max_batch_proof_qty setup a"
  by (simp add: batch_finalization_algorithm_works_not_bigger_than_max_batch_proof_qty_def run_test)

section \<open>Gas prices (\<open>eth/utils.rs\<close>) and disabled verifiers (\<open>zk_utils\<close>)\<close>

definition test_get_bumped_gas_price_initial_iteration :: bool where
  "test_get_bumped_gas_price_initial_iteration \<longleftrightarrow> calculate_bumped_gas_price 1000 1200 0 = Some 1440"

definition test_get_bumped_gas_price_with_iteration :: bool where
  "test_get_bumped_gas_price_with_iteration \<longleftrightarrow> calculate_bumped_gas_price 1000 1200 2 = Some 1560"

definition test_get_bumped_gas_price_previous_higher :: bool where
  "test_get_bumped_gas_price_previous_higher \<longleftrightarrow> calculate_bumped_gas_price 1500 1200 1 = Some 1875"

definition get_all_verifiers :: "ProvingSystemId list" where
  "get_all_verifiers = [GnarkPlonkBls12_381, GnarkPlonkBn254, GnarkGroth16Bn254, SP1, Risc0, CircomGroth16Bn256]"

definition test_all_verifiers_enabled :: bool where
  "test_all_verifiers_enabled \<longleftrightarrow> list_all (\<lambda>v. \<not> is_verifier_disabled 0 v) get_all_verifiers"

definition test_all_verifiers_disabled :: bool where
  "test_all_verifiers_disabled \<longleftrightarrow>
     list_all (is_verifier_disabled (of_nat (2 ^ length get_all_verifiers - 1))) get_all_verifiers"

definition test_some_verifiers_disabled :: bool where
  "test_some_verifiers_disabled \<longleftrightarrow>
     list_all (\<lambda>v. is_verifier_disabled 33 v =
       (v = hd get_all_verifiers \<or> v = get_all_verifiers ! (length get_all_verifiers - 1))) get_all_verifiers"

lemma bumped_gas_price_tests_pass:
  "test_get_bumped_gas_price_initial_iteration" "test_get_bumped_gas_price_with_iteration"
  "test_get_bumped_gas_price_previous_higher"
  by (simp_all add: test_get_bumped_gas_price_initial_iteration_def test_get_bumped_gas_price_with_iteration_def
      test_get_bumped_gas_price_previous_higher_def calculate_bumped_gas_price_def checked_add_def checked_mul_def sdk_constants)

lemma disabled_verifiers_tests_pass:
  "test_all_verifiers_enabled" "test_all_verifiers_disabled" "test_some_verifiers_disabled"
  by (simp_all add: test_all_verifiers_enabled_def test_all_verifiers_disabled_def test_some_verifiers_disabled_def
      get_all_verifiers_def is_verifier_disabled_def)

end
