(* ===== verification/Proof_Pool.thy ===== *)
theory Proof_Pool
  imports Batcher_System
begin

text \<open>
  The specification of the batcher as a pool of proofs, and the refinement: whatever the batcher does with
  its priority queue, caches, locks and retries, in any run, is, seen from outside, one of thirteen steps of the pool.
\<close>

section \<open>The pool\<close>

type_synonym pool = "item multiset \<times> BatchQueueEntry list option"

text \<open>
  The proofs queued, each with the fee and nonce it is ranked by, and the batch that is being posted. The pool holds
  \<open>cap\<close> proofs.
  \<^item> A proof enters a pool that is not full (\<open>accept\<close>); into a full one it comes only in place of a proof of another
    user that pays less (\<open>displace\<close>), and a submission that stops half-way may have removed one (\<open>evict\<close>). A proof with
    the sender and nonce of one that is there does not enter: it only changes the rank of that one (\<open>enter\<close>). A proof may
    be replaced by one with the same sender and nonce that pays no less.
  \<^item> A batch consists of proofs ranked at least as high as every proof left (\<open>select\<close>), taken only while none is in
    flight; an extraction that panics loses the lowest ranked proofs (\<open>lose\<close>).
  \<^item> A batch is posted, or everything is flushed with it (\<open>reset\<close>), or it comes back (\<open>restore\<close>): each of its proofs
    re-enters unless the pool is full, in the order of the batch. A restoration that would have to evict stops there,
    with the lowest ranked proof gone (\<open>jam\<close>).
  \<^item> At any time what is queued may be dropped (\<open>flush\<close>), and so may all queued proofs of a user (\<open>leave\<close>); the batch
    in flight stays.
\<close>

inductive pool_step :: "nat \<Rightarrow> pool \<Rightarrow> pool \<Rightarrow> bool" for cap where
  idle: "pool_step cap p p"
| accept: "size P < cap \<Longrightarrow> pool_step cap (P, fl) (enter e P, fl)"
| displace: "cap \<le> Suc (size P) \<Longrightarrow> entry_fee (fst x) < entry_fee e \<Longrightarrow> sender (fst x) \<noteq> sender e \<Longrightarrow>
     pool_step cap (add_mset x P, fl) (enter e P, fl)"
| evict: "cap \<le> Suc (size P) \<Longrightarrow> pool_step cap (add_mset x P, fl) (P, fl)"
| replace: "entry_key (fst x) = entry_key e \<Longrightarrow> entry_fee (fst x) \<le> entry_fee e \<Longrightarrow>
     pool_step cap (add_mset x P, fl) (add_mset (e, prio_of e) P, fl)"
| select: "xs \<noteq> [] \<Longrightarrow> (\<And>x y. x \<in># P \<Longrightarrow> y \<in> set xs \<Longrightarrow> rank x \<le> rank y) \<Longrightarrow>
     pool_step cap (P + mset xs, None) (P, Some (map fst xs))"
| lose: "(\<And>x y. x \<in># L \<Longrightarrow> y \<in># P \<Longrightarrow> rank x \<le> rank y) \<Longrightarrow> pool_step cap (P + L, None) (P, None)"
| post: "pool_step cap (P, Some batch) (P, None)"
| reset: "pool_step cap (P, Some batch) ({#}, None)"
| restore: "pool_step cap (P, Some batch) (readmit cap batch P, None)"
| jam: "readmit cap es1 P = add_mset x P' \<Longrightarrow> cap \<le> Suc (size P') \<Longrightarrow> (\<And>y. y \<in># P' \<Longrightarrow> rank x \<le> rank y) \<Longrightarrow>
     pool_step cap (P, Some (es1 @ e # es2)) (P', None)"
| flush: "pool_step cap (P, fl) ({#}, fl)"
| leave: "pool_step cap (P, fl) (filter_mset (\<lambda>x. sender (fst x) \<noteq> a) P, fl)"

definition pool_of :: "'q bq_ops \<Rightarrow> 'q system \<Rightarrow> pool" where
  "pool_of Q p = (mset (pq_iter Q (batch_queue (batch_state (fst p)))), snd p)"

text \<open>What the pool promises: it never holds more than its capacity, when there is any.\<close>

lemma size_enter: "size (enter e P) \<le> Suc (size P)"
  by (simp add: enter_def)

lemma size_readmit: "0 < cap \<Longrightarrow> size P \<le> cap \<Longrightarrow> size (readmit cap es P) \<le> cap"
proof (induction es arbitrary: P)
  case (Cons e es)
  show ?case
  proof (cases "cap \<le> size P \<and> P \<noteq> {#}")
    case True
    then have "readmit cap (e # es) P = readmit cap es P" by (simp add: readmit_Cons)
    then show ?thesis using Cons.IH [OF Cons.prems] by simp
  next
    case False
    then have "size P < cap" using Cons.prems(1) by (cases "P = {#}") auto
    then have "size (enter e P) \<le> cap" using size_enter [of e P] by linarith
    moreover have "readmit cap (e # es) P = readmit cap es (enter e P)" using False by (auto simp: readmit_Cons)
    ultimately show ?thesis using Cons.IH [OF Cons.prems(1), of "enter e P"] by simp
  qed
qed simp

lemma pool_step_size:
  assumes "pool_step cap p p'" "0 < cap" "size (fst p) \<le> cap"
  shows "size (fst p') \<le> cap"
  using assms
proof (induction rule: pool_step.induct)
  case (accept P fl e)
  then show ?case using size_enter [of e P] by simp
next
  case (displace P x e fl)
  then show ?case using size_enter [of e P] by simp
next
  case (restore P batch)
  then show ?case using size_readmit by simp
next
  case (jam es1 P x P' e es2)
  then show ?case using size_readmit [of cap P es1] by simp
next
  case (leave P fl a)
  then show ?case using size_mset_mono [OF multiset_filter_subset] by (metis fst_conv order_trans)
qed simp_all

section \<open>The refinement\<close>

context batcher_queue
begin

lemma submit_refines:
  assumes "handle_submit_proof_msg N m ws s = (out, t)"
  shows "pool_step (cap s) (queued N s, fl) (queued N t, fl)"
  using assms by (cases rule: submit_any) (auto intro: pool_step.intros)

lemma take_refines:
  assumes e: "extract_batch_if_ready N b gp s = (out, t)" and flag: "fl \<noteq> None \<longrightarrow> posting_batch s"
  shows "pool_step (cap s) (queued N s, fl) (queued N t, case out of Ret (Some batch) \<Rightarrow> Some batch | _ \<Rightarrow> fl)"
proof (cases rule: extract_if_ready_any [of b gp s])
  case (kept t')
  then show ?thesis using e by (simp add: pool_step.idle)
next
  case (taken xs t')
  then have "fl = None" using flag by blast
  then show ?thesis using taken e pool_step.select [of xs "queued N t" "cap s"] by simp
next
  case (panic lost t')
  then have "fl = None" using flag by blast
  then show ?thesis using panic e pool_step.lose [of "mset lost" "queued N t" "cap s"] by simp
qed

lemma finish_refines:
  assumes "finalize_batch N b batch gp s = (Ret r, s1)" "after_finalization N batch r s1 = (out, t)"
  shows "pool_step (cap s) (queued N s, Some batch) (queued N t, None)"
  using assms
proof (cases rule: finish_any)
  case (blocked es1 e es2 x)
  then show ?thesis using pool_step.jam [of "cap s" es1 "queued N s" x "queued N t" e es2] by simp
qed (simp_all add: pool_step.post pool_step.reset pool_step.restore)

lemma unlock_refines: "pool_step (cap s) (queued N s, fl) (queued N (process_unlocked_users N [a] s), fl)"
  using unlock_any(1) [OF refl, of a s] pool_step.idle pool_step.leave by metis

end

lemma step_refines:
  assumes "batcher_step Ns p p'" "\<And>N. N \<in> Ns \<Longrightarrow> pq N = Q" "batch_pq Q" "snd p \<noteq> None \<longrightarrow> posting_batch (fst p)"
  shows "pool_step (max_size (batch_state (fst p))) (pool_of Q p) (pool_of Q p')"
proof -
  have loc: "batcher_queue N" and same: "pool_of Q (s, fl) = (queued N s, fl)" if "N \<in> Ns" for N s fl
    using assms(2) [OF that] assms(3) by (auto simp: pool_of_def intro: batcher_queue.intro)
  from assms(1) show ?thesis
  proof cases
    case (submit N m ws s out t fl)
    then show ?thesis using batcher_queue.submit_refines [OF loc] same by simp
  next
    case (get_nonce N a ws s out t fl)
    then show ?thesis using queries_core(1) [of N a ws s out t] by (simp add: pool_of_def pool_step.idle)
  next
    case (get_fee N a ws s out t fl)
    then show ?thesis using queries_core(2) [of N a ws s out t] by (simp add: pool_of_def pool_step.idle)
  next
    case (min_fee N g s out t fl)
    then have "batch_state t = batch_state s" by (auto simp: update_min_max_fee_def or_panic_def split: option.splits)
    then show ?thesis using min_fee by (simp add: pool_of_def pool_step.idle)
  next
    case (take_batch N b gp s taken t fl)
    then show ?thesis
      using batcher_queue.take_refines [OF loc [OF take_batch(3)] take_batch(4), of fl] assms(4) same
      by (cases taken) simp_all
  next
    case (take_fails N b gp s out t fl)
    then show ?thesis
      using batcher_queue.take_refines [OF loc [OF take_fails(3)] take_fails(4), of fl] assms(4) same
      by (cases out) simp_all
  next
    case (finish N b batch gp s r s1 out t)
    then show ?thesis using batcher_queue.finish_refines [OF loc [OF finish(3)] finish(4,5)] same by simp
  next
    case (finish_fails N b batch gp s out t)
    then have "queued N t = queued N s"
      using batcher_queue.finalize_any [OF loc, of N b batch gp s out t] by auto
    then show ?thesis using finish_fails same pool_step.post by simp
  next
    case (verifiers N s fl d)
    then show ?thesis
      using batcher_queue.flush_any(1) [OF loc [OF verifiers(3)], of "s\<lparr>disabled_verifiers := d\<rparr>"] same
      by (simp add: update_disabled_verifiers_def pool_step.flush pool_step.idle)
  next
    case (unlock N s fl a)
    then show ?thesis
      using batcher_queue.unlock_refines [OF loc [OF unlock(3)], of s fl a] same
      by (simp del: process_unlocked_users.simps)
  qed
qed

lemma run_refines:
  assumes "\<And>N. N \<in> Ns \<Longrightarrow> pq N = Q" "batch_pq Q" "initial Q p0" "(batcher_step Ns)\<^sup>*\<^sup>* p0 p"
  shows "(pool_step (max_size (batch_state (fst p0))))\<^sup>*\<^sup>* ({#}, None) (pool_of Q p) \<and>
    max_size (batch_state (fst p)) = max_size (batch_state (fst p0))"
  using assms(4)
proof (induction rule: rtranclp_induct)
  case base
  then show ?case using assms(3) by (simp add: pool_of_def initial_def)
next
  case (step p p')
  have "batcher_reachable Ns Q p" using assms(3) step(1) unfolding batcher_reachable_def by blast
  then have flag: "snd p \<noteq> None \<longrightarrow> posting_batch (fst p)" by (rule reachable_flag) (use assms(1,2) in simp_all)
  have "max_size (batch_state (fst p')) = max_size (batch_state (fst p))"
    using step_flag [of Ns "fst p" "snd p" "fst p'" "snd p'"] step(2) flag assms(1,2) by simp
  moreover have "pool_step (max_size (batch_state (fst p))) (pool_of Q p) (pool_of Q p')"
    by (rule step_refines [OF step(2) _ assms(2) flag]) (rule assms(1))
  ultimately show ?case using step.IH by (auto intro: rtranclp.rtrancl_into_rtrancl)
qed

text \<open>
  Claim C1. The batcher refines the pool: from a start with nothing queued, every run of the
  batcher (messages, also to a full queue, extractions, finalizations, queries, updates, changes of the verifiers and
  unlocked balances, also while a batch is in flight, in any order, with any answers of the
  environment and any outcome, panics and blocked handlers included) is, seen through the items queued and the batch
  in flight, a run of the pool of the same capacity that begins with the empty one.
\<close>

theorem batcher_refines_pool:
  assumes "\<forall>N \<in> Ns. pq N = Q" "batch_pq Q" "initial Q p0" "(batcher_step Ns)\<^sup>*\<^sup>* p0 p"
  shows "(pool_step (max_size (batch_state (fst p0))))\<^sup>*\<^sup>* ({#}, None) (pool_of Q p)"
  using run_refines [OF _ assms(2-4)] assms(1) by blast

theorem batcher_refines_pool_witness:
  "(pool_step 10)\<^sup>*\<^sup>* ({#}, None) (pool_of (list_pq entry_key)
     (snd (handle_submit_proof_msg sample_env (sample_msg 1 0 600000) 1 (sample_state [] 10 (\<lambda>_. None))), None))"
proof -
  let ?s = "sample_state [] 10 (\<lambda>_. None) :: item list batcher"
  have "(batcher_step {sample_env})\<^sup>*\<^sup>* (?s, None)
     (snd (handle_submit_proof_msg sample_env (sample_msg 1 0 600000) 1 ?s), None)"
    using calm_is_step [OF sample_calm_step] by blast
  then show ?thesis
    using batcher_refines_pool [of "{sample_env}" "list_pq entry_key" "(?s, None)"] sample_batch_pq
    by (simp add: initial_def)
qed

text \<open>The queue never holds more than its capacity, in any run.\<close>

lemma queue_within_capacity:
  assumes "\<forall>N \<in> Ns. pq N = Q" "batch_pq Q" "batcher_reachable Ns Q (s, fl)" "0 < max_size (batch_state s)"
  shows "length (pq_iter Q (batch_queue (batch_state s))) \<le> max_size (batch_state s)"
proof -
  obtain p0 where p0: "initial Q p0" "(batcher_step Ns)\<^sup>*\<^sup>* p0 (s, fl)" using assms(3) by (auto simp: batcher_reachable_def)
  have r: "(pool_step (max_size (batch_state s)))\<^sup>*\<^sup>* ({#}, None) (pool_of Q (s, fl))"
    using run_refines [OF _ assms(2) p0] assms(1) by auto
  have "size (fst p) \<le> max_size (batch_state s)" if "(pool_step (max_size (batch_state s)))\<^sup>*\<^sup>* ({#}, None) p" for p
    using that by (induction rule: rtranclp_induct) (auto intro: pool_step_size [OF _ assms(4)])
  from this [OF r] show ?thesis by (simp add: pool_of_def)
qed

end
