(* ===== verification/Nonce_Gap.thy ===== *)
theory Nonce_Gap
  imports Queue_Effects
begin

text \<open>
  What an eviction does to the evicted user. Of the proofs of a candidate that pay less, the handler takes the first in the
  iteration order of the queue, whatever its nonce, and lowers the user's next nonce by one. When it was not the proof
  with the last nonce, the next nonce is one that is queued already, and the proof submitted with it is lost.
\<close>

lemma evict_from_user_state_Ret:
  "evict_from_user_state fee l u = (Ret (), v) \<Longrightarrow> unat (us_nonce v) + 1 = unat (us_nonce u)"
  by (auto simp: evict_from_user_state_def Let_def outcome_simps checked_simps)

context batcher_queue
begin

lemma evict_loop_evicted:
  assumes "evict_loop N own fee cs s = (Ret (Some removed), t)"
  obtains p u v l where "queued N s = add_mset (removed, p) (queued N t)" "user_states s (sender removed) = Some u"
    "evict_from_user_state (entry_fee removed) l u = (Ret (), v)" "user_states t (sender removed) = Some v"
  using assms
proof (induction cs arbitrary: s thesis)
  case (Cons c cs)
  show ?case
  proof (cases "\<exists>u tg xs y. user_states s c = Some u \<and> c \<noteq> own \<and> user_try_lock (lk N) c \<and>
      filter (\<lambda>x. sender (fst x) = c \<and> entry_fee (fst x) < fee) (queue_items N s) = tg # xs \<and>
      pq_remove (pq N) (batch_queue (batch_state s)) (fst tg) = Some y")
    case False
    then have "evict_loop N own fee cs s = (Ret (Some removed), t)"
      using Cons.prems(2) by (auto split: option.splits if_splits list.splits)
    then show ?thesis by (rule Cons.IH [rotated]) (rule Cons.prems(1))
  next
    case True
    then obtain u tg xs e p q where u: "user_states s c = Some u"
      and tg: "filter (\<lambda>x. sender (fst x) = c \<and> entry_fee (fst x) < fee) (queue_items N s) = tg # xs"
      and rm: "pq_remove (pq N) (batch_queue (batch_state s)) (fst tg) = Some ((e, p), q)"
      and red: "evict_loop N own fee (c # cs) s =
         and_then (update_evicted_user_state_with_lock N ReadGuard e u (set_queue q s))
           (\<lambda>_ s. (Ret (Some e), notify (messaging_sink e) (SubmitResp UnderpricedProof) s))"
      by auto
    have "tg \<in> set (filter (\<lambda>x. sender (fst x) = c \<and> entry_fee (fst x) < fee) (queue_items N s))" using tg by simp
    then have "sender (fst tg) = c" by auto
    then have e: "sender e = c" using remove_Some [OF rm] by (simp add: entry_key_def)
    obtain s' where s': "update_evicted_user_state_with_lock N ReadGuard e u (set_queue q s) = (Ret (), s')"
      and t: "removed = e" "t = notify (messaging_sink e) (SubmitResp UnderpricedProof) s'"
      using Cons.prems(2) unfolding red by (auto simp: and_then_Ret_iff)
    obtain l where l: "last_fee_of (pq_iter (pq N) q) c = Some l"
      using s' e by (cases "last_fee_of (pq_iter (pq N) q) c")
        (auto simp: update_evicted_user_state_with_lock_def write_blocks_def)
    obtain v where v: "evict_from_user_state (entry_fee e) l u = (Ret (), v)" "s' = set_user c v (set_queue q s)"
      using s' e l by (auto simp: update_evicted_user_state_with_lock_def split: prod.splits)
    show ?thesis
      by (rule Cons.prems(1) [of p u l v]) (use remove_mset [OF rm] t e u v in simp_all)
  qed
qed simp

text \<open>A proof with the nonce of a queued one does not enter the queue: the crate keeps the entry it has.\<close>

lemma second_proof_lost:
  assumes "handle_new_proof N nvd ws sig addr u s = (out, t)" "x \<in> set (queue_items N s)"
    and "sender (fst x) = addr" "entry_nonce (fst x) = nonce nvd"
  shows "fst ` set (queue_items N t) \<subseteq> fst ` set (queue_items N s)"
proof -
  let ?e = "new_entry N nvd ws sig addr"
  have key: "entry_key (fst x) = entry_key ?e" using assms(3,4) by (simp add: entry_key_def)
  have same: "fst ` set_mset (enter ?e P) \<subseteq> fst ` set_mset P" if "x \<in># P" for P
  proof -
    have "entry_key ?e \<in> entry_key ` fst ` set_mset P" using that key by (metis imageI)
    then show ?thesis by (auto simp: enter_def intro: rev_image_eqI split: if_splits)
  qed
  have "fst ` set_mset (queued N t) \<subseteq> fst ` set_mset (queued N s)"
    using assms(1)
  proof (cases rule: handle_new_proof_any)
    case accepted
    have "x \<in># queued N s" using assms(2) by simp
    from same [OF this] show ?thesis using accepted(2) by (simp only:)
  next
    case (displaced y P)
    then have "x \<in># P" using assms(2,3) by (metis in_multiset_in_set insert_iff set_mset_add_mset_insert)
    then show ?thesis using same [of P] displaced(1,5) by auto
  next
    case (evicted y P)
    then show ?thesis by auto
  qed simp
  then show ?thesis by simp
qed

end

text \<open>
  Claim C30. An eviction can cost the evicted user the next proof. Suppose the books balance, and the entry a submission
  evicts is not the one with the last nonce of its sender, whose proof \<open>y\<close> stays queued. Then the next nonce
  that the batcher expects of the user is the nonce of \<open>y\<close> again, the books no longer balance, and in whatever state the user
  submits a new proof with the expected nonce while \<open>y\<close> is queued, the handler brings no new entry into the queue: the
  proof is lost. (The comment in \<open>restore_proofs_after_batch_failure\<close>
  takes for granted that nonces of a user are queued without gaps.)
\<close>

theorem eviction_leaves_nonce_gap:
  assumes "batch_pq (pq N)" "held_inv N [] s" "evict_loop N own fee cs s = (Ret (Some removed), t)"
    and "user_states s (sender removed) = Some u" "y \<in> set (queue_items N s)" "sender (fst y) = sender removed"
    and "unat (entry_nonce (fst y)) + 1 = unat (us_nonce u)" "entry_nonce removed \<noteq> entry_nonce (fst y)"
  shows "\<exists>v. user_states t (sender removed) = Some v \<and> us_nonce v = entry_nonce (fst y) \<and> y \<in> set (queue_items N t) \<and>
    \<not> held_inv N [] t \<and>
    (\<forall>nvd ws sig w s' out t'. nonce nvd = us_nonce v \<longrightarrow> y \<in> set (queue_items N s') \<longrightarrow>
       handle_new_proof N nvd ws sig (sender removed) w s' = (out, t') \<longrightarrow>
       fst ` set (queue_items N t') \<subseteq> fst ` set (queue_items N s'))"
proof -
  note loc = batcher_queue.intro [OF assms(1)]
  obtain p u' v l where m: "queued N s = add_mset (removed, p) (queued N t)"
    and v: "user_states s (sender removed) = Some u'" "evict_from_user_state (entry_fee removed) l u' = (Ret (), v)"
      "user_states t (sender removed) = Some v"
    by (rule batcher_queue.evict_loop_evicted [OF loc assms(3)])
  have "unat (us_nonce v) = unat (entry_nonce (fst y))"
    using evict_from_user_state_Ret [OF v(2)] assms(4,7) v(1) by simp
  then have n: "us_nonce v = entry_nonce (fst y)" by (simp add: word_unat_eq_iff)
  have "y \<noteq> (removed, p)" using assms(8) by auto
  moreover have "y \<in># queued N s" using assms(5) by simp
  ultimately have y: "y \<in> set (queue_items N t)" using m by simp
  have "\<not> held_inv N [] t"
    using acct_ok_nonce [OF inv_acct, of N "[]" t y v] y v(3) n assms(6) by auto
  moreover have "fst ` set (queue_items N t') \<subseteq> fst ` set (queue_items N s')"
    if "nonce nvd = us_nonce v" "y \<in> set (queue_items N s')" "handle_new_proof N nvd ws sig (sender removed) w s' = (out, t')"
    for nvd ws sig w s' out t'
    using batcher_queue.second_proof_lost [OF loc that(3,2) assms(6)] that(1) n by simp
  ultimately show ?thesis using v(3) n y by blast
qed

abbreviation sample_gap :: "item list batcher" where
  "sample_gap \<equiv> sample_state [sample_item 1 0 5, sample_item 1 1 5] 2 ((\<lambda>_. None)(1 \<mapsto> sample_user 2 5 10 2))"

lemma sample_evicts:
  "\<exists>t. evict_loop sample_env 2 7 [1] sample_gap = (Ret (Some (sample_entry 1 0 5)), t)"
  by (simp add: update_evicted_user_state_with_lock_def last_fee_of_def drop_key_def evict_from_user_state_def checked_sub_def
      sample_user_def notify_def send_message_def)

theorem eviction_leaves_nonce_gap_witness:
  "\<exists>t v. evict_loop sample_env 2 7 [1] sample_gap = (Ret (Some (sample_entry 1 0 5)), t) \<and>
     user_states t 1 = Some v \<and> us_nonce v = 1 \<and> \<not> held_inv sample_env [] t"
proof -
  have books: "held_inv sample_env [] sample_gap"
    by (simp add: held_inv_def books_ok_def acct_ok_def accounted_def sample_user_def)
  obtain t where t: "evict_loop sample_env 2 7 [1] sample_gap = (Ret (Some (sample_entry 1 0 5)), t)"
    using sample_evicts by blast
  show ?thesis
    using eviction_leaves_nonce_gap [OF sample_batch_pq books t, of "sample_user 2 5 10 2" "sample_item 1 1 5"] t
    by (auto simp: sample_user_def)
qed

end
