(* ===== verification/Locks.thy ===== *)
theory Locks
  imports Prelude
begin

text \<open>
  The locks of the batcher (\<open>struct Batcher\<close>, \<open>batcher/src/lib.rs\<close>) and the order in which its tasks take
  them. A task is the sequence of acquisitions and releases of one path through a handler; guards that
  the code drops implicitly are released where their scope ends, in reverse order. Tasks run
  interleaved. A \<open>tokio\<close> lock is not reentrant, so a task also waits for a lock it holds itself.

  The general theorem is that tasks which take their locks in increasing rank never deadlock. The
  paths of \<open>handle_submit_proof_msg\<close> into a queue with room, the queries, the extraction of a batch and the update of user
  states do so, and so does every path that leaves one of them early. Eviction takes
  \<open>user_states\<close> with the queue locked and does not; nor do flushing, the cleanup after a posted batch and the restoration, and
  three pairs of paths are shown to deadlock. The locks of \<open>current_min_max_fee\<close> and of the websockets are left out:
  nothing else is requested while one of them is held.
\<close>

section \<open>Tasks and their interleaving\<close>

datatype lock = UserStates | User address | BatchStateL | LastUploaded | Posting | DisabledVerifiers

datatype mode = Shared | Exclusive

datatype lock_op = Acquire lock mode | Release lock mode

record task =
  held :: "(lock \<times> mode) list"
  todo :: "lock_op list"

definition spawn_task :: "lock_op list \<Rightarrow> task" where
  "spawn_task ops = \<lparr> held = [], todo = ops \<rparr>"

definition conflicts :: "lock \<times> mode \<Rightarrow> lock \<times> mode \<Rightarrow> bool" where
  "conflicts a b \<longleftrightarrow> fst a = fst b \<and> (snd a = Exclusive \<or> snd b = Exclusive)"

definition can_run :: "task list \<Rightarrow> task \<Rightarrow> bool" where
  "can_run ts t =
     (case todo t of
        [] \<Rightarrow> False
      | Release _ _ # _ \<Rightarrow> True
      | Acquire l m # _ \<Rightarrow> list_all (\<lambda>u. list_all (\<lambda>h. \<not> conflicts (l, m) h) (held u)) ts)"

definition run_op :: "task \<Rightarrow> task" where
  "run_op t =
     (case todo t of
        [] \<Rightarrow> t
      | Release l m # ops \<Rightarrow> \<lparr> held = remove1 (l, m) (held t), todo = ops \<rparr>
      | Acquire l m # ops \<Rightarrow> \<lparr> held = (l, m) # held t, todo = ops \<rparr>)"

inductive lock_step :: "task list \<Rightarrow> task list \<Rightarrow> bool" where
  "i < length ts \<Longrightarrow> can_run ts (ts ! i) \<Longrightarrow> lock_step ts (ts[i := run_op (ts ! i)])"

text \<open>A schedule names the task that moves next.\<close>

fun run_schedule :: "nat list \<Rightarrow> task list \<Rightarrow> task list option" where
  "run_schedule [] ts = Some ts"
| "run_schedule (i # is) ts =
     (if i < length ts \<and> can_run ts (ts ! i) then run_schedule is (ts[i := run_op (ts ! i)]) else None)"

lemma run_schedule_steps: "run_schedule is ts = Some ts' \<Longrightarrow> lock_step\<^sup>*\<^sup>* ts ts'"
  by (induction "is" ts rule: run_schedule.induct)
    (auto intro: converse_rtranclp_into_rtranclp lock_step.intros split: if_splits)

definition deadlocked :: "task list \<Rightarrow> bool" where
  "deadlocked ts \<longleftrightarrow> list_ex (\<lambda>t. todo t \<noteq> []) ts \<and> list_all (\<lambda>t. \<not> can_run ts t) ts"

definition finished :: "task list \<Rightarrow> bool" where
  "finished ts \<longleftrightarrow> list_all (\<lambda>t. todo t = []) ts"

section \<open>Tasks that respect an order never deadlock\<close>

definition lock_rank :: "lock \<Rightarrow> nat" where
  "lock_rank l = (case l of UserStates \<Rightarrow> 0 | User _ \<Rightarrow> 1 | BatchStateL \<Rightarrow> 2 | DisabledVerifiers \<Rightarrow> 3
                  | LastUploaded \<Rightarrow> 3 | Posting \<Rightarrow> 4)"

text \<open>
  From the locks \<open>hs\<close> held, the sequence releases only what is held, takes a lock only above all it
  holds, and ends with none.
\<close>

fun ordered :: "(lock \<times> mode) list \<Rightarrow> lock_op list \<Rightarrow> bool" where
  "ordered hs [] = (hs = [])"
| "ordered hs (Release l m # ops) = ((l, m) \<in> set hs \<and> ordered (remove1 (l, m) hs) ops)"
| "ordered hs (Acquire l m # ops) =
     (list_all (\<lambda>h. lock_rank (fst h) < lock_rank l) hs \<and> ordered ((l, m) # hs) ops)"

definition ordered_task :: "task \<Rightarrow> bool" where
  "ordered_task t = ordered (held t) (todo t)"

lemma run_op_ordered: "ordered_task t \<Longrightarrow> ordered_task (run_op t)"
  by (auto simp: ordered_task_def run_op_def split: list.splits lock_op.splits)

lemma lock_step_ordered:
  assumes "lock_step ts ts'" "\<forall>t \<in> set ts. ordered_task t"
  shows "\<forall>t \<in> set ts'. ordered_task t"
  using assms by (auto elim!: lock_step.cases dest!: set_update_subset_insert [THEN subsetD] intro: run_op_ordered)

lemma reachable_ordered:
  assumes "lock_step\<^sup>*\<^sup>* ts ts'" "\<forall>t \<in> set ts. ordered_task t"
  shows "\<forall>t \<in> set ts'. ordered_task t"
  using assms by (induction rule: rtranclp_induct) (auto dest: lock_step_ordered)

text \<open>What a blocked task waits for.\<close>

definition waits_for :: "task \<Rightarrow> lock \<Rightarrow> bool" where
  "waits_for t l \<longleftrightarrow> (\<exists>m ops. todo t = Acquire l m # ops)"

lemma blocked_waits:
  assumes "ordered_task t" "t \<in> set ts" "todo t \<noteq> []" "\<not> can_run ts t"
  obtains l u where "waits_for t l" "u \<in> set ts" "l \<in> fst ` set (held u)"
proof (cases "todo t")
  case (Cons op ops)
  then obtain l m where op: "op = Acquire l m" using assms(4) by (cases op) (auto simp: can_run_def)
  then obtain u h where "u \<in> set ts" "h \<in> set (held u)" "conflicts (l, m) h"
    using assms(4) Cons by (auto simp: can_run_def list_all_iff)
  then show ?thesis using that Cons op by (force simp: waits_for_def conflicts_def)
qed (use assms in simp)

lemma waits_above_held:
  "ordered_task t \<Longrightarrow> waits_for t l \<Longrightarrow> k \<in> fst ` set (held t) \<Longrightarrow> lock_rank k < lock_rank l"
  by (fastforce simp: ordered_task_def waits_for_def list_all_iff)

lemma no_ordered_deadlock:
  assumes ord: "\<forall>t \<in> set ts. ordered_task t"
  shows "\<not> deadlocked ts"
proof
  assume d: "deadlocked ts"
  have blocked: "\<not> can_run ts t" if "t \<in> set ts" for t using d that by (simp add: deadlocked_def list_all_iff)
  obtain t0 where t0: "t0 \<in> set ts" "todo t0 \<noteq> []" using d by (auto simp: deadlocked_def list_ex_iff)
  obtain l0 where "waits_for t0 l0" using blocked_waits [OF _ t0 blocked [OF t0(1)]] ord t0(1) by blast
  then have "\<exists>t \<in> set ts. waits_for t l0" using t0(1) by blast
  moreover have "lock_rank k < 5" for k by (simp add: lock_rank_def split: lock.splits)
  ultimately obtain l t where l: "t \<in> set ts" "waits_for t l"
    "\<And>k u. u \<in> set ts \<Longrightarrow> waits_for u k \<Longrightarrow> lock_rank k \<le> lock_rank l"
    using ex_has_greatest_nat [of "\<lambda>l. \<exists>t \<in> set ts. waits_for t l" l0 lock_rank 5] by (metis less_imp_le_nat)
  have "todo t \<noteq> []" using l(2) by (auto simp: waits_for_def)
  then obtain l' u where "waits_for t l'" and u: "u \<in> set ts" "l' \<in> fst ` set (held u)"
    using blocked_waits [OF _ l(1) _ blocked [OF l(1)]] ord l(1) by blast
  then have "l' = l" using l(2) by (auto simp: waits_for_def)
  with u(2) have u': "l \<in> fst ` set (held u)" by simp
  then have "todo u \<noteq> []" using ord u(1) by (auto simp: ordered_task_def)
  then obtain k v where "waits_for u k"
    using blocked_waits [OF _ u(1) _ blocked [OF u(1)]] ord u(1) by blast
  then show False using waits_above_held [of u k l] l(3) [OF u(1)] ord u(1) u' by fastforce
qed

section \<open>The tasks of the batcher\<close>

text \<open>
  \<open>handle_submit_proof_msg\<close> up to the lock of the user, who may be in the cache or not. In the check of the proof
  the lock of the disabled verifiers is taken when pre-verification is on.
\<close>

definition lock_user_locks :: "bool \<Rightarrow> address \<Rightarrow> lock_op list" where
  "lock_user_locks cached a =
     [Acquire UserStates Shared, Release UserStates Shared] @
     (if cached then [] else [Acquire UserStates Exclusive, Release UserStates Exclusive]) @
     [Acquire UserStates Shared, Release UserStates Shared, Acquire (User a) Exclusive]"

definition verify_locks :: "bool \<Rightarrow> lock_op list" where
  "verify_locks pre_verification =
     (if pre_verification then [Acquire DisabledVerifiers Exclusive, Release DisabledVerifiers Exclusive] else [])"

text \<open>A proof with the expected nonce, into a queue with room.\<close>

definition submit_locks :: "bool \<Rightarrow> bool \<Rightarrow> address \<Rightarrow> lock_op list" where
  "submit_locks cached pre_verification a =
     lock_user_locks cached a @ verify_locks pre_verification @
     [Acquire BatchStateL Exclusive, Release BatchStateL Exclusive, Release (User a) Exclusive]"

text \<open>A replacement: the proof is verified with the batch lock held.\<close>

definition replacing_locks :: "bool \<Rightarrow> bool \<Rightarrow> address \<Rightarrow> lock_op list" where
  "replacing_locks cached pre_verification a =
     lock_user_locks cached a @ [Acquire BatchStateL Exclusive] @ verify_locks pre_verification @
     [Release BatchStateL Exclusive, Release (User a) Exclusive]"

definition replacement_locks :: "address \<Rightarrow> lock_op list" where
  "replacement_locks a = replacing_locks True True a"

text \<open>\<open>handle_get_nonce_for_address_msg\<close> and \<open>handle_get_last_max_fee_for_address_msg\<close>.\<close>

definition query_locks :: "address \<Rightarrow> lock_op list" where
  "query_locks a =
     [Acquire UserStates Shared, Acquire (User a) Exclusive, Release (User a) Exclusive, Release UserStates Shared]"

definition extract_locks :: "lock_op list" where
  "extract_locks =
     [Acquire BatchStateL Exclusive, Acquire LastUploaded Exclusive, Acquire Posting Exclusive,
      Release Posting Exclusive, Release LastUploaded Exclusive, Release BatchStateL Exclusive]"

text \<open>The read guard is a temporary of the \<open>if let\<close> and lives to the end of its body.\<close>

definition refresh_locks :: "address list \<Rightarrow> lock_op list" where
  "refresh_locks as = concat (map (\<lambda>a.
     [Acquire UserStates Shared, Acquire (User a) Exclusive, Acquire BatchStateL Exclusive,
      Release BatchStateL Exclusive, Release (User a) Exclusive, Release UserStates Shared]) as)"

text \<open>\<open>try_lock\<close> on the queue, when it succeeds, and then the read lock for each user (also a temporary).\<close>

definition cleanup_locks :: "address list \<Rightarrow> lock_op list" where
  "cleanup_locks as =
     [Acquire BatchStateL Exclusive] @
     concat (map (\<lambda>a. [Acquire UserStates Shared, Release UserStates Shared]) as) @
     [Release BatchStateL Exclusive]"

text \<open>\<open>user_has_proofs_in_queue\<close> and \<open>remove_user_proofs_and_reset_state\<close>.\<close>

definition unlock_locks :: "address \<Rightarrow> lock_op list" where
  "unlock_locks a =
     [Acquire UserStates Shared, Acquire (User a) Exclusive, Release (User a) Exclusive, Release UserStates Shared,
      Acquire UserStates Exclusive, Acquire BatchStateL Exclusive,
      Release BatchStateL Exclusive, Release UserStates Exclusive]"

definition restore_locks :: "address list \<Rightarrow> lock_op list" where
  "restore_locks as =
     [Acquire UserStates Exclusive, Acquire BatchStateL Exclusive,
      Release UserStates Exclusive, Release BatchStateL Exclusive] @ refresh_locks as"

definition flush_locks :: "lock_op list" where
  "flush_locks =
     [Acquire BatchStateL Exclusive, Acquire UserStates Exclusive,
      Release UserStates Exclusive, Release BatchStateL Exclusive]"

definition finalize_locks :: "lock_op list" where
  "finalize_locks = [Acquire LastUploaded Exclusive, Release LastUploaded Exclusive]"

text \<open>\<open>handle_new_block\<close>: the disabled verifiers change or not, and the batch is posted or fails.\<close>

definition block_verifiers_changed_locks :: "lock_op list" where
  "block_verifiers_changed_locks =
     [Acquire DisabledVerifiers Exclusive] @ flush_locks @ [Release DisabledVerifiers Exclusive] @ extract_locks"

definition block_posted_locks :: "address list \<Rightarrow> lock_op list" where
  "block_posted_locks as =
     [Acquire DisabledVerifiers Exclusive, Release DisabledVerifiers Exclusive] @ extract_locks @
     finalize_locks @ refresh_locks as @ cleanup_locks as @ [Acquire Posting Exclusive, Release Posting Exclusive]"

definition block_failed_locks :: "address list \<Rightarrow> lock_op list" where
  "block_failed_locks as =
     [Acquire DisabledVerifiers Exclusive, Release DisabledVerifiers Exclusive] @ extract_locks @
     finalize_locks @ [Acquire Posting Exclusive] @ restore_locks as @ [Release Posting Exclusive]"

definition block_idle_locks :: "lock_op list" where
  "block_idle_locks =
     [Acquire DisabledVerifiers Exclusive, Release DisabledVerifiers Exclusive] @ extract_locks"

lemmas lock_sequences =
  lock_user_locks_def verify_locks_def submit_locks_def replacing_locks_def replacement_locks_def query_locks_def extract_locks_def refresh_locks_def restore_locks_def flush_locks_def
  finalize_locks_def cleanup_locks_def unlock_locks_def block_verifiers_changed_locks_def
  block_posted_locks_def block_failed_locks_def block_idle_locks_def

section \<open>Leaving early\<close>

text \<open>
  A handler that returns early, after a time-out or a check that fails, drops the guards it has; the last taken goes first.
\<close>

fun guards_after :: "(lock \<times> mode) list \<Rightarrow> lock_op list \<Rightarrow> (lock \<times> mode) list" where
  "guards_after hs [] = hs"
| "guards_after hs (Release l m # ops) = guards_after (remove1 (l, m) hs) ops"
| "guards_after hs (Acquire l m # ops) = guards_after ((l, m) # hs) ops"

definition drop_guards :: "(lock \<times> mode) list \<Rightarrow> lock_op list" where
  "drop_guards hs = map (\<lambda>(l, m). Release l m) hs"

definition early_exit :: "lock_op list \<Rightarrow> nat \<Rightarrow> lock_op list" where
  "early_exit p n = take n p @ drop_guards (guards_after [] (take n p))"

lemma ordered_drop_guards: "ordered hs (drop_guards hs)"
  by (induction hs) (auto simp: drop_guards_def)

lemma ordered_early: "ordered hs p \<Longrightarrow> ordered hs (take n p @ drop_guards (guards_after hs (take n p)))"
proof (induction hs p arbitrary: n rule: ordered.induct)
  case (2 hs l m ops)
  then show ?case using ordered_drop_guards by (cases n) auto
next
  case (3 hs l m ops)
  then show ?case using ordered_drop_guards by (cases n) auto
qed (simp add: drop_guards_def)

lemma ordered_append: "ordered hs p \<Longrightarrow> ordered [] q \<Longrightarrow> ordered hs (p @ q)"
  by (induction hs p rule: ordered.induct) auto

text \<open>The paths that respect the order: those of these handlers, left at any point, one after the other.\<close>

inductive orderly :: "lock_op list \<Rightarrow> bool" where
  submit: "orderly (submit_locks cached pre_verification a)"
| replacement: "orderly (replacing_locks cached pre_verification a)"
| query: "orderly (query_locks a)"
| unlock: "orderly (unlock_locks a)"
| refresh: "orderly (refresh_locks as)"
| finalize: "orderly finalize_locks"
| idle: "orderly block_idle_locks"
| early: "orderly p \<Longrightarrow> orderly (early_exit p n)"
| both: "orderly p \<Longrightarrow> orderly q \<Longrightarrow> orderly (p @ q)"

lemma orderly_ordered: "orderly p \<Longrightarrow> ordered [] p"
proof (induction rule: orderly.induct)
  case (refresh as)
  show ?case by (induction as) (simp_all add: refresh_locks_def lock_rank_def)
next
  case (early p n)
  show ?case using ordered_early [OF early.IH] by (simp add: early_exit_def)
next
  case (both p q)
  then show ?case by (simp add: ordered_append)
qed (auto simp: lock_sequences lock_rank_def)

section \<open>Properties\<close>

text \<open>
  Claim C31. Tasks that keep the order of the locks never deadlock: any number of concurrent submissions into a queue with room
  (of a known or a new user, with or without pre-verification), replacements, queries, removals of users who unlocked
  their balance, updates of user states, finalizations up to them and blocks that post nothing, each of
  them whole or left early at any point with its guards dropped, in any sequence within a task. However they
  interleave, in every state they reach all have finished or one of them can go on. (Left out are the paths that break the
  order: eviction from a full queue, the flush, the cleanup after a posted batch and the restoration of a failed one.)
\<close>

theorem orderly_tasks_never_deadlock:
  assumes "\<forall>p \<in> set ps. orderly p" "lock_step\<^sup>*\<^sup>* (map spawn_task ps) ts"
  shows "finished ts \<or> (\<exists>ts'. lock_step ts ts')"
proof -
  have "\<forall>t \<in> set (map spawn_task ps). ordered_task t"
    using assms(1) orderly_ordered by (auto simp: ordered_task_def spawn_task_def)
  then have "\<not> deadlocked ts" by (intro no_ordered_deadlock reachable_ordered [OF assms(2)])
  then consider "finished ts" | i where "i < length ts" "can_run ts (ts ! i)"
    by (auto simp: deadlocked_def finished_def list_ex_iff list_all_iff in_set_conv_nth)
  then show ?thesis by cases (auto intro: lock_step.intros)
qed

theorem orderly_tasks_never_deadlock_witness:
  "finished (map spawn_task [submit_locks False True 1, early_exit (replacement_locks 2) 6, block_idle_locks]) \<or>
   (\<exists>ts'. lock_step (map spawn_task [submit_locks False True 1, early_exit (replacement_locks 2) 6, block_idle_locks]) ts')"
  by (rule orderly_tasks_never_deadlock [of "[submit_locks False True 1, early_exit (replacement_locks 2) 6, block_idle_locks]"])
    (auto simp: replacement_locks_def intro: orderly.intros)

text \<open>
  A block whose batch failed and another block deadlock: the first keeps the guard of
  \<open>posting_batch\<close> while it restores the proofs and waits for \<open>batch_state\<close>; the second holds
  \<open>batch_state\<close> in \<open>extract_batch_if_ready\<close> and waits for \<open>posting_batch\<close>.
\<close>

lemma failed_batch_deadlock:
  "\<exists>ts. lock_step\<^sup>*\<^sup>* (map spawn_task [block_failed_locks [1], block_idle_locks]) ts \<and> deadlocked ts"
proof -
  have "\<exists>ts. run_schedule (replicate 12 0 @ [1, 1, 1, 1]) (map spawn_task [block_failed_locks [1], block_idle_locks]) = Some ts
      \<and> deadlocked ts"
    by (simp add: spawn_task_def lock_sequences can_run_def run_op_def conflicts_def deadlocked_def numeral_eq_Suc)
  then show ?thesis using run_schedule_steps by blast
qed

text \<open>
  A replacement message and a block that changes the disabled verifiers deadlock: the block
  holds \<open>disabled_verifiers\<close> while it flushes the queue and waits for \<open>batch_state\<close>; the
  replacement holds \<open>batch_state\<close> while it checks the verifier and waits for \<open>disabled_verifiers\<close>.
\<close>

lemma verifier_change_deadlock:
  "\<exists>ts. lock_step\<^sup>*\<^sup>* (map spawn_task [block_verifiers_changed_locks, replacement_locks 1]) ts \<and> deadlocked ts"
proof -
  have "\<exists>ts. run_schedule [0, 1, 1, 1, 1, 1, 1] (map spawn_task [block_verifiers_changed_locks, replacement_locks 1]) = Some ts
      \<and> deadlocked ts"
    by (simp add: spawn_task_def lock_sequences can_run_def run_op_def conflicts_def deadlocked_def)
  then show ?thesis using run_schedule_steps by blast
qed

text \<open>
  A block that changes the disabled verifiers and one that has posted its batch deadlock: the
  first flushes with \<open>batch_state\<close> and then \<open>user_states\<close>, the second updates the user states with
  \<open>user_states\<close> and then \<open>batch_state\<close>, the order the locking rules prescribe.
\<close>

lemma flush_deadlock:
  "\<exists>ts. lock_step\<^sup>*\<^sup>* (map spawn_task [block_verifiers_changed_locks, block_posted_locks [1]]) ts \<and> deadlocked ts"
proof -
  have "\<exists>ts. run_schedule (replicate 12 1 @ [0, 0]) (map spawn_task [block_verifiers_changed_locks, block_posted_locks [1]]) = Some ts
      \<and> deadlocked ts"
    by (simp add: spawn_task_def lock_sequences can_run_def run_op_def conflicts_def deadlocked_def numeral_eq_Suc)
  then show ?thesis using run_schedule_steps by blast
qed

text \<open>
  Claim C32. Three pairs of tasks can deadlock: a block that restores a failed batch (it keeps the guard of
  \<open>posting_batch\<close>) with another block; a block that changes the disabled verifiers (it keeps their guard
  while it flushes) with a replacement message; and the same block with one that has posted its batch
  and updates the user states.
\<close>

theorem conflicting_tasks_deadlock:
  "(\<exists>ts. lock_step\<^sup>*\<^sup>* (map spawn_task [block_failed_locks [1], block_idle_locks]) ts \<and> deadlocked ts) \<and>
   (\<exists>ts. lock_step\<^sup>*\<^sup>* (map spawn_task [block_verifiers_changed_locks, replacement_locks 1]) ts \<and> deadlocked ts) \<and>
   (\<exists>ts. lock_step\<^sup>*\<^sup>* (map spawn_task [block_verifiers_changed_locks, block_posted_locks [1]]) ts \<and> deadlocked ts)"
  by (intro conjI failed_batch_deadlock verifier_change_deadlock flush_deadlock)

end
