(* ===== verification/Sdk_Client.thy ===== *)
theory Sdk_Client
  imports Fees
begin

text \<open>
  The client side of the SDK: sending proofs to the batcher and matching its answers
  (\<open>sdk/src/communication/{messaging,batch,protocol}.rs\<close>), and the entry points of
  \<open>sdk/src/verification_layer/mod.rs\<close>. CBOR, the wallet, the WebSocket, the Merkle verification and
  the contracts are parameters (\<open>sdk_env\<close>). A stream of incoming messages is a list; it ends, or
  fails, where the list does.
\<close>

section \<open>Errors\<close>

datatype SubmitError =
    SE_WebSocketConnection string
  | SE_WebSocketClosedUnexpectedly string
  | SE_Io string string
  | SE_Serialization
  | SE_EthereumProvider string
  | SE_HexDecoding string
  | SE_WalletSigner string
  | SE_MissingRequiredParameter string
  | SE_UnsupportedProvingSystem string
  | SE_InvalidEthereumAddress string
  | SE_ProtocolVersionMismatch u16 u16
  | SE_BatchVerifiedEventStream string
  | SE_BatchVerificationTimeout nat
  | SE_NoResponseFromBatcher
  | SE_UnexpectedBatcherResponse string
  | SE_EmptyVerificationDataCommitments
  | SE_EmptyVerificationDataList
  | SE_InvalidNonce
  | SE_InvalidMaxFee
  | SE_ProofQueueFlushed
  | SE_InvalidSignature
  | SE_InvalidChainId
  | SE_InvalidProof ProofInvalidReason
  | SE_ProofTooLarge
  | SE_InvalidReplacementMessage
  | SE_InsufficientBalance address
  | SE_InvalidPaymentServiceAddress address address
  | SE_BatchSubmissionFailed string
  | SE_AddToBatch
  | SE_InvalidProofInclusionData
  | SE_GetNonce string
  | SE_BatchQueueLimitExceeded
  | SE_Generic string
  | SE_UserFundsUnlocked
  | SE_ProofReplaced

datatype VerificationError =
    VE_HexDecoding string
  | VE_EthereumProvider string
  | VE_EthereumCall string
  | VE_EthereumNotAContract address

datatype GetNonceError =
    GN_EthRpc string
  | GN_ConnectionFailed string
  | GN_Serialization string
  | GN_UnexpectedResponse string
  | GN_InvalidRequest string
  | GN_ProtocolMismatch u16 u16
  | GN_Generic string

datatype GetLastMaxFeeError =
    GF_ConnectionFailed string
  | GF_Serialization string
  | GF_UnexpectedResponse string
  | GF_InvalidRequest string
  | GF_ProtocolMismatch u16 u16
  | GF_Generic string

datatype FeeEstimateError = FE_EthereumProvider string | FE_EthereumGasPrice string | FE_Parse string

text \<open>\<open>Display\<close>: decimal numbers, and the text of addresses from the library (\<open>addr\<close>).\<close>

fun nat_display :: "nat \<Rightarrow> string" where
  "nat_display n = (if n < 10 then [char_of (48 + n)] else nat_display (n div 10) @ [char_of (48 + n mod 10)])"

declare nat_display.simps [simp del]

fun verification_error_display :: "(address \<Rightarrow> string) \<Rightarrow> VerificationError \<Rightarrow> string" where
  "verification_error_display addr (VE_HexDecoding e) = ''Hex decoding error: '' @ e"
| "verification_error_display addr (VE_EthereumProvider e) = ''Ethereum provider error: '' @ e"
| "verification_error_display addr (VE_EthereumCall e) = ''Ethereum call error: '' @ e"
| "verification_error_display addr (VE_EthereumNotAContract a) = ''Address '' @ addr a @ '' does not contain a contract''"

fun submit_error_display :: "(address \<Rightarrow> string) \<Rightarrow> SubmitError \<Rightarrow> string" where
  "submit_error_display addr (SE_WebSocketConnection e) = ''WebSocket connection error: '' @ e"
| "submit_error_display addr (SE_WebSocketClosedUnexpectedly f) = ''WebSocket closed unexpectedly: '' @ f"
| "submit_error_display addr (SE_Io path e) = ''IO error: '' @ path @ '': '' @ e"
| "submit_error_display addr SE_Serialization = ''Serialization error: Serialization error''"
| "submit_error_display addr (SE_EthereumProvider e) = ''Ethereum provider error: '' @ e"
| "submit_error_display addr (SE_HexDecoding e) = ''Hex decoding error: '' @ e"
| "submit_error_display addr (SE_WalletSigner e) = ''Wallet signer error: '' @ e"
| "submit_error_display addr (SE_MissingRequiredParameter p) = ''Missing required parameter: '' @ p"
| "submit_error_display addr (SE_UnsupportedProvingSystem p) = ''Unsupported proving system: '' @ p"
| "submit_error_display addr (SE_InvalidEthereumAddress a) = ''Invalid Ethereum address: '' @ a"
| "submit_error_display addr (SE_ProtocolVersionMismatch c x) =
     ''Protocol version mismatch: current='' @ nat_display (unat c) @ '', expected='' @ nat_display (unat x)"
| "submit_error_display addr (SE_BatchVerifiedEventStream e) = ''Batch verified event stream error: '' @ e"
| "submit_error_display addr (SE_BatchVerificationTimeout n) =
     ''Batch verification timed out after '' @ nat_display n @ '' seconds''"
| "submit_error_display addr SE_NoResponseFromBatcher = ''No response received from batcher''"
| "submit_error_display addr (SE_UnexpectedBatcherResponse r) = ''Unexpected batcher response: '' @ r"
| "submit_error_display addr SE_EmptyVerificationDataCommitments = ''Verification data commitments are empty''"
| "submit_error_display addr SE_EmptyVerificationDataList = ''Verification data list is empty''"
| "submit_error_display addr SE_InvalidNonce = ''Invalid nonce''"
| "submit_error_display addr SE_InvalidMaxFee = ''Invalid max fee''"
| "submit_error_display addr (SE_BatchSubmissionFailed r) = ''Could not create task with batch merkle root '' @ r"
| "submit_error_display addr (SE_Generic e) = ''Generic error: '' @ e"
| "submit_error_display addr SE_InvalidSignature = ''Invalid Signature''"
| "submit_error_display addr SE_InvalidChainId = ''Invalid chain Id''"
| "submit_error_display addr (SE_InvalidProof r) = ''Invalid proof '' @ proof_invalid_reason_display r"
| "submit_error_display addr SE_ProofTooLarge = ''Proof too Large''"
| "submit_error_display addr SE_InvalidReplacementMessage = ''Invalid replacement message''"
| "submit_error_display addr (SE_InsufficientBalance a) = ''Insufficient balance, address: '' @ addr a"
| "submit_error_display addr (SE_InvalidPaymentServiceAddress r x) =
     ''Invalid payment service address, received: '' @ addr r @ '', expected: '' @ addr x"
| "submit_error_display addr SE_ProofQueueFlushed = ''Batch reset''"
| "submit_error_display addr SE_AddToBatch = ''Error while adding entry to batch''"
| "submit_error_display addr SE_InvalidProofInclusionData =
     ''Batcher responded with invalid batch inclusion data. Can't verify your proof was correctly included in the batch.''"
| "submit_error_display addr SE_BatchQueueLimitExceeded = ''Error while adding entry to batch, queue limit exceeded.''"
| "submit_error_display addr SE_ProofReplaced = ''Proof has been replaced by a higher fee for the same nonce''"
| "submit_error_display addr (SE_GetNonce e) = ''Error while getting nonce '' @ e"
| "submit_error_display addr SE_UserFundsUnlocked = ''User funds have been unlocked and proofs removed from queue''"

section \<open>Environment\<close>

datatype ws_message = BinaryMsg bytes | CloseMsg "string option" | OtherMsg bytes

fun into_data :: "ws_message \<Rightarrow> bytes" where
  "into_data (BinaryMsg b) = b"
| "into_data (CloseMsg None) = []"
| "into_data (CloseMsg (Some reason)) = ascii_bytes reason"
| "into_data (OtherMsg b) = b"

type_synonym ws_stream = "(string + ws_message) list"

record 't sdk_env =
  wallet_chain_id :: u64
  sign_typed_data :: "NoncedVerificationData \<Rightarrow> signature option"
  cbor_client_message :: "ClientMessage \<Rightarrow> bytes option"
  cbor_submit_response :: "bytes \<Rightarrow> SubmitProofResponseMessage option"
  cbor_nonce_response :: "bytes \<Rightarrow> GetNonceResponseMessage option"
  cbor_fee_response :: "bytes \<Rightarrow> GetLastMaxFeeResponseMessage option"
  ws_connect :: "string \<Rightarrow> string + ws_stream"
  ws_send :: "bytes \<Rightarrow> string + unit"
  ws_close :: "string + unit"
  sdk_merkle :: "'t merkle_ops"
  sdk_keccak :: "bytes \<Rightarrow> bytes"
  parse_addr :: "string \<Rightarrow> address option"
  display_addr :: "address \<Rightarrow> string"
  sdk_provider :: "string \<Rightarrow> string + unit"
  rpc_get_code :: "address \<Rightarrow> string + bytes"
  call_verify_inclusion :: "nat \<Rightarrow> VerificationDataCommitment \<Rightarrow> bytes \<Rightarrow> bytes \<Rightarrow> nat \<Rightarrow> address \<Rightarrow> string + bool"
  sdk_gas_price :: "string + u256"
  sdk_user_nonces :: "address \<Rightarrow> string + u256"

section \<open>Sending\<close>

text \<open>Signing panics when the wallet fails: \<open>None\<close>.\<close>

definition SubmitProofMessage_new :: "'t sdk_env \<Rightarrow> NoncedVerificationData \<Rightarrow> SubmitProofMessage option" where
  "SubmitProofMessage_new E nvd =
     map_option (\<lambda>sig. \<lparr> msg_verification_data = nvd, msg_signature = sig \<rparr>) (sign_typed_data E nvd)"

type_synonym sent = "SubmitError + NoncedVerificationData"

text \<open>
  The loop of \<open>send_messages\<close>: the flag says that it ran to its end. \<open>None\<close> is a panic, of the signature
  or of the increment of the nonce.
\<close>

fun send_loop ::
    "'t sdk_env \<Rightarrow> address \<Rightarrow> u256 \<Rightarrow> VerificationData list \<Rightarrow> u256 \<Rightarrow> sent list \<Rightarrow> (sent list \<times> bool) option" where
  "send_loop E payment_addr fee [] n sent = Some (sent, True)"
| "send_loop E payment_addr fee (vd # vds) n sent =
     (let nvd = \<lparr> verification_data = vd, nonce = n, max_fee = fee, chain_id = ucast (wallet_chain_id E),
                  payment_service_addr = payment_addr \<rparr> in
      Option.bind (checked_add n 1) (\<lambda>n'.
      Option.bind (SubmitProofMessage_new E nvd) (\<lambda>m.
      case cbor_client_message E (SubmitProof m) of
        None \<Rightarrow> Some (sent @ [Inl SE_Serialization], False)
      | Some msg_bin \<Rightarrow>
        (case ws_send E msg_bin of
           Inl e \<Rightarrow> Some (sent @ [Inl (SE_WebSocketConnection e)], False)
         | Inr _ \<Rightarrow> send_loop E payment_addr fee vds n' (sent @ [Inr nvd])))))"

text \<open>The list is reversed when everything was sent, and not after an error.\<close>

definition send_messages ::
    "'t sdk_env \<Rightarrow> address \<Rightarrow> VerificationData list \<Rightarrow> u256 \<Rightarrow> u256 \<Rightarrow> sent list option" where
  "send_messages E payment_addr vds fee n =
     map_option (\<lambda>(sent, complete). if complete then rev sent else sent) (send_loop E payment_addr fee vds n [])"

section \<open>Receiving\<close>

definition handle_batcher_response :: "'t sdk_env \<Rightarrow> ws_message \<Rightarrow> SubmitError + BatchInclusionData" where
  "handle_batcher_response E msg =
     (case cbor_submit_response E (into_data msg) of
        None \<Rightarrow> Inl SE_Serialization
      | Some r \<Rightarrow>
        (case r of
           BatchInclusion d \<Rightarrow> Inr d
         | InvalidNonce \<Rightarrow> Inl SE_InvalidNonce
         | InvalidSignature \<Rightarrow> Inl SE_InvalidSignature
         | ProofTooLarge \<Rightarrow> Inl SE_ProofTooLarge
         | InvalidMaxFee \<Rightarrow> Inl SE_InvalidMaxFee
         | InsufficientBalance addr \<Rightarrow> Inl (SE_InsufficientBalance addr)
         | InvalidChainId \<Rightarrow> Inl SE_InvalidChainId
         | InvalidReplacementMessage \<Rightarrow> Inl SE_InvalidReplacementMessage
         | AddToBatchError \<Rightarrow> Inl SE_AddToBatch
         | EthRpcError \<Rightarrow> Inl (SE_EthereumProvider
             ''Batcher experienced Eth RPC connection error. Funds have not been spent.'')
         | InvalidPaymentServiceAddress received expected \<Rightarrow>
             Inl (SE_InvalidPaymentServiceAddress received expected)
         | InvalidProof reason \<Rightarrow> Inl (SE_InvalidProof reason)
         | CreateNewTaskError root e \<Rightarrow> Inl (SE_BatchSubmissionFailed
             (''Could not create task with merkle root '' @ root @ '', failed with error: '' @ e))
         | ProtocolVersion _ \<Rightarrow> Inl (SE_UnexpectedBatcherResponse
             ''Batcher responded with protocol version instead of batch inclusion data. Funds have not been spent.'')
         | BatchReset \<Rightarrow> Inl SE_ProofQueueFlushed
         | ErrorMsg e \<Rightarrow> Inl (SE_Generic e)
         | UnderpricedProof \<Rightarrow> Inl SE_InvalidMaxFee
         | ServerBusy \<Rightarrow> Inl (SE_Generic ''Server is busy processing requests, please retry'')
         | UserFundsUnlocked \<Rightarrow> Inl SE_UserFundsUnlocked
         | ProofReplaced \<Rightarrow> Inl SE_ProofReplaced))"

fun has_nonce :: "u256 \<Rightarrow> sent \<Rightarrow> bool" where
  "has_nonce n (Inr nvd) = (nonce nvd = n)"
| "has_nonce n (Inl _) = False"

text \<open>The last position that matches, found by iterating from the end.\<close>

fun last_index :: "('a \<Rightarrow> bool) \<Rightarrow> 'a list \<Rightarrow> nat option" where
  "last_index P [] = None"
| "last_index P (x # xs) =
     (case last_index P xs of Some i \<Rightarrow> Some (Suc i) | None \<Rightarrow> if P x then Some 0 else None)"

definition match_batcher_response_with_stored_verification_data ::
    "'t sdk_env \<Rightarrow> BatchInclusionData \<Rightarrow> sent list \<Rightarrow> (SubmitError + VerificationDataCommitment) \<times> sent list" where
  "match_batcher_response_with_stored_verification_data E d sent =
     (case last_index (has_nonce (user_nonce d)) sent of
        None \<Rightarrow> (Inl SE_InvalidProofInclusionData, sent)
      | Some i \<Rightarrow>
        (case sent ! i of
           Inr nvd \<Rightarrow> (Inr (verification_data_into_commitment (sdk_keccak E) (verification_data nvd)),
                       take i sent @ drop (Suc i) sent)
         | Inl _ \<Rightarrow> (Inl SE_InvalidProofInclusionData, sent)))"

fun get_biggest_nonce :: "sent list \<Rightarrow> u256 \<Rightarrow> u256" where
  "get_biggest_nonce [] b = b"
| "get_biggest_nonce (Inl _ # xs) b = get_biggest_nonce xs b"
| "get_biggest_nonce (Inr nvd # xs) b = get_biggest_nonce xs (if b < nonce nvd then nonce nvd else b)"

definition verify_proof_inclusion :: "'t sdk_env \<Rightarrow> VerificationDataCommitment \<Rightarrow> BatchInclusionData \<Rightarrow> bool" where
  "verify_proof_inclusion E vdc d =
     mt_verify (sdk_merkle E) (batch_inclusion_proof d) (batch_merkle_root d) (index_in_batch d) vdc"

definition process_batcher_response ::
    "'t sdk_env \<Rightarrow> BatchInclusionData \<Rightarrow> VerificationDataCommitment \<Rightarrow> SubmitError + AlignedVerificationData" where
  "process_batcher_response E d vdc =
     (if verify_proof_inclusion E vdc d then Inr (AlignedVerificationData_new vdc d)
      else Inl SE_InvalidProofInclusionData)"

text \<open>The three steps that turn a message into verified data; the first error ends the burst.\<close>

definition accept_answer ::
    "'t sdk_env \<Rightarrow> ws_message \<Rightarrow> sent list \<Rightarrow> SubmitError + (u256 \<times> AlignedVerificationData \<times> sent list)" where
  "accept_answer E msg sent =
     (case handle_batcher_response E msg of
        Inl e \<Rightarrow> Inl e
      | Inr d \<Rightarrow>
        (case match_batcher_response_with_stored_verification_data E d sent of
           (Inl e, _) \<Rightarrow> Inl e
         | (Inr vdc, sent) \<Rightarrow>
           (case process_batcher_response E d vdc of
              Inl e \<Rightarrow> Inl e
            | Inr avd \<Rightarrow> Inr (user_nonce d, avd, sent))))"

fun receive_loop ::
    "'t sdk_env \<Rightarrow> u256 \<Rightarrow> ws_stream \<Rightarrow> sent list \<Rightarrow> (SubmitError + AlignedVerificationData) list
     \<Rightarrow> (SubmitError + AlignedVerificationData) list" where
  "receive_loop E last_nonce [] sent acc = acc"
| "receive_loop E last_nonce (m # msgs) sent acc =
     (case m of
        Inl _ \<Rightarrow> acc
      | Inr (CloseMsg (Some frame)) \<Rightarrow> acc @ [Inl (SE_WebSocketClosedUnexpectedly frame)]
      | Inr (CloseMsg None) \<Rightarrow>
          acc @ [Inl (SE_Generic ''Connection was closed before receive() processed all sent messages '')]
      | Inr msg \<Rightarrow>
        (case accept_answer E msg sent of
           Inl e \<Rightarrow> acc @ [Inl e]
         | Inr (n, avd, sent) \<Rightarrow>
           if n = last_nonce then acc @ [Inr avd]
           else receive_loop E last_nonce msgs sent (acc @ [Inr avd])))"

definition receive :: "'t sdk_env \<Rightarrow> ws_stream \<Rightarrow> sent list \<Rightarrow> (SubmitError + AlignedVerificationData) list" where
  "receive E msgs sent = receive_loop E (get_biggest_nonce sent 0) msgs sent []"

section \<open>Protocol version\<close>

text \<open>The check reads one message of the stream.\<close>

definition check_protocol_version :: "'t sdk_env \<Rightarrow> ws_stream \<Rightarrow> (SubmitError + unit) \<times> ws_stream" where
  "check_protocol_version E msgs =
     (case msgs of
        Inr msg # rest \<Rightarrow>
          ((case cbor_submit_response E (into_data msg) of
              Some (ProtocolVersion v) \<Rightarrow>
                if EXPECTED_PROTOCOL_VERSION < v
                then Inl (SE_ProtocolVersionMismatch v EXPECTED_PROTOCOL_VERSION) else Inr ()
            | Some _ \<Rightarrow> Inl (SE_UnexpectedBatcherResponse ''Batcher did not respond with the protocol version'')
            | None \<Rightarrow> Inl SE_Serialization), rest)
      | _ \<Rightarrow> (Inl (SE_UnexpectedBatcherResponse ''Batcher did not respond with the protocol version''), tl msgs))"

section \<open>Submitting\<close>

fun binary_or_close :: "string + ws_message \<Rightarrow> bool" where
  "binary_or_close (Inl _) = True"
| "binary_or_close (Inr (OtherMsg _)) = False"
| "binary_or_close (Inr _) = True"

fun is_binary_msg :: "string + ws_message \<Rightarrow> bool" where
  "is_binary_msg (Inl _) = True"
| "is_binary_msg (Inr (BinaryMsg _)) = True"
| "is_binary_msg (Inr _) = False"

text \<open>The result is \<open>None\<close> for a panic: an invalid address of the network, or one in \<open>send_messages\<close>.\<close>

definition submit_multiple_on ::
    "'t sdk_env \<Rightarrow> ws_stream \<Rightarrow> Network \<Rightarrow> VerificationData list \<Rightarrow> u256 \<Rightarrow> u256
     \<Rightarrow> (SubmitError + AlignedVerificationData) list option" where
  "submit_multiple_on E msgs network vds fee n =
     (case check_protocol_version E msgs of
        (Inl e, _) \<Rightarrow> Some [Inl e]
      | (Inr _, msgs) \<Rightarrow>
        if vds = [] then Some [Inl (SE_MissingRequiredParameter ''verification_data'')]
        else if 10000 < length vds then Some [Inl (SE_Generic ''Trying to submit too many proofs at once'')]
        else
          Option.bind (get_batcher_payment_service_address (parse_addr E) network) (\<lambda>payment_addr.
          Option.bind (send_messages E payment_addr vds fee n) (\<lambda>sent.
          let r = receive E (filter binary_or_close msgs) sent in
          case ws_close E of Inl e \<Rightarrow> Some [Inl (SE_Generic e)] | Inr _ \<Rightarrow> Some r)))"

definition submit_multiple ::
    "'t sdk_env \<Rightarrow> Network \<Rightarrow> VerificationData list \<Rightarrow> u256 \<Rightarrow> u256
     \<Rightarrow> (SubmitError + AlignedVerificationData) list option" where
  "submit_multiple E network vds fee n =
     (case ws_connect E (get_batcher_url network) of
        Inl e \<Rightarrow> Some [Inl (SE_WebSocketConnection e)]
      | Inr msgs \<Rightarrow> submit_multiple_on E msgs network vds fee n)"

definition first_result ::
    "'t sdk_env \<Rightarrow> (SubmitError + AlignedVerificationData) list \<Rightarrow> SubmitError + AlignedVerificationData" where
  "first_result E r =
     (case r of
        Inr avd # _ \<Rightarrow> Inr avd
      | Inl e # _ \<Rightarrow> Inl (SE_Generic (submit_error_display (display_addr E) e))
      | [] \<Rightarrow> Inl (SE_Generic ''No response from the batcher''))"

definition submit ::
    "'t sdk_env \<Rightarrow> Network \<Rightarrow> VerificationData \<Rightarrow> u256 \<Rightarrow> u256
     \<Rightarrow> (SubmitError + AlignedVerificationData) option" where
  "submit E network vd fee n = map_option (first_result E) (submit_multiple E network [vd] fee n)"

section \<open>Waiting for the verification on chain\<close>

definition aligned_service_manager :: "'t sdk_env \<Rightarrow> address \<Rightarrow> VerificationError + unit" where
  "aligned_service_manager E addr =
     (case rpc_get_code E addr of
        Inl e \<Rightarrow> Inl (VE_EthereumProvider e)
      | Inr code \<Rightarrow> if code = [] then Inl (VE_EthereumNotAContract addr) else Inr ())"

text \<open>The \<open>i\<close>-th check; \<open>None\<close> is the panic of an invalid network address.\<close>

definition is_proof_verified ::
    "'t sdk_env \<Rightarrow> string \<Rightarrow> Network \<Rightarrow> AlignedVerificationData \<Rightarrow> nat \<Rightarrow> (VerificationError + bool) option" where
  "is_proof_verified E rpc_url network avd i =
     (case sdk_provider E rpc_url of
        Inl e \<Rightarrow> Some (Inl (VE_EthereumProvider e))
      | Inr _ \<Rightarrow>
        Option.bind (get_aligned_service_manager_address (parse_addr E) network) (\<lambda>contract.
        Option.bind (get_batcher_payment_service_address (parse_addr E) network) (\<lambda>payment_addr.
        case aligned_service_manager E contract of
          Inl e \<Rightarrow> Some (Inl e)
        | Inr _ \<Rightarrow>
          (case call_verify_inclusion E i (avd_verification_data_commitment avd) (avd_batch_merkle_root avd)
                  (concat (avd_batch_inclusion_proof avd)) (avd_index_in_batch avd) payment_addr of
             Inl e \<Rightarrow> Some (Inl (VE_EthereumCall e))
           | Inr b \<Rightarrow> Some (Inr b)))))"

definition RETRIES :: nat where
  "RETRIES = 10"

definition TIME_BETWEEN_RETRIES :: nat where
  "TIME_BETWEEN_RETRIES = 10"

fun await_loop ::
    "'t sdk_env \<Rightarrow> string \<Rightarrow> Network \<Rightarrow> AlignedVerificationData \<Rightarrow> nat \<Rightarrow> nat \<Rightarrow> (SubmitError + unit) option" where
  "await_loop E rpc_url network avd i 0 = Some (Inl (SE_BatchVerificationTimeout (TIME_BETWEEN_RETRIES * RETRIES)))"
| "await_loop E rpc_url network avd i (Suc k) =
     Option.bind (is_proof_verified E rpc_url network avd i) (\<lambda>r.
     if r = Inr True then Some (Inr ()) else await_loop E rpc_url network avd (Suc i) k)"

definition await_batch_verification ::
    "'t sdk_env \<Rightarrow> string \<Rightarrow> Network \<Rightarrow> AlignedVerificationData \<Rightarrow> (SubmitError + unit) option" where
  "await_batch_verification E rpc_url network avd = await_loop E rpc_url network avd 0 RETRIES"

fun await_all ::
    "'t sdk_env \<Rightarrow> string \<Rightarrow> Network \<Rightarrow> (SubmitError + AlignedVerificationData) list \<Rightarrow> SubmitError option option" where
  "await_all E rpc_url network [] = Some None"
| "await_all E rpc_url network (Inl _ # xs) = await_all E rpc_url network xs"
| "await_all E rpc_url network (Inr avd # xs) =
     Option.bind (await_batch_verification E rpc_url network avd) (\<lambda>r.
     case r of Inl e \<Rightarrow> Some (Some e) | Inr _ \<Rightarrow> await_all E rpc_url network xs)"

definition submit_multiple_and_wait_verification ::
    "'t sdk_env \<Rightarrow> string \<Rightarrow> Network \<Rightarrow> VerificationData list \<Rightarrow> u256 \<Rightarrow> u256
     \<Rightarrow> (SubmitError + AlignedVerificationData) list option" where
  "submit_multiple_and_wait_verification E rpc_url network vds fee n =
     Option.bind (submit_multiple E network vds fee n) (\<lambda>r.
     map_option (\<lambda>e. case e of None \<Rightarrow> r | Some e \<Rightarrow> r @ [Inl e]) (await_all E rpc_url network r))"

definition submit_and_wait_verification ::
    "'t sdk_env \<Rightarrow> string \<Rightarrow> Network \<Rightarrow> VerificationData \<Rightarrow> u256 \<Rightarrow> u256
     \<Rightarrow> (SubmitError + AlignedVerificationData) option" where
  "submit_and_wait_verification E rpc_url network vd fee n =
     map_option (first_result E) (submit_multiple_and_wait_verification E rpc_url network [vd] fee n)"

section \<open>Queries\<close>

definition nonce_protocol_error :: "SubmitError \<Rightarrow> GetNonceError" where
  "nonce_protocol_error e =
     (case e of
        SE_ProtocolVersionMismatch current expected \<Rightarrow> GN_ProtocolMismatch current expected
      | _ \<Rightarrow> GN_UnexpectedResponse ''Unexpected response, expected protocol version'')"

definition get_nonce_from_batcher :: "'t sdk_env \<Rightarrow> Network \<Rightarrow> address \<Rightarrow> GetNonceError + u256" where
  "get_nonce_from_batcher E network addr =
     (case ws_connect E (get_batcher_url network) of
        Inl _ \<Rightarrow> Inl (GN_ConnectionFailed ''Ws connection to batcher failed'')
      | Inr msgs \<Rightarrow>
        (case check_protocol_version E msgs of
           (Inl e, _) \<Rightarrow> Inl (nonce_protocol_error e)
         | (Inr _, msgs) \<Rightarrow>
           (case cbor_client_message E (GetNonceForAddress addr) of
              None \<Rightarrow> Inl (GN_Serialization ''Failed to serialize msg'')
            | Some msg_bin \<Rightarrow>
              (case ws_send E msg_bin of
                 Inl _ \<Rightarrow> Inl (GN_ConnectionFailed ''Ws connection failed to send message to batcher'')
               | Inr _ \<Rightarrow>
                 (case filter is_binary_msg msgs of
                    Inr msg # _ \<Rightarrow>
                      (case cbor_nonce_response E (into_data msg) of
                         None \<Rightarrow> Inl (GN_Serialization ''Failed to deserialize batcher message'')
                       | Some (Nonce n) \<Rightarrow> Inr n
                       | Some (NonceEthRpcError e) \<Rightarrow> Inl (GN_EthRpc e)
                       | Some (NonceInvalidRequest e) \<Rightarrow> Inl (GN_InvalidRequest e)
                       | Some NonceServerBusy \<Rightarrow>
                           Inl (GN_Generic ''Server is busy processing requests, please retry''))
                  | _ \<Rightarrow> Inl (GN_ConnectionFailed
                      ''Connection was closed without close message before receiving all messages''))))))"

definition fee_protocol_error :: "SubmitError \<Rightarrow> GetLastMaxFeeError" where
  "fee_protocol_error e =
     (case e of
        SE_ProtocolVersionMismatch current expected \<Rightarrow> GF_ProtocolMismatch current expected
      | _ \<Rightarrow> GF_UnexpectedResponse ''Unexpected response, expected protocol version'')"

definition get_last_max_fee :: "'t sdk_env \<Rightarrow> Network \<Rightarrow> address \<Rightarrow> GetLastMaxFeeError + u256" where
  "get_last_max_fee E network addr =
     (case ws_connect E (get_batcher_url network) of
        Inl _ \<Rightarrow> Inl (GF_ConnectionFailed ''Ws connection to batcher failed'')
      | Inr msgs \<Rightarrow>
        (case check_protocol_version E msgs of
           (Inl e, _) \<Rightarrow> Inl (fee_protocol_error e)
         | (Inr _, msgs) \<Rightarrow>
           (case cbor_client_message E (GetLastMaxFee addr) of
              None \<Rightarrow> Inl (GF_Serialization ''Failed to serialize msg'')
            | Some msg_bin \<Rightarrow>
              (case ws_send E msg_bin of
                 Inl _ \<Rightarrow> Inl (GF_ConnectionFailed ''Ws connection failed to send message to batcher'')
               | Inr _ \<Rightarrow>
                 (case filter is_binary_msg msgs of
                    Inr msg # _ \<Rightarrow>
                      (case cbor_fee_response E (into_data msg) of
                         None \<Rightarrow> Inl (GF_Serialization ''Failed to deserialize batcher message'')
                       | Some (LastMaxFee f) \<Rightarrow> Inr f
                       | Some (FeeInvalidRequest e) \<Rightarrow> Inl (GF_InvalidRequest e)
                       | Some FeeServerBusy \<Rightarrow>
                           Inl (GF_Generic ''Server is busy processing requests, please retry''))
                  | _ \<Rightarrow> Inl (GF_ConnectionFailed
                      ''Connection was closed without close message before receiving all messages''))))))"

text \<open>The contract client of the payment service, which must be a contract.\<close>

definition batcher_payment_service :: "'t sdk_env \<Rightarrow> address \<Rightarrow> VerificationError + unit" where
  "batcher_payment_service E addr =
     (case rpc_get_code E addr of
        Inl e \<Rightarrow> Inl (VE_EthereumProvider e)
      | Inr code \<Rightarrow> if code = [] then Inl (VE_EthereumNotAContract addr) else Inr ())"

definition get_nonce_from_ethereum ::
    "'t sdk_env \<Rightarrow> string \<Rightarrow> address \<Rightarrow> Network \<Rightarrow> (GetNonceError + u256) option" where
  "get_nonce_from_ethereum E rpc_url addr network =
     (case sdk_provider E rpc_url of
        Inl e \<Rightarrow> Some (Inl (GN_EthRpc e))
      | Inr _ \<Rightarrow>
        map_option (\<lambda>payment_addr.
            case batcher_payment_service E payment_addr of
              Inl e \<Rightarrow> Inl (GN_EthRpc (verification_error_display (display_addr E) e))
            | Inr _ \<Rightarrow> (case sdk_user_nonces E addr of Inl e \<Rightarrow> Inl (GN_EthRpc e) | Inr n \<Rightarrow> Inr n))
          (get_batcher_payment_service_address (parse_addr E) network))"

definition estimate_fee_per_proof_with_rpc ::
    "'t sdk_env \<Rightarrow> nat \<Rightarrow> string \<Rightarrow> (FeeEstimateError + u256) option" where
  "estimate_fee_per_proof_with_rpc E num_proofs rpc_url =
     (case sdk_provider E rpc_url of
        Inl e \<Rightarrow> Some (Inl (FE_EthereumProvider e))
      | Inr _ \<Rightarrow>
        (case sdk_gas_price E of
           Inl e \<Rightarrow> Some (Inl (FE_EthereumGasPrice e))
         | Inr p \<Rightarrow> map_option Inr (calculate_fee_per_proof_with_gas_price num_proofs p)))"

definition estimate_fee :: "'t sdk_env \<Rightarrow> string \<Rightarrow> FeeEstimationType \<Rightarrow> (FeeEstimateError + u256) option" where
  "estimate_fee E rpc_url t =
     (case t of
        FeeDefault \<Rightarrow> estimate_fee_per_proof_with_rpc E DEFAULT_MAX_FEE_BATCH_SIZE rpc_url
      | FeeInstant \<Rightarrow> estimate_fee_per_proof_with_rpc E INSTANT_MAX_FEE_BATCH_SIZE rpc_url
      | FeeCustom n \<Rightarrow> estimate_fee_per_proof_with_rpc E n rpc_url)"

end
