(* ===== verification/Merkle_Tree.thy ===== *)
theory Merkle_Tree
  imports Sdk_Types
begin

text \<open>
  The Merkle tree of the \<open>lambdaworks\<close> crate, which batcher, client, aggregator and aggregation programs
  all use. \<open>MerkleTree<B>::build\<close> hashes the leaves with \<open>B::hash_data\<close> and combines nodes with
  \<open>B::hash_new_parent\<close>; the record \<open>node_tree\<close> has the operations on hashed leaves, with the combining
  function as an argument. What the repository relies on is the locale \<open>merkle_nodes\<close>: a tree exists for
  every non-empty list of leaves, the path of a position verifies against the root, and the root is a node
  like the others. The tree over the
  commitments of a batch (locale \<open>merkle_tree\<close>) is an instance. The complete binary tree, padded by
  repeating the last leaf, satisfies the contract.
\<close>

section \<open>The interface\<close>

record 'n node_tree =
  nt_build :: "(bytes \<Rightarrow> bytes \<Rightarrow> bytes) \<Rightarrow> bytes list \<Rightarrow> 'n option"
  nt_root :: "'n \<Rightarrow> bytes"
  nt_proof_by_pos :: "'n \<Rightarrow> nat \<Rightarrow> bytes list option"
  nt_verify :: "(bytes \<Rightarrow> bytes \<Rightarrow> bytes) \<Rightarrow> bytes list \<Rightarrow> bytes \<Rightarrow> nat \<Rightarrow> bytes \<Rightarrow> bool"

locale merkle_nodes =
  fixes T :: "'n node_tree"
  assumes nodes_None: "nt_build T H xs = None \<longleftrightarrow> xs = []"
    and nodes_inclusion: "nt_build T H xs = Some t \<Longrightarrow> i < length xs \<Longrightarrow>
          \<exists>path. nt_proof_by_pos T t i = Some path \<and> nt_verify T H path (nt_root T t) i (xs ! i)"
    and root_width: "nt_build T H xs = Some t \<Longrightarrow> (\<And>a b. length (H a b) = n) \<Longrightarrow>
          (\<And>x. x \<in> set xs \<Longrightarrow> length x = n) \<Longrightarrow> length (nt_root T t) = n"

text \<open>The tree of a batch: \<open>VerificationCommitmentBatch\<close> is the backend.\<close>

definition batch_merkle :: "(bytes \<Rightarrow> bytes) \<Rightarrow> 'n node_tree \<Rightarrow> 'n merkle_ops" where
  "batch_merkle keccak T =
     \<lparr> mt_build = (\<lambda>xs. nt_build T (hash_new_parent keccak) (map (hash_data keccak) xs)),
       mt_root = nt_root T,
       mt_proof_by_pos = nt_proof_by_pos T,
       mt_verify = (\<lambda>path root i x. nt_verify T (hash_new_parent keccak) path root i (hash_data keccak x)) \<rparr>"

locale merkle_tree =
  fixes M :: "'t merkle_ops"
  assumes build_None: "mt_build M xs = None \<longleftrightarrow> xs = []"
    and inclusion: "mt_build M xs = Some t \<Longrightarrow> i < length xs \<Longrightarrow>
          \<exists>path. mt_proof_by_pos M t i = Some path \<and> mt_verify M path (mt_root M t) i (xs ! i)"

sublocale merkle_nodes \<subseteq> batch: merkle_tree "batch_merkle keccak T" for keccak
  using nodes_None nodes_inclusion by unfold_locales (fastforce simp: batch_merkle_def)+

section \<open>The binary tree\<close>

text \<open>The root over \<open>2 ^ k\<close> nodes, and the path of a position from the leaf up.\<close>

fun bt_root :: "(bytes \<Rightarrow> bytes \<Rightarrow> bytes) \<Rightarrow> nat \<Rightarrow> bytes list \<Rightarrow> bytes" where
  "bt_root H 0 xs = hd xs"
| "bt_root H (Suc k) xs = H (bt_root H k (take (2 ^ k) xs)) (bt_root H k (drop (2 ^ k) xs))"

fun bt_path :: "(bytes \<Rightarrow> bytes \<Rightarrow> bytes) \<Rightarrow> nat \<Rightarrow> bytes list \<Rightarrow> nat \<Rightarrow> bytes list" where
  "bt_path H 0 xs i = []"
| "bt_path H (Suc k) xs i =
     (if i < 2 ^ k then bt_path H k (take (2 ^ k) xs) i @ [bt_root H k (drop (2 ^ k) xs)]
      else bt_path H k (drop (2 ^ k) xs) (i - 2 ^ k) @ [bt_root H k (take (2 ^ k) xs)])"

fun climb :: "(bytes \<Rightarrow> bytes \<Rightarrow> bytes) \<Rightarrow> bytes list \<Rightarrow> nat \<Rightarrow> bytes \<Rightarrow> bytes" where
  "climb H [] i h = h"
| "climb H (s # ss) i h = climb H ss (i div 2) (if even i then H h s else H s h)"

fun depth_for :: "nat \<Rightarrow> nat" where
  "depth_for n = (if n \<le> 1 then 0 else Suc (depth_for ((n + 1) div 2)))"

declare depth_for.simps [simp del]

definition pad_leaves :: "bytes list \<Rightarrow> bytes list" where
  "pad_leaves xs = xs @ replicate (2 ^ depth_for (length xs) - length xs) (last xs)"

type_synonym binary_node = "(bytes \<Rightarrow> bytes \<Rightarrow> bytes) \<times> nat \<times> bytes list"

definition binary_tree :: "binary_node node_tree" where
  "binary_tree =
     \<lparr> nt_build = (\<lambda>H xs. if xs = [] then None else Some (H, depth_for (length xs), pad_leaves xs)),
       nt_root = (\<lambda>(H, k, xs). bt_root H k xs),
       nt_proof_by_pos = (\<lambda>(H, k, xs) i. if i < length xs then Some (bt_path H k xs i) else None),
       nt_verify = (\<lambda>H path root i h. climb H path i h = root) \<rparr>"

lemma length_bt_path [simp]: "length (bt_path H k xs i) = k"
  by (induction k arbitrary: xs i) auto

lemma climb_snoc:
  "climb H (ss @ [s]) i h =
     (if even (i div 2 ^ length ss) then H (climb H ss i h) s else H s (climb H ss i h))"
  by (induction ss arbitrary: i h) (auto simp: div_mult2_eq)

text \<open>Only the lowest bits of the position matter.\<close>

lemma climb_mod: "climb H ss (2 ^ length ss * j + i) h = climb H ss i h"
  by (induction ss arbitrary: i h) (simp_all add: mult.assoc)

lemma climb_bt_path:
  "length xs = 2 ^ k \<Longrightarrow> i < 2 ^ k \<Longrightarrow> climb H (bt_path H k xs i) i (xs ! i) = bt_root H k xs"
proof (induction k arbitrary: xs i)
  case 0
  then show ?case by (cases xs) auto
next
  case (Suc k)
  show ?case
  proof (cases "i < 2 ^ k")
    case True
    then show ?thesis using Suc.IH [of "take (2 ^ k) xs" i] Suc.prems by (simp add: climb_snoc)
  next
    case False
    then obtain j where j: "i = j + 2 ^ k" "j < 2 ^ k" using Suc.prems(2) by (metis add.commute le_iff_add mult_2 nat_add_left_cancel_less not_less power_Suc)
    have "climb H (bt_path H k (drop (2 ^ k) xs) j) i h = climb H (bt_path H k (drop (2 ^ k) xs) j) j h" for h
      using climb_mod [of H "bt_path H k (drop (2 ^ k) xs) j" 1 j] j(1) by (simp add: add.commute)
    moreover have "i div 2 ^ k = 1" using j by (simp add: div_add_self2)
    ultimately show ?thesis
      using Suc.IH [of "drop (2 ^ k) xs" j] Suc.prems j False by (simp add: climb_snoc add.commute)
  qed
qed

lemma depth_for_covers: "n \<le> 2 ^ depth_for n"
proof (induction n rule: depth_for.induct)
  case (1 n)
  show ?case
  proof (cases "n \<le> 1")
    case False
    then show ?thesis using 1 by (subst depth_for.simps) simp
  qed (simp add: depth_for.simps)
qed

lemma length_pad_leaves: "length (pad_leaves xs) = 2 ^ depth_for (length xs)"
  using depth_for_covers [of "length xs"] by (simp add: pad_leaves_def)

lemma length_bt_root:
  assumes "\<And>a b. length (H a b) = n" "\<And>x. x \<in> set xs \<Longrightarrow> length x = n" "xs \<noteq> []"
  shows "length (bt_root H k xs) = n"
  using assms by (cases k) auto

interpretation binary: merkle_nodes binary_tree
proof unfold_locales
  fix H :: "bytes \<Rightarrow> bytes \<Rightarrow> bytes" and xs :: "bytes list" and t i
  show "nt_build binary_tree H xs = None \<longleftrightarrow> xs = []" by (simp add: binary_tree_def)
  assume "nt_build binary_tree H xs = Some t" "i < length xs"
  moreover from this(2) have "i < length (pad_leaves xs)" "pad_leaves xs ! i = xs ! i"
    by (simp_all add: pad_leaves_def nth_append)
  ultimately show "\<exists>path. nt_proof_by_pos binary_tree t i = Some path \<and>
      nt_verify binary_tree H path (nt_root binary_tree t) i (xs ! i)"
    using climb_bt_path [of "pad_leaves xs" "depth_for (length xs)" i H] length_pad_leaves [of xs]
    by (auto simp: binary_tree_def split: if_splits)
next
  fix H :: "bytes \<Rightarrow> bytes \<Rightarrow> bytes" and xs :: "bytes list" and t n
  assume t: "nt_build binary_tree H xs = Some t" and H: "\<And>a b. length (H a b) = n"
    and xs: "\<And>x. x \<in> set xs \<Longrightarrow> length x = n"
  have "xs \<noteq> []" using t by (auto simp: binary_tree_def)
  then have "length x = n" if "x \<in> set (pad_leaves xs)" for x
    using that xs by (auto simp: pad_leaves_def)
  moreover have "pad_leaves xs \<noteq> []" using \<open>xs \<noteq> []\<close> by (simp add: pad_leaves_def)
  ultimately show "length (nt_root binary_tree t) = n"
    using t length_bt_root [OF H, of "pad_leaves xs"] by (auto simp: binary_tree_def split: if_splits)
qed

end
