(* ===== verification/Client_Correct.thy ===== *)
theory Client_Correct
  imports Sdk_Client Merkle_Tree
begin

text \<open>
  Correctness of the client: what \<open>receive\<close> accepts has been verified against the Merkle root, every answer of
  a burst is matched when the answers come in the order of the nonces, and what becomes of errors
  while sending.
\<close>

section \<open>Matching\<close>

lemma last_index_Some:
  "last_index P xs = Some i \<Longrightarrow> \<exists>us x vs. xs = us @ x # vs \<and> P x \<and> (\<forall>v \<in> set vs. \<not> P v) \<and> i = length us"
proof (induction xs arbitrary: i)
  case (Cons y xs)
  show ?case
  proof (cases "last_index P xs")
    case None
    then have "\<forall>v \<in> set xs. \<not> P v" by (induction xs) (auto split: option.splits if_splits)
    then show ?thesis using Cons.prems None by (intro exI [of _ "[]"]) (auto split: if_splits)
  next
    case (Some j)
    then obtain us x vs where "xs = us @ x # vs" "P x" "\<forall>v \<in> set vs. \<not> P v" "j = length us"
      using Cons.IH by blast
    then show ?thesis using Cons.prems Some by (intro exI [of _ "y # us"]) auto
  qed
qed simp

lemma last_index_None: "last_index P xs = None \<longleftrightarrow> (\<forall>x \<in> set xs. \<not> P x)"
  by (induction xs) (auto split: option.splits)

lemma last_index_at: "P x \<Longrightarrow> \<forall>v \<in> set vs. \<not> P v \<Longrightarrow> last_index P (us @ x # vs) = Some (length us)"
  by (induction us) (auto simp: last_index_None split: option.splits)

lemma match_none:
  assumes "\<forall>x \<in> set sent. \<not> has_nonce (user_nonce d) x"
  shows "match_batcher_response_with_stored_verification_data E d sent = (Inl SE_InvalidProofInclusionData, sent)"
proof -
  have "last_index (has_nonce (user_nonce d)) sent = None" using assms by (simp only: last_index_None)
  then show ?thesis by (simp add: match_batcher_response_with_stored_verification_data_def)
qed

text \<open>The two outcomes of the matching.\<close>

lemma match_cases:
  obtains (none) "match_batcher_response_with_stored_verification_data E d sent = (Inl SE_InvalidProofInclusionData, sent)"
      "\<forall>x \<in> set sent. \<not> has_nonce (user_nonce d) x"
    | (found) us nvd vs where "sent = us @ Inr nvd # vs" "nonce nvd = user_nonce d"
      "\<forall>v \<in> set vs. \<not> has_nonce (user_nonce d) v"
      "match_batcher_response_with_stored_verification_data E d sent =
         (Inr (verification_data_into_commitment (sdk_keccak E) (verification_data nvd)), us @ vs)"
proof (cases "last_index (has_nonce (user_nonce d)) sent")
  case None
  then have "\<forall>x \<in> set sent. \<not> has_nonce (user_nonce d) x" by (simp only: last_index_None)
  then show ?thesis using none match_none by blast
next
  case (Some i)
  then obtain us x vs where x: "sent = us @ x # vs" "has_nonce (user_nonce d) x"
    "\<forall>v \<in> set vs. \<not> has_nonce (user_nonce d) v" "i = length us"
    using last_index_Some by blast
  then obtain nvd where "x = Inr nvd" "nonce nvd = user_nonce d" by (cases x) auto
  then show ?thesis
    using found [of us nvd vs] x Some by (simp add: match_batcher_response_with_stored_verification_data_def)
qed

lemma match_found:
  assumes "nonce nvd = user_nonce d" "\<forall>v \<in> set vs. \<not> has_nonce (user_nonce d) v"
  shows "match_batcher_response_with_stored_verification_data E d (us @ Inr nvd # vs) =
    (Inr (verification_data_into_commitment (sdk_keccak E) (verification_data nvd)), us @ vs)"
  using assms last_index_at [of "has_nonce (user_nonce d)" "Inr nvd" vs us]
  by (simp add: match_batcher_response_with_stored_verification_data_def)

lemma match_filter:
  "match_batcher_response_with_stored_verification_data E d (filter (\<lambda>x. \<not> isl x) sent) =
     (case match_batcher_response_with_stored_verification_data E d sent of (r, s) \<Rightarrow> (r, filter (\<lambda>x. \<not> isl x) s))"
proof (cases rule: match_cases [of E d sent])
  case none
  then have "\<forall>x \<in> set (filter (\<lambda>x. \<not> isl x) sent). \<not> has_nonce (user_nonce d) x" by auto
  from match_none [OF this, of E]
  show ?thesis using none(1) by simp
next
  case (found us nvd vs)
  then show ?thesis using match_found [of nvd d "filter (\<lambda>x. \<not> isl x) vs" E "filter (\<lambda>x. \<not> isl x) us"] by simp
qed

lemma biggest_filter: "get_biggest_nonce (filter (\<lambda>x. \<not> isl x) sent) b = get_biggest_nonce sent b"
  by (induction sent b rule: get_biggest_nonce.induct) auto

text \<open>What an accepted answer satisfies.\<close>

definition verified_answer :: "'t sdk_env \<Rightarrow> sent list \<Rightarrow> AlignedVerificationData \<Rightarrow> bool" where
  "verified_answer E sent avd \<longleftrightarrow>
     (\<exists>nvd. Inr nvd \<in> set sent \<and>
        avd_verification_data_commitment avd = verification_data_into_commitment (sdk_keccak E) (verification_data nvd)) \<and>
     mt_verify (sdk_merkle E) (avd_batch_inclusion_proof avd) (avd_batch_merkle_root avd) (avd_index_in_batch avd)
       (avd_verification_data_commitment avd)"

lemma accept_answer_Inr:
  assumes "accept_answer E msg sent = Inr (n, avd, sent')"
  shows "verified_answer E sent avd \<and> (\<exists>us nvd vs. sent = us @ Inr nvd # vs \<and> sent' = us @ vs \<and> nonce nvd = n)"
proof -
  obtain d where d: "handle_batcher_response E msg = Inr d"
    using assms by (cases "handle_batcher_response E msg") (simp_all add: accept_answer_def)
  show ?thesis
    by (cases rule: match_cases [of E d sent])
      (use assms d in \<open>auto simp: accept_answer_def process_batcher_response_def verify_proof_inclusion_def
        verified_answer_def AlignedVerificationData_new_def split: if_splits\<close>)
qed

lemma receive_loop_sound:
  "Inr avd \<in> set (receive_loop E n msgs sent acc) \<Longrightarrow> Inr avd \<in> set acc \<or> verified_answer E sent avd"
proof (induction msgs arbitrary: sent acc)
  case (Cons m msgs)
  have "Inr avd \<in> set acc \<or> verified_answer E sent avd"
    if a: "accept_answer E msg sent = Inr (k, avd', sent')" and
      i: "Inr avd \<in> set (if k = n then acc @ [Inr avd'] else receive_loop E n msgs sent' (acc @ [Inr avd']))"
    for msg k avd' sent'
  proof -
    note ok = accept_answer_Inr [OF a]
    have "verified_answer E sent avd" if "verified_answer E sent' avd"
      using that ok by (auto simp: verified_answer_def)
    then show ?thesis using i ok Cons.IH [of sent' "acc @ [Inr avd']"] by (auto split: if_splits)
  qed
  then show ?case using Cons.prems by (auto split: sum.splits ws_message.splits option.splits prod.splits)
qed simp

lemma accept_filter:
  "accept_answer E msg (filter (\<lambda>x. \<not> isl x) sent) =
     (case accept_answer E msg sent of Inl e \<Rightarrow> Inl e | Inr (n, avd, s) \<Rightarrow> Inr (n, avd, filter (\<lambda>x. \<not> isl x) s))"
  by (auto simp: accept_answer_def match_filter split: sum.splits prod.splits)

lemma receive_loop_filter:
  "receive_loop E n msgs (filter (\<lambda>x. \<not> isl x) sent) acc = receive_loop E n msgs sent acc"
  by (induction msgs arbitrary: sent acc) (auto simp: accept_filter split: sum.splits ws_message.splits option.splits)

section \<open>Bursts in order\<close>

text \<open>A burst answered in the order of its nonces.\<close>

definition answer_for :: "'t sdk_env \<Rightarrow> NoncedVerificationData \<Rightarrow> ws_message \<Rightarrow> BatchInclusionData \<Rightarrow> bool" where
  "answer_for E nvd msg d \<longleftrightarrow>
     (\<exists>b. msg = BinaryMsg b \<and> cbor_submit_response E b = Some (BatchInclusion d)) \<and> user_nonce d = nonce nvd \<and>
     verify_proof_inclusion E (verification_data_into_commitment (sdk_keccak E) (verification_data nvd)) d"

definition aligned_data :: "'t sdk_env \<Rightarrow> NoncedVerificationData \<Rightarrow> BatchInclusionData \<Rightarrow> AlignedVerificationData" where
  "aligned_data E nvd d =
     AlignedVerificationData_new (verification_data_into_commitment (sdk_keccak E) (verification_data nvd)) d"

lemma accept_in_order:
  assumes "answer_for E nvd msg d"
  shows "accept_answer E msg (us @ [Inr nvd]) = Inr (nonce nvd, aligned_data E nvd d, us)"
  using assms match_found [of nvd d "[]" E us]
  by (auto simp: answer_for_def accept_answer_def handle_batcher_response_def process_batcher_response_def aligned_data_def)

lemma receive_loop_in_order:
  assumes "length msgs = length nvds" "length ds = length nvds" "nvds \<noteq> []" "sorted_wrt (<) (map nonce nvds)"
    and "\<forall>i < length nvds. answer_for E (nvds ! i) (msgs ! i) (ds ! i)"
  shows "receive_loop E (nonce (last nvds)) (map Inr msgs @ rest) (rev (map Inr nvds)) acc =
    acc @ map (\<lambda>(nvd, d). Inr (aligned_data E nvd d)) (zip nvds ds)"
  using assms
proof (induction nvds arbitrary: msgs ds acc)
  case (Cons nvd nvds)
  obtain msg msgs' d ds' where m: "msgs = msg # msgs'" "ds = d # ds'" "length msgs' = length nvds" "length ds' = length nvds"
    using Cons.prems(1,2) by (metis length_Suc_conv)
  have a: "answer_for E nvd msg d" using Cons.prems(5) m by fastforce
  have tail: "\<forall>i < length nvds. answer_for E (nvds ! i) (msgs' ! i) (ds' ! i)" using Cons.prems(5) m by fastforce
  obtain b where msg: "msg = BinaryMsg b" using a by (auto simp: answer_for_def)
  have acc: "accept_answer E msg (rev (map Inr (nvd # nvds))) = Inr (nonce nvd, aligned_data E nvd d, rev (map Inr nvds))"
    using accept_in_order [OF a, of "rev (map Inr nvds)"] by simp
  show ?case
  proof (cases "nvds = []")
    case True
    then show ?thesis using m msg acc by simp
  next
    case False
    then have "nonce nvd \<noteq> nonce (last nvds)" using Cons.prems(4) by auto
    then show ?thesis
      using Cons.IH [OF m(3,4) False _ tail, of "acc @ [Inr (aligned_data E nvd d)]"] Cons.prems(4) False m msg acc by simp
  qed
qed simp

lemma biggest_nonce_sorted:
  assumes "sorted_wrt (<) (map nonce nvds)" "nvds \<noteq> []"
  shows "get_biggest_nonce (rev (map Inr nvds)) 0 = nonce (last nvds)"
proof -
  have top: "get_biggest_nonce (map Inr xs) b = b" if "\<forall>x \<in> set xs. nonce x \<le> b" for xs b
    using that by (induction xs) auto
  obtain xs x where n: "nvds = xs @ [x]" using assms(2) by (metis rev_exhaust)
  have "\<forall>y \<in> set (rev xs). nonce y \<le> nonce x" using assms(1) n by (auto simp: sorted_wrt_append)
  then show ?thesis using n top [of "rev xs" "nonce x"] by (auto simp: rev_map word_gt_0)
qed

lemma receive_in_order:
  assumes "length msgs = length nvds" "length ds = length nvds" "nvds \<noteq> []" "sorted_wrt (<) (map nonce nvds)"
    and "\<forall>i < length nvds. answer_for E (nvds ! i) (msgs ! i) (ds ! i)"
  shows "receive E (map Inr msgs @ rest) (rev (map Inr nvds)) =
    map (\<lambda>(nvd, d). Inr (aligned_data E nvd d)) (zip nvds ds)"
  using receive_loop_in_order [OF assms, of rest "[]"] biggest_nonce_sorted [OF assms(4,3)]
  by (simp add: receive_def)

text \<open>The proofs of a burst as they are sent: consecutive nonces from \<open>n\<close> on.\<close>

definition burst :: "'t sdk_env \<Rightarrow> address \<Rightarrow> u256 \<Rightarrow> VerificationData list \<Rightarrow> u256 \<Rightarrow> NoncedVerificationData list" where
  "burst E payment_addr fee vds n =
     map (\<lambda>(i, vd). \<lparr> verification_data = vd, nonce = n + of_nat i, max_fee = fee,
                      chain_id = ucast (wallet_chain_id E), payment_service_addr = payment_addr \<rparr>) (enumerate 0 vds)"

lemma burst_Cons:
  "burst E a fee (vd # vds) n =
     \<lparr> verification_data = vd, nonce = n, max_fee = fee, chain_id = ucast (wallet_chain_id E), payment_service_addr = a \<rparr>
     # burst E a fee vds (n + 1)"
  by (simp add: burst_def enumerate_Suc_eq [of 0] comp_def case_prod_beta add_ac)

lemma send_loop_spec:
  "send_loop E a fee vds n acc = Some (sent, complete) \<Longrightarrow>
   if complete then sent = acc @ map Inr (burst E a fee vds n) \<and> unat n + length vds < 2 ^ 256
   else \<exists>k e. k < length vds \<and> sent = acc @ map Inr (take k (burst E a fee vds n)) @ [Inl e]"
proof (induction vds arbitrary: n acc)
  case Nil
  then show ?case using unsigned_less [of n] by (auto simp: burst_def)
next
  case (Cons vd vds)
  let ?nvd = "\<lparr> verification_data = vd, nonce = n, max_fee = fee, chain_id = ucast (wallet_chain_id E), payment_service_addr = a \<rparr>"
  obtain n' m where n: "checked_add n 1 = Some n'" and m: "SubmitProofMessage_new E ?nvd = Some m"
    using Cons.prems by (auto simp: Let_def bind_eq_Some_conv)
  have n1: "n' = n + 1" "unat n' = Suc (unat n)"
    using n by (auto simp: checked_add_def split: if_splits) (simp add: unat_word_ariths)
  show ?case
  proof (cases "send_loop E a fee vds n' (acc @ [Inr ?nvd]) = Some (sent, complete)")
    case True
    from Cons.IH [OF this] show ?thesis
    proof (cases complete)
      case False
      then obtain k e where "k < length vds" "sent = acc @ Inr ?nvd # map Inr (take k (burst E a fee vds n')) @ [Inl e]"
        using Cons.IH [OF True] by auto
      then have "Suc k < length (vd # vds) \<and> sent = acc @ map Inr (take (Suc k) (burst E a fee (vd # vds) n)) @ [Inl e]"
        by (simp add: burst_Cons n1)
      then show ?thesis using False by (metis (full_types))
    qed (use n1 in \<open>auto simp: burst_Cons\<close>)
  next
    case False
    then obtain e where "sent = acc @ [Inl e]" "\<not> complete"
      using Cons.prems n m by (auto simp: Let_def split: option.splits sum.splits)
    then have "0 < length (vd # vds) \<and> sent = acc @ map Inr (take 0 (burst E a fee (vd # vds) n)) @ [Inl e]" by simp
    then show ?thesis using \<open>\<not> complete\<close> by (metis (full_types))
  qed
qed

lemma burst_sorted: "unat n + length vds < 2 ^ 256 \<Longrightarrow> sorted_wrt (<) (map nonce (burst E a fee vds n))"
proof (induction vds arbitrary: n)
  case (Cons vd vds)
  have n1: "unat (n + 1) = Suc (unat n)" using Cons.prems by (simp add: unat_word_ariths)
  have "n < nonce x" if x: "x \<in> set (burst E a fee vds (n + 1))" for x
  proof -
    obtain i where i: "i < length vds" "nonce x = n + 1 + of_nat i"
      using x by (auto simp: burst_def in_set_enumerate_eq)
    then have "unat (nonce x) = Suc (unat n) + i"
      using n1 Cons.prems by (simp add: unat_word_ariths unat_of_nat)
    then show ?thesis by (simp add: word_less_nat_alt)
  qed
  then show ?case using Cons.IH [of "n + 1"] n1 Cons.prems by (simp add: burst_Cons)
qed (simp add: burst_def)

section \<open>Waiting\<close>

lemma ex_less_Suc_shift:
  "(\<exists>j < Suc k. P (i + j) \<and> (\<forall>l < j. Q (i + l))) \<longleftrightarrow>
     P i \<or> Q i \<and> (\<exists>j < k. P (Suc i + j) \<and> (\<forall>l < j. Q (Suc i + l)))" (is "?L \<longleftrightarrow> ?R")
proof
  assume ?L
  then obtain j where j: "j < Suc k" "P (i + j)" "\<forall>l < j. Q (i + l)" by blast
  show ?R
  proof (cases j)
    case (Suc j')
    then have "\<forall>l < j'. Q (Suc i + l)" using j(3) by (auto dest: spec [of _ "Suc _"])
    moreover have "Q i" using j(3) Suc by (auto dest: spec [of _ 0])
    ultimately show ?thesis using j Suc by auto
  qed (use j in simp)
next
  assume R: ?R
  show ?L
  proof (cases "P i")
    case False
    then obtain j where j: "Q i" "j < k" "P (Suc i + j)" "\<forall>l < j. Q (Suc i + l)" using R by blast
    then have "\<forall>l < Suc j. Q (i + l)" by (auto simp: less_Suc_eq_0_disj)
    then show ?thesis using j by (intro exI [of _ "Suc j"]) simp
  qed auto
qed

lemma await_loop_ok:
  "await_loop E url net avd i k = Some (Inr ()) \<longleftrightarrow>
     (\<exists>j < k. is_proof_verified E url net avd (i + j) = Some (Inr True) \<and>
        (\<forall>l < j. is_proof_verified E url net avd (i + l) \<noteq> None))"
proof (induction k arbitrary: i)
  case (Suc k)
  show ?case
    unfolding ex_less_Suc_shift [where P = "\<lambda>n. is_proof_verified E url net avd n = Some (Inr True)"
        and Q = "\<lambda>n. is_proof_verified E url net avd n \<noteq> None"]
    using Suc.IH [of "Suc i"] by (cases "is_proof_verified E url net avd i") auto
qed simp

lemma await_loop_error:
  "await_loop E url net avd i k = Some (Inl e) \<Longrightarrow> e = SE_BatchVerificationTimeout (TIME_BETWEEN_RETRIES * RETRIES)"
  by (induction k arbitrary: i) (auto simp: bind_eq_Some_conv split: if_splits)

section \<open>A sample client\<close>

definition client_vd :: VerificationData where
  "client_vd = \<lparr> proving_system = SP1, proof_bytes = [7], pub_input = None, verification_key = None,
     vm_program_code = Some [9], proof_generator_addr = 3 \<rparr>"

definition client_nvd :: "u256 \<Rightarrow> NoncedVerificationData" where
  "client_nvd n = \<lparr> verification_data = client_vd, nonce = n, max_fee = 100, chain_id = 1, payment_service_addr = 5 \<rparr>"

definition client_tree :: binary_node where
  "client_tree = (hash_new_parent id, 1, replicate 2 (hash_data id (verification_data_into_commitment id client_vd)))"

text \<open>The \<open>k\<close>-th message of the batcher is the answer for the position \<open>k\<close> and the nonce \<open>k\<close>.\<close>

definition client_bid :: "bytes \<Rightarrow> BatchInclusionData" where
  "client_bid b = \<lparr> batch_merkle_root = nt_root binary_tree client_tree,
     batch_inclusion_proof = the (nt_proof_by_pos binary_tree client_tree (unat (hd b))),
     index_in_batch = unat (hd b), user_nonce = ucast (hd b) \<rparr>"

definition sample_sdk :: "binary_node sdk_env" where
  "sample_sdk = \<lparr> wallet_chain_id = 1, sign_typed_data = (\<lambda>_. Some \<lparr> sig_r = 1, sig_s = 1, sig_v = 27 \<rparr>),
     cbor_client_message = (\<lambda>_. Some [1]), cbor_submit_response = (\<lambda>b. Some (BatchInclusion (client_bid b))),
     cbor_nonce_response = (\<lambda>_. None), cbor_fee_response = (\<lambda>_. None), ws_connect = (\<lambda>_. Inr []),
     ws_send = (\<lambda>_. Inr ()), ws_close = Inr (), sdk_merkle = batch_merkle id binary_tree, sdk_keccak = id,
     parse_addr = (\<lambda>_. Some 5), display_addr = (\<lambda>_. []), sdk_provider = (\<lambda>_. Inr ()), rpc_get_code = (\<lambda>_. Inr [1]),
     call_verify_inclusion = (\<lambda>i _ _ _ _ _. Inr (i = 2)), sdk_gas_price = Inr 10, sdk_user_nonces = (\<lambda>_. Inr 0) \<rparr>"

lemma client_bid_sel [simp]:
  "index_in_batch (client_bid b) = unat (hd b)" "user_nonce (client_bid b) = ucast (hd b)"
  by (simp_all add: client_bid_def)

lemma sample_sdk_sel [simp]:
  "cbor_submit_response sample_sdk b = Some (BatchInclusion (client_bid b))" "sdk_keccak sample_sdk = id"
  "sdk_merkle sample_sdk = batch_merkle id binary_tree" "nonce (client_nvd n) = n" "verification_data (client_nvd n) = client_vd"
  by (simp_all add: sample_sdk_def client_nvd_def)

lemma sample_tree:
  "nt_build binary_tree (hash_new_parent id) (replicate 2 (hash_data id (verification_data_into_commitment id client_vd))) =
     Some client_tree"
  by (simp add: binary_tree_def client_tree_def pad_leaves_def depth_for.simps)

lemma sample_answer: "k < 2 \<Longrightarrow> answer_for sample_sdk (client_nvd (ucast k)) (BinaryMsg [k]) (client_bid [k])"
  using binary.nodes_inclusion [OF sample_tree, of "unat k"]
  by (auto simp: answer_for_def verify_proof_inclusion_def word_less_nat_alt client_bid_def batch_merkle_def)

section \<open>Properties\<close>

text \<open>
  Claim C12. The client never reports an inclusion it has not verified: every inclusion that \<open>receive\<close>
  returns, whatever the batcher or the network sends, is for a proof of this burst, and its Merkle path
  leads from the commitment of that proof to the root.
\<close>

theorem receive_only_verified:
  assumes "Inr avd \<in> set (receive E msgs sent)"
  shows "verified_answer E sent avd"
  using receive_loop_sound assms unfolding receive_def by fastforce

theorem receive_only_verified_witness:
  "verified_answer sample_sdk [Inr (client_nvd 0)] (aligned_data sample_sdk (client_nvd 0) (client_bid [0]))"
proof (rule receive_only_verified [of _ _ "[Inr (BinaryMsg [0])]"])
  show "Inr (aligned_data sample_sdk (client_nvd 0) (client_bid [0])) \<in>
      set (receive sample_sdk [Inr (BinaryMsg [0])] [Inr (client_nvd 0)])"
    using accept_in_order [OF sample_answer [of 0], of "[]"] by (simp add: receive_def)
qed

text \<open>
  Errors while sending are lost: \<open>receive\<close> returns the same whether the errors are in the list of
  what was sent or not, so a proof that could not be sent is reported neither as an error nor as a
  result.
\<close>

lemma receive_ignores_send_errors:
  "receive E msgs (filter (\<lambda>x. \<not> isl x) sent) = receive E msgs sent"
  by (simp add: receive_def receive_loop_filter biggest_filter)

text \<open>
  What \<open>send_messages\<close> records is what went out: either every proof was sent, and the list is
  the burst in reverse, one message per proof with consecutive, strictly increasing nonces from the
  given one; or it is the burst up to the proof that failed, followed by that error. (No nonce wraps
  around: the addition would panic.)
\<close>

lemma send_messages_records_burst:
  assumes "send_messages E a vds fee n = Some sent"
  shows "sent = rev (map Inr (burst E a fee vds n)) \<and> sorted_wrt (<) (map nonce (burst E a fee vds n)) \<or>
    (\<exists>k e. k < length vds \<and> sent = map Inr (take k (burst E a fee vds n)) @ [Inl e])"
proof -
  obtain xs complete where x: "send_loop E a fee vds n [] = Some (xs, complete)"
    "sent = (if complete then rev xs else xs)"
    using assms by (auto simp: send_messages_def)
  show ?thesis using send_loop_spec [OF x(1)] x(2) burst_sorted by (cases complete) auto
qed

text \<open>
  Claim C35. A burst is answered completely: when the batcher answers the proofs of a burst in the order of
  their nonces, with paths that verify, \<open>receive\<close> returns the inclusion of every proof, in that order,
  and reads nothing beyond the last answer.
\<close>

theorem receive_answers_whole_burst:
  assumes "length msgs = length nvds" "length ds = length nvds" "nvds \<noteq> []" "sorted_wrt (<) (map nonce nvds)"
    and "\<forall>i < length nvds. answer_for E (nvds ! i) (msgs ! i) (ds ! i)"
  shows "receive E (map Inr msgs @ rest) (rev (map Inr nvds)) =
    map (\<lambda>(nvd, d). Inr (aligned_data E nvd d)) (zip nvds ds)"
  by (rule receive_in_order [OF assms])

theorem receive_answers_whole_burst_witness:
  "receive sample_sdk [Inr (BinaryMsg [0]), Inr (BinaryMsg [1]), Inl ''closed'']
     [Inr (client_nvd 1), Inr (client_nvd 0)] =
   [Inr (aligned_data sample_sdk (client_nvd 0) (client_bid [0])),
    Inr (aligned_data sample_sdk (client_nvd 1) (client_bid [1]))]"
  using receive_answers_whole_burst [of "[BinaryMsg [0], BinaryMsg [1]]" "[client_nvd 0, client_nvd 1]"
      "[client_bid [0], client_bid [1]]" sample_sdk "[Inl ''closed'']"] sample_answer [of 0] sample_answer [of 1]
  by (simp add: less_Suc_eq numeral_2_eq_2)

text \<open>
  Claim C37. Waiting for the verification takes at most ten checks: it succeeds exactly when one of the first
  ten reports the proof as verified and none before that one panicked, and its only error is the
  timeout of a hundred seconds.
\<close>

theorem await_batch_verification_exact:
  "(await_batch_verification E url net avd = Some (Inr ()) \<longleftrightarrow>
     (\<exists>j < 10. is_proof_verified E url net avd j = Some (Inr True) \<and>
        (\<forall>l < j. is_proof_verified E url net avd l \<noteq> None))) \<and>
   (await_batch_verification E url net avd = Some (Inl e) \<longrightarrow> e = SE_BatchVerificationTimeout 100)"
  using await_loop_ok [of E url net avd 0 10] await_loop_error [of E url net avd 0 10 e]
  by (simp add: await_batch_verification_def RETRIES_def TIME_BETWEEN_RETRIES_def)

theorem await_batch_verification_exact_witness:
  "await_batch_verification sample_sdk ''http'' Devnet (aligned_data sample_sdk (client_nvd 0) (client_bid [0])) =
     Some (Inr ())"
proof -
  let ?avd = "aligned_data sample_sdk (client_nvd 0) (client_bid [0])"
  have check: "is_proof_verified sample_sdk ''http'' Devnet ?avd i = Some (Inr (i = 2))" for i
    by (simp add: is_proof_verified_def sample_sdk_def aligned_service_manager_def
        get_aligned_service_manager_address_def get_batcher_payment_service_address_def)
  show ?thesis
    using await_batch_verification_exact [of sample_sdk "''http''" Devnet ?avd] by (simp add: check exI [of _ 2])
qed

end
