(* ===== verification/End_To_End.thy ===== *)
theory End_To_End
  imports Finalize_Correct Client_Correct
begin

text \<open>
  Batcher and client together: what a posted batch sends to a sink is what the client on the other
  side needs. The answers leave the batcher in the order of the nonces of each sender, because the
  batch is ordered by priority and fees do not increase with the nonce, and each path verifies, by the
  contract of the Merkle tree.
\<close>

section \<open>The wire\<close>

text \<open>The messages of an outbox that go to the sink \<open>w\<close>, as the client's stream has them.\<close>

fun wire_message :: "('q, 't) batcher_env \<Rightarrow> out_msg \<Rightarrow> ws_stream" where
  "wire_message N (SubmitResp r) =
     (case cbor_serialize_response N r of Inl _ \<Rightarrow> [] | Inr b \<Rightarrow> [Inr (BinaryMsg b)])"
| "wire_message N _ = []"

definition to_client :: "('q, 't) batcher_env \<Rightarrow> sink \<Rightarrow> (sink \<times> out_msg) list \<Rightarrow> ws_stream" where
  "to_client N w out = concat (map (\<lambda>p. wire_message N (snd p)) (filter (\<lambda>p. fst p = w) out))"

text \<open>Client and batcher use the same hash and tree, and what one serializes the other reads back.\<close>

definition speaks :: "('q, 't) batcher_env \<Rightarrow> 't sdk_env \<Rightarrow> bool" where
  "speaks N E \<longleftrightarrow> sdk_merkle E = merkle N \<and> sdk_keccak E = keccak N \<and>
     (\<forall>r b. cbor_serialize_response N r = Inr b \<longrightarrow> cbor_submit_response E b = Some r)"

text \<open>The commitments of queued entries are those of their verification data.\<close>

definition committed :: "('q, 't) batcher_env \<Rightarrow> BatchQueueEntry list \<Rightarrow> bool" where
  "committed N es \<longleftrightarrow>
     (\<forall>e \<in> set es. verification_data_commitment e = nonced_into_commitment (keccak N) (nonced_verification_data e))"

section \<open>The order of the answers\<close>

lemma sorted_wrt_filter_distinct:
  "sorted_wrt R xs \<Longrightarrow> distinct (map f xs) \<Longrightarrow>
   (\<And>x y. x \<in> set xs \<Longrightarrow> y \<in> set xs \<Longrightarrow> P x \<Longrightarrow> P y \<Longrightarrow> R x y \<Longrightarrow> f x \<noteq> f y \<Longrightarrow> S (g x) (g y)) \<Longrightarrow>
   sorted_wrt S (map g (filter P xs))"
  by (induction xs) (auto simp: image_iff)

lemma answers_ascending:
  assumes ready: "batch_ready N gp batch" and fo: "fee_order (items_of batch)"
    and keys: "distinct (map entry_key batch)"
    and one: "\<And>e. e \<in> set batch \<Longrightarrow> P e \<Longrightarrow> sender e = a"
  shows "sorted_wrt (<) (map entry_nonce (filter P (rev batch)))"
proof (rule sorted_wrt_filter_distinct [where f = entry_key])
  show "sorted_wrt (\<lambda>x y. prio_of x \<le> prio_of y) (rev batch)"
    using ready by (simp add: batch_ready_def postable_def sorted_wrt_rev)
  show "distinct (map entry_key (rev batch))" using keys by (simp add: rev_map [symmetric])
  fix x y
  assume xy: "x \<in> set (rev batch)" "y \<in> set (rev batch)" "P x" "P y" "prio_of x \<le> prio_of y" "entry_key x \<noteq> entry_key y"
  then have s: "sender x = sender y" using one by simp
  then have "entry_nonce y < entry_nonce x \<longrightarrow> entry_fee x \<le> entry_fee y"
    using fo xy(1,2) by (auto simp: fee_order_def items_of_def)
  moreover have "entry_nonce x \<noteq> entry_nonce y" using xy(6) s by (simp add: entry_key_def)
  ultimately show "entry_nonce x < entry_nonce y"
    using xy(5) by (auto simp: prio_le_iff prio_of_def)
qed

section \<open>The answers of a batch\<close>

definition inclusion_of :: "('q, 't) batcher_env \<Rightarrow> 't \<Rightarrow> nat \<times> BatchQueueEntry \<Rightarrow> BatchInclusionData" where
  "inclusion_of N tr p = the (BatchInclusionData_new (merkle N) (fst p) tr (entry_nonce (snd p)))"

definition answer_bytes :: "('q, 't) batcher_env \<Rightarrow> 't \<Rightarrow> nat \<times> BatchQueueEntry \<Rightarrow> bytes" where
  "answer_bytes N tr p = projr (cbor_serialize_response N (BatchInclusion (inclusion_of N tr p)))"

lemma to_client_answers:
  assumes "list_all2 (answers N tr) ps out"
  shows "to_client N w out =
    map Inr (map (\<lambda>p. BinaryMsg (answer_bytes N tr p)) (filter (\<lambda>p. messaging_sink (snd p) = Some w) ps))"
  using assms
proof (induction rule: list_all2_induct)
  case (Cons p ps x out)
  obtain d b where d: "BatchInclusionData_new (merkle N) (fst p) tr (entry_nonce (snd p)) = Some d"
    "cbor_serialize_response N (BatchInclusion d) = Inr b" "snd x = SubmitResp (BatchInclusion d)"
    "messaging_sink (snd p) = Some (fst x)"
    using Cons(1) by (auto simp: answers_def)
  then show ?case using Cons(3) by (auto simp: to_client_def answer_bytes_def inclusion_of_def)
qed (simp add: to_client_def)

text \<open>An answer that the client can rely on.\<close>

definition included :: "'t sdk_env \<Rightarrow> bytes \<Rightarrow> NoncedVerificationData \<Rightarrow> AlignedVerificationData \<Rightarrow> bool" where
  "included E root nvd avd \<longleftrightarrow>
     avd_verification_data_commitment avd = verification_data_into_commitment (sdk_keccak E) (verification_data nvd) \<and>
     avd_batch_merkle_root avd = root \<and>
     mt_verify (sdk_merkle E) (avd_batch_inclusion_proof avd) root (avd_index_in_batch avd)
       (avd_verification_data_commitment avd)"

lemma included_aligned_data:
  "answer_for E nvd msg d \<Longrightarrow> batch_merkle_root d = root \<Longrightarrow> included E root nvd (aligned_data E nvd d)"
  by (auto simp: included_def answer_for_def verify_proof_inclusion_def aligned_data_def AlignedVerificationData_new_def)

context merkle_tree
begin

lemma answer_for_entry:
  assumes sp: "speaks N E" "merkle N = M" and tr: "mt_build M (map verification_data_commitment batch) = Some tr"
    and co: "committed N batch" and p: "p \<in> set (enumerate 0 batch)" and a: "answers N tr p x"
  shows "answer_for E (nonced_verification_data (snd p)) (BinaryMsg (answer_bytes N tr p)) (inclusion_of N tr p)"
    and "batch_merkle_root (inclusion_of N tr p) = mt_root M tr"
proof -
  obtain i e where ie: "p = (i, e)" by fastforce
  have i: "i < length batch" "batch ! i = e" using p ie by (auto simp: in_set_enumerate_eq)
  obtain path where path: "mt_proof_by_pos M tr i = Some path"
    "mt_verify M path (mt_root M tr) i (verification_data_commitment e)"
    using inclusion [OF tr, of i] i by auto
  obtain d b where d: "BatchInclusionData_new M i tr (entry_nonce e) = Some d"
    "cbor_serialize_response N (BatchInclusion d) = Inr b"
    using a sp(2) ie by (auto simp: answers_def)
  have [simp]: "inclusion_of N tr p = d" "answer_bytes N tr p = b"
    using d sp(2) ie by (simp_all add: inclusion_of_def answer_bytes_def)
  have [simp]: "snd p = e" using ie by simp
  have dd: "d = \<lparr> batch_merkle_root = mt_root M tr, batch_inclusion_proof = path, index_in_batch = i,
                  user_nonce = entry_nonce e \<rparr>"
    using d(1) path by (simp add: BatchInclusionData_new_def)
  have "verification_data_commitment e = verification_data_into_commitment (keccak N) (verification_data (nonced_verification_data e))"
    using co i by (auto simp: committed_def nonced_into_commitment_def dest: nth_mem)
  then show "answer_for E (nonced_verification_data (snd p)) (BinaryMsg (answer_bytes N tr p)) (inclusion_of N tr p)"
    using sp d(2) path(2) unfolding answer_for_def verify_proof_inclusion_def speaks_def by (simp add: dd)
  show "batch_merkle_root (inclusion_of N tr p) = mt_root M tr" by (simp add: dd)
qed

text \<open>The client on the sink \<open>w\<close> gets every inclusion of its burst from the answers of a batch.\<close>

lemma batch_answers_client:
  assumes sp: "speaks N E" "merkle N = M" and tr: "mt_build M (map verification_data_commitment batch) = Some tr"
    and co: "committed N batch" and out: "list_all2 (answers N tr) (rev (enumerate 0 batch)) out"
    and nvds: "nvds = map nonced_verification_data (filter (\<lambda>e. messaging_sink e = Some w) (rev batch))"
    and s: "sorted_wrt (<) (map nonce nvds)" and ne: "nvds \<noteq> []"
  shows "\<exists>avds. receive E (to_client N w out) (rev (map Inr nvds)) = map Inr avds \<and>
    list_all2 (included E (mt_root M tr)) nvds avds"
proof -
  let ?ps = "filter (\<lambda>p. messaging_sink (snd p) = Some w) (rev (enumerate 0 batch))"
  let ?ds = "map (inclusion_of N tr) ?ps" and ?ms = "map (\<lambda>p. BinaryMsg (answer_bytes N tr p)) ?ps"
  have n: "nvds = map (nonced_verification_data \<circ> snd) ?ps"
  proof -
    have "rev batch = map snd (rev (enumerate 0 batch))" by (simp add: rev_map [symmetric])
    then show ?thesis unfolding nvds by (simp only: filter_map map_map) (simp add: comp_def)
  qed
  have ans: "answer_for E (nonced_verification_data (snd p)) (BinaryMsg (answer_bytes N tr p)) (inclusion_of N tr p)"
    "batch_merkle_root (inclusion_of N tr p) = mt_root M tr" if "p \<in> set ?ps" for p
  proof -
    have p: "p \<in> set (enumerate 0 batch)" using that by simp
    then obtain i where "i < length (rev (enumerate 0 batch))" "p = rev (enumerate 0 batch) ! i"
      by (metis in_set_conv_nth set_rev)
    then have "answers N tr p (out ! i)" using list_all2_nthD [OF out] by simp
    from answer_for_entry [OF sp tr co p this]
    show "answer_for E (nonced_verification_data (snd p)) (BinaryMsg (answer_bytes N tr p)) (inclusion_of N tr p)"
      "batch_merkle_root (inclusion_of N tr p) = mt_root M tr" .
  qed
  have "receive E (map Inr ?ms @ []) (rev (map Inr nvds)) =
      map (\<lambda>(nvd, d). Inr (aligned_data E nvd d)) (zip nvds ?ds)"
    by (rule receive_in_order [OF _ _ ne s]) (use n ans(1) nth_mem in \<open>auto simp del: set_filter\<close>)
  moreover have "map (\<lambda>(nvd, d). Inr (aligned_data E nvd d)) (zip nvds ?ds) =
      map Inr (map (\<lambda>p. aligned_data E (nonced_verification_data (snd p)) (inclusion_of N tr p)) ?ps)"
    unfolding n by (simp add: zip_map_map zip_same_conv_map comp_def)
  moreover have "list_all2 (included E (mt_root M tr)) nvds
      (map (\<lambda>p. aligned_data E (nonced_verification_data (snd p)) (inclusion_of N tr p)) ?ps)"
    unfolding n list_all2_map1 list_all2_map2 comp_def
    by (rule list.rel_refl_strong) (rule included_aligned_data [OF ans])
  ultimately show ?thesis unfolding to_client_answers [OF out, of w] append_Nil2 by (intro exI conjI) simp_all
qed

end

section \<open>A block answers the clients of its batch\<close>

lemma strictly_sorted_map_unique:
  fixes f :: "'a \<Rightarrow> 'b::linorder"
  assumes "sorted_wrt (<) (map f xs)" "sorted_wrt (<) (map f ys)" "set xs = set ys"
  shows "xs = ys"
proof -
  have "map f xs = map f ys" using assms by (intro strict_sorted_equal) simp_all
  moreover have "inj_on f (set xs \<union> set ys)"
    using assms by (auto simp: distinct_map strict_sorted_iff)
  ultimately show ?thesis using map_inj_on by blast
qed

lemma distinct_keys_entries:
  assumes "distinct (map (entry_key \<circ> fst) (items_of batch @ xs))"
  shows "distinct (map entry_key batch)" "set batch \<inter> fst ` set xs = {}"
  using assms by (auto simp: items_of_def comp_def)

text \<open>
  Claim C6. From submission to inclusion. It is assumed that the books balance with nothing in flight, that the fees of every user
  are in order and above the limit (which an eviction can break), that the queue is within its capacity and the gas price in
  the range in which fees are defined, that the disabled verifiers are unchanged, that no other handler runs while the block is handled,
  that every leaf is the commitment of its proof, and that all the proofs of the sink \<open>w\<close> are of one sender.
  When a block then posts a batch, a client with proofs in it can verify all of them: for the sink \<open>w\<close> of a sender whose burst \<open>nvds\<close> (in the order of the nonces)
  consists of the entries for \<open>w\<close> that left the queue, \<open>receive\<close> of the SDK, run on exactly the messages
  that the block wrote to \<open>w\<close>, returns the inclusion of every proof of the burst, in order and without an
  error, all under one Merkle root.
\<close>

theorem posted_batch_answers_every_client:
  assumes "batch_pq (pq N)" "merkle_tree (merkle N)" "speaks N E" "held_inv N [] s" "fee_inv N [] s"
    and "length (queue_items N s) \<le> max_size (batch_state s)"
    and "get_gas_price (eth N) = Inr g" "modified_gas_price g = Some gp"
    and "fees_defined gp (batch_constant_cost N) (length (queue_items N s))"
    and "disabled_verifiers_call (eth N) = Inr (disabled_verifiers s)"
    and "handle_new_block N b s = (Ret (Inr ()), t)"
    and "committed N (map fst (queue_items N s))"
    and "\<forall>x \<in> set (queue_items N s). messaging_sink (fst x) = Some w \<longrightarrow> sender (fst x) = a"
    and "sorted_wrt (<) (map nonce nvds)" "nvds \<noteq> []"
    and "set nvds = nonced_verification_data ` {e \<in> fst ` set (queue_items N s) - fst ` set (queue_items N t).
            messaging_sink e = Some w}"
  shows "\<exists>out avds root. outbox t = outbox s @ out \<and>
    receive E (to_client N w out) (rev (map Inr nvds)) = map Inr avds \<and> list_all2 (included E root) nvds avds"
proof -
  note spec = batcher_queue.new_block_spec [OF batcher_queue.intro [OF assms(1)] assms(4,6-11)]
  have "mset (queue_items N t) \<noteq> mset (queue_items N s)"
  proof
    assume "mset (queue_items N t) = mset (queue_items N s)"
    then show False using assms(15,16) mset_eq_set [of "queue_items N t" "queue_items N s"] by simp
  qed
  then obtain batch m where b: "batch_ready N gp batch" "outbox m = outbox s" "cycle_outcome N gp batch m (Inr ()) t"
    "mset (queue_items N s) = mset (items_of batch) + mset (queue_items N m)"
    using spec by blast
  then obtain tr out where c: "batch_state t = batch_state m" "task_created N gp batch tr" "outbox t = outbox m @ out"
    "list_all2 (answers N tr) (rev (enumerate 0 batch)) out"
    by (auto simp: cycle_outcome_def)
  have q: "mset (queue_items N s) = mset (items_of batch @ queue_items N t)" using b(4) c(1) by simp
  note sets = mset_eq_set [OF q]
  have "distinct (map (entry_key \<circ> fst) (items_of batch @ queue_items N t))"
    using assms(4) unfolding held_inv_def books_ok_def append_Nil2 distinct_map_mset [OF q] by blast
  note keys = distinct_keys_entries [OF this]
  have ents: "fst ` set (queue_items N s) - fst ` set (queue_items N t) = set batch"
    using keys(2) sets by (auto simp: items_of_def image_Un image_image)
  have fo: "fee_order (items_of batch)"
    using assms(5) sets by (auto simp: fee_inv_def fees_ok_def fee_order_def)
  have "set batch \<subseteq> set (map fst (queue_items N s))" using ents by auto
  then have co: "committed N batch" using assms(12) unfolding committed_def by blast
  let ?es = "filter (\<lambda>e. messaging_sink e = Some w) (rev batch)"
  have "sender e = a" if "e \<in> set batch" "messaging_sink e = Some w" for e
  proof -
    have "e \<in> fst ` set (queue_items N s)" using that(1) ents by blast
    then obtain x where "x \<in> set (queue_items N s)" "e = fst x" by blast
    then show ?thesis using that(2) assms(13) by blast
  qed
  then have "sorted_wrt (<) (map entry_nonce ?es)" by (rule answers_ascending [OF b(1) fo keys(1)])
  then have nvds: "nvds = map nonced_verification_data ?es"
    using assms(14,16) ents by (intro strictly_sorted_map_unique [of nonce]) (auto simp: comp_def)
  have "mt_build (merkle N) (map verification_data_commitment batch) = Some tr" using c(2) by (simp add: task_created_def)
  from merkle_tree.batch_answers_client [OF assms(2,3) refl this co c(4) nvds assms(14,15)]
  show ?thesis using c(3) b(2) by auto
qed

text \<open>The sample block, seen from the client that submitted its proof.\<close>

definition sample_client :: "VerificationDataCommitment list sdk_env" where
  "sample_client = \<lparr> wallet_chain_id = 1, sign_typed_data = (\<lambda>_. None), cbor_client_message = (\<lambda>_. None),
     cbor_submit_response = (\<lambda>_. Some (BatchInclusion sample_inclusion)),
     cbor_nonce_response = (\<lambda>_. None), cbor_fee_response = (\<lambda>_. None), ws_connect = (\<lambda>_. Inr []),
     ws_send = (\<lambda>_. Inr ()), ws_close = Inr (), sdk_merkle = sample_merkle, sdk_keccak = id,
     parse_addr = (\<lambda>_. Some 5), display_addr = (\<lambda>_. []), sdk_provider = (\<lambda>_. Inr ()), rpc_get_code = (\<lambda>_. Inr [1]),
     call_verify_inclusion = (\<lambda>_ _ _ _ _ _. Inr True), sdk_gas_price = Inr 1, sdk_user_nonces = (\<lambda>_. Inr 0) \<rparr>"

lemma sample_speaks: "speaks sample_env sample_client" "merkle_tree sample_merkle"
  by (auto simp: speaks_def sample_client_def split: if_splits)
    (unfold_locales, auto simp: sample_merkle_def split: if_splits)

theorem posted_batch_answers_every_client_witness:
  "\<exists>t out avds root. handle_new_block sample_env 5 sample_one = (Ret (Inr ()), t) \<and> outbox t = outbox sample_one @ out \<and>
     receive sample_client (to_client sample_env 1 out) (rev (map Inr [nonced_verification_data (sample_entry 1 0 600000)])) =
       map Inr avds \<and>
     list_all2 (included sample_client root) [nonced_verification_data (sample_entry 1 0 600000)] avds"
proof -
  obtain t where t: "handle_new_block sample_env 5 sample_one = (Ret (Inr ()), t)"
      "batch_state t = \<lparr> batch_queue = [], max_size = 10 \<rparr>" using sample_new_block by blast
  have "committed sample_env (map fst (queue_items sample_env sample_one))"
    by (simp add: committed_def sample_defs nonced_into_commitment_def)
  moreover have "{e. e = sample_entry 1 0 600000 \<and> messaging_sink e = Some (Suc 0)} = {sample_entry 1 0 600000}" by auto
  ultimately show ?thesis
    using posted_batch_answers_every_client [OF sample_batch_pq _ sample_speaks(1) sample_one_inv _ _ sample_gas(1) _ _ t(1),
        of 1 1 "[nonced_verification_data (sample_entry 1 0 600000)]"] sample_speaks(2) sample_gas(3) t
    by simp
qed

end
