(* ===== verification/Sdk_Account.thy ===== *)
theory Sdk_Account
  imports Sdk_Client
begin

text \<open>
  The account of a user at the payment service, and the files of an accepted proof: the rest of
  \<open>sdk/src/verification_layer/mod.rs\<close>. Transactions, contract calls, files, JSON and hex encoding are
  parameters (\<open>account_env\<close>). As in the client, \<open>None\<close> is a panic: an invalid address of the network, or
  a number that does not fit.
\<close>

section \<open>Errors\<close>

datatype PaymentError = PE_SendError string | PE_SubmitError string | PE_PaymentFailed

datatype BalanceError = BE_EthereumProvider string | BE_EthereumCall string

datatype ChainIdError = CE_EthereumProvider string | CE_EthereumCall string

datatype FileError = FE_Io string string | FE_Serialization

fun file_error_display :: "FileError \<Rightarrow> string" where
  "file_error_display (FE_Io path e) = ''IO error: '' @ path @ '': '' @ e"
| "file_error_display FE_Serialization = ''Serialization error: Serialization error''"

fun chain_id_error_display :: "ChainIdError \<Rightarrow> string" where
  "chain_id_error_display (CE_EthereumProvider e) = ''Ethereum provider error: '' @ e"
| "chain_id_error_display (CE_EthereumCall e) = ''Ethereum call error: '' @ e"

section \<open>Environment\<close>

text \<open>
  A transaction, as it is sent to the payment service. Sending fails, or yields a pending transaction;
  waiting for it fails, or yields the receipt, if there is one.
\<close>

datatype payment_tx =
    DepositTx address u256
  | UnlockTx address
  | LockTx address
  | WithdrawTx address u256

datatype json = JString string | JNumber nat

record 'r account_env =
  send_tx :: "payment_tx \<Rightarrow> string + (string + 'r option)"
  call_user_balances :: "address \<Rightarrow> string + u256"
  call_user_unlock_block :: "address \<Rightarrow> string + u256"
  rpc_chain_id :: "string + u256"
  hex_of :: "bytes \<Rightarrow> string"
  path_join :: "string \<Rightarrow> string \<Rightarrow> string"
  cbor_avd :: "AlignedVerificationData \<Rightarrow> bytes option"
  json_pretty :: "(string \<times> json) list \<Rightarrow> bytes"
  create_file :: "string \<Rightarrow> string + unit"
  write_file :: "string \<Rightarrow> bytes \<Rightarrow> bytes \<times> (string + unit)"

section \<open>Payments\<close>

definition finish_payment :: "PaymentError \<Rightarrow> string + (string + 'r option) \<Rightarrow> PaymentError + 'r" where
  "finish_payment missing sent =
     (case sent of
        Inl e \<Rightarrow> Inl (PE_SendError e)
      | Inr (Inl e) \<Rightarrow> Inl (PE_SubmitError e)
      | Inr (Inr None) \<Rightarrow> Inl missing
      | Inr (Inr (Some receipt)) \<Rightarrow> Inr receipt)"

definition deposit_to_aligned ::
    "'t sdk_env \<Rightarrow> 'r account_env \<Rightarrow> u256 \<Rightarrow> Network \<Rightarrow> (PaymentError + 'r) option" where
  "deposit_to_aligned E A amount network =
     map_option (\<lambda>addr. finish_payment PE_PaymentFailed (send_tx A (DepositTx addr amount)))
       (get_batcher_payment_service_address (parse_addr E) network)"

definition unlock_balance_in_aligned ::
    "'t sdk_env \<Rightarrow> 'r account_env \<Rightarrow> Network \<Rightarrow> (PaymentError + 'r) option" where
  "unlock_balance_in_aligned E A network =
     map_option (\<lambda>addr. finish_payment (PE_SubmitError []) (send_tx A (UnlockTx addr)))
       (get_batcher_payment_service_address (parse_addr E) network)"

definition lock_balance_in_aligned ::
    "'t sdk_env \<Rightarrow> 'r account_env \<Rightarrow> Network \<Rightarrow> (PaymentError + 'r) option" where
  "lock_balance_in_aligned E A network =
     map_option (\<lambda>addr. finish_payment (PE_SubmitError []) (send_tx A (LockTx addr)))
       (get_batcher_payment_service_address (parse_addr E) network)"

definition withdraw_balance_from_aligned ::
    "'t sdk_env \<Rightarrow> 'r account_env \<Rightarrow> Network \<Rightarrow> u256 \<Rightarrow> (PaymentError + 'r) option" where
  "withdraw_balance_from_aligned E A network amount =
     map_option (\<lambda>addr. finish_payment (PE_SubmitError []) (send_tx A (WithdrawTx addr amount)))
       (get_batcher_payment_service_address (parse_addr E) network)"

section \<open>Queries\<close>

definition get_balance_in_aligned ::
    "'t sdk_env \<Rightarrow> 'r account_env \<Rightarrow> address \<Rightarrow> string \<Rightarrow> Network \<Rightarrow> (BalanceError + u256) option" where
  "get_balance_in_aligned E A user rpc_url network =
     (case sdk_provider E rpc_url of
        Inl e \<Rightarrow> Some (Inl (BE_EthereumProvider e))
      | Inr _ \<Rightarrow>
        map_option (\<lambda>addr.
            case batcher_payment_service E addr of
              Inl e \<Rightarrow> Inl (BE_EthereumCall (verification_error_display (display_addr E) e))
            | Inr _ \<Rightarrow> (case call_user_balances A user of Inl e \<Rightarrow> Inl (BE_EthereumCall e) | Inr b \<Rightarrow> Inr b))
          (get_batcher_payment_service_address (parse_addr E) network))"

definition get_unlock_block_time ::
    "'t sdk_env \<Rightarrow> 'r account_env \<Rightarrow> address \<Rightarrow> string \<Rightarrow> Network \<Rightarrow> (BalanceError + u64) option" where
  "get_unlock_block_time E A user rpc_url network =
     (case sdk_provider E rpc_url of
        Inl e \<Rightarrow> Some (Inl (BE_EthereumProvider e))
      | Inr _ \<Rightarrow>
        Option.bind (get_batcher_payment_service_address (parse_addr E) network) (\<lambda>addr.
        case batcher_payment_service E addr of
          Inl e \<Rightarrow> Some (Inl (BE_EthereumCall (verification_error_display (display_addr E) e)))
        | Inr _ \<Rightarrow>
          (case call_user_unlock_block A user of
             Inl e \<Rightarrow> Some (Inl (BE_EthereumCall e))
           | Inr n \<Rightarrow> map_option Inr (as_u64 n))))"

definition get_chain_id :: "'t sdk_env \<Rightarrow> 'r account_env \<Rightarrow> string \<Rightarrow> (ChainIdError + u64) option" where
  "get_chain_id E A rpc_url =
     (case sdk_provider E rpc_url of
        Inl e \<Rightarrow> Some (Inl (CE_EthereumProvider e))
      | Inr _ \<Rightarrow>
        (case rpc_chain_id A of
           Inl e \<Rightarrow> Some (Inl (CE_EthereumCall e))
         | Inr n \<Rightarrow> map_option Inr (as_u64 n)))"

section \<open>Saving the response\<close>

type_synonym files = "string \<rightharpoonup> bytes"

text \<open>The name of a file: eight hex digits of the root, the index in the batch, and the suffix.\<close>

definition response_file_name :: "'r account_env \<Rightarrow> AlignedVerificationData \<Rightarrow> string \<Rightarrow> string option" where
  "response_file_name A avd suffix =
     (let root = hex_of A (avd_batch_merkle_root avd) in
      if length root < 8 then None
      else Some (take 8 root @ ''_'' @ nat_display (avd_index_in_batch avd) @ suffix))"

text \<open>\<open>File::create\<close> truncates; a failing \<open>write_all\<close> may have written a part.\<close>

definition create_and_write ::
    "'r account_env \<Rightarrow> string \<Rightarrow> bytes \<Rightarrow> files \<Rightarrow> (FileError + unit) \<times> files" where
  "create_and_write A path data fs =
     (case create_file A path of
        Inl e \<Rightarrow> (Inl (FE_Io [] e), fs)
      | Inr _ \<Rightarrow>
        (case write_file A path data of
           (written, Inl e) \<Rightarrow> (Inl (FE_Io [] e), fs(path \<mapsto> written))
         | (_, Inr _) \<Rightarrow> (Inr (), fs(path \<mapsto> data))))"

definition save_response_cbor ::
    "'r account_env \<Rightarrow> string \<Rightarrow> AlignedVerificationData \<Rightarrow> files \<Rightarrow> ((FileError + unit) \<times> files) option" where
  "save_response_cbor A dir avd fs =
     map_option (\<lambda>name.
         case cbor_avd A avd of
           None \<Rightarrow> (Inl FE_Serialization, fs)
         | Some data \<Rightarrow> create_and_write A (path_join A dir name) data fs)
       (response_file_name A avd ''.cbor'')"

definition response_json :: "'r account_env \<Rightarrow> AlignedVerificationData \<Rightarrow> (string \<times> json) list" where
  "response_json A avd =
     (let vdc = avd_verification_data_commitment avd in
      [(''proof_commitment'', JString (hex_of A (proof_commitment vdc))),
       (''pub_input_commitment'', JString (hex_of A (pub_input_commitment vdc))),
       (''program_id_commitment'', JString (hex_of A (proving_system_aux_data_commitment vdc))),
       (''proof_generator_addr'', JString (hex_of A (vdc_proof_generator_addr vdc))),
       (''batch_merkle_root'', JString (hex_of A (avd_batch_merkle_root avd))),
       (''verification_data_batch_index'', JNumber (avd_index_in_batch avd)),
       (''merkle_proof'', JString (concat (map (hex_of A) (avd_batch_inclusion_proof avd))))])"

definition save_response_json ::
    "'r account_env \<Rightarrow> string \<Rightarrow> AlignedVerificationData \<Rightarrow> files \<Rightarrow> ((FileError + unit) \<times> files) option" where
  "save_response_json A dir avd fs =
     map_option (\<lambda>name. create_and_write A (path_join A dir name) (json_pretty A (response_json A avd)) fs)
       (response_file_name A avd ''.json'')"

definition save_response ::
    "'r account_env \<Rightarrow> string \<Rightarrow> AlignedVerificationData \<Rightarrow> files \<Rightarrow> ((FileError + unit) \<times> files) option" where
  "save_response A dir avd fs =
     Option.bind (save_response_cbor A dir avd fs) (\<lambda>(r, fs).
     case r of Inl e \<Rightarrow> Some (Inl e, fs) | Inr _ \<Rightarrow> save_response_json A dir avd fs)"

end
