(* ===== verification/Agg_Types.thy ===== *)
theory Agg_Types
  imports Merkle_Tree "HOL-Library.List_Lexorder"
begin

text \<open>
  Data of the aggregation mode: the proving systems and the commitments of aggregated proofs, as the SDK
  (\<open>sdk/src/aggregation_layer/types.rs\<close>), the aggregator (\<open>aggregation_mode/src/aggregators\<close>) and the
  programs that run inside the zkVMs (\<open>aggregation_mode/aggregation_programs\<close>) each define them, and the
  commutative hash of the Merkle tree over them.
\<close>

section \<open>The SDK\<close>

datatype AggregationModeProvingSystem = AM_SP1 | AM_RISC0

fun as_u16 :: "AggregationModeProvingSystem \<Rightarrow> u16" where
  "as_u16 AM_SP1 = 1"
| "as_u16 AM_RISC0 = 2"

definition id_bytes :: "AggregationModeProvingSystem \<Rightarrow> bytes" where
  "id_bytes p = be_bytes 2 (as_u16 p)"

definition proving_system_try_from :: "byte \<Rightarrow> AggregationModeProvingSystem option" where
  "proving_system_try_from v = (if v = 0 then Some AM_SP1 else if v = 1 then Some AM_RISC0 else None)"

datatype AggregationModeVerificationData =
    SP1Data (am_vk: bytes) (am_public_inputs: bytes)
  | Risc0Data (am_image_id: bytes) (am_public_inputs: bytes)

fun program_id :: "AggregationModeVerificationData \<Rightarrow> bytes" where
  "program_id (Risc0Data image_id _) = image_id"
| "program_id (SP1Data vk _) = vk"

fun am_proving_system :: "AggregationModeVerificationData \<Rightarrow> AggregationModeProvingSystem" where
  "am_proving_system (SP1Data _ _) = AM_SP1"
| "am_proving_system (Risc0Data _ _) = AM_RISC0"

definition proving_system_id :: "AggregationModeVerificationData \<Rightarrow> u16" where
  "proving_system_id d = as_u16 (am_proving_system d)"

definition proving_system_id_bytes :: "AggregationModeVerificationData \<Rightarrow> bytes" where
  "proving_system_id_bytes d = id_bytes (am_proving_system d)"

fun am_commitment :: "(bytes \<Rightarrow> bytes) \<Rightarrow> AggregationModeVerificationData \<Rightarrow> bytes" where
  "am_commitment keccak (SP1Data vk public_inputs) =
     keccak (proving_system_id_bytes (SP1Data vk public_inputs) @ vk @ public_inputs)"
| "am_commitment keccak (Risc0Data image_id public_inputs) =
     keccak (proving_system_id_bytes (Risc0Data image_id public_inputs) @ image_id @ public_inputs)"

text \<open>\<open>Hash32\<close>: leaves that are hashes already. Arrays of bytes compare lexicographically.\<close>

definition hash32_new_parent :: "(bytes \<Rightarrow> bytes) \<Rightarrow> bytes \<Rightarrow> bytes \<Rightarrow> bytes" where
  "hash32_new_parent keccak child_1 child_2 =
     (if child_1 < child_2 then keccak (child_1 @ child_2) else keccak (child_2 @ child_1))"

section \<open>The aggregation programs\<close>

definition SP1_PROVING_SYSTEM_ID :: u16 where
  "SP1_PROVING_SYSTEM_ID = 1"

record SP1VkAndPubInputs =
  sp1_vk :: "32 word list"
  sp1_public_inputs :: bytes

definition sp1_commitment :: "(bytes \<Rightarrow> bytes) \<Rightarrow> SP1VkAndPubInputs \<Rightarrow> bytes" where
  "sp1_commitment keccak p =
     keccak (be_bytes 2 SP1_PROVING_SYSTEM_ID @ concat (map (be_bytes 4) (sp1_vk p)) @ sp1_public_inputs p)"

definition sp1_hash_new_parent :: "(bytes \<Rightarrow> bytes) \<Rightarrow> bytes \<Rightarrow> bytes \<Rightarrow> bytes" where
  "sp1_hash_new_parent keccak child_1 child_2 =
     (if child_1 < child_2 then keccak (child_1 @ child_2) else keccak (child_2 @ child_1))"

definition sp1_hash32_new_parent :: "(bytes \<Rightarrow> bytes) \<Rightarrow> bytes \<Rightarrow> bytes \<Rightarrow> bytes" where
  "sp1_hash32_new_parent keccak child_1 child_2 =
     (if child_1 < child_2 then keccak (child_1 @ child_2) else keccak (child_2 @ child_1))"

definition RISC0_PROVING_SYSTEM_ID :: u16 where
  "RISC0_PROVING_SYSTEM_ID = 2"

record Risc0ImageIdAndPubInputs =
  r0_image_id :: bytes
  r0_public_inputs :: bytes

definition risc0_commitment :: "(bytes \<Rightarrow> bytes) \<Rightarrow> Risc0ImageIdAndPubInputs \<Rightarrow> bytes" where
  "risc0_commitment keccak p =
     keccak (be_bytes 2 RISC0_PROVING_SYSTEM_ID @ concat (map (be_bytes 1) (r0_image_id p)) @ r0_public_inputs p)"

definition risc0_hash_new_parent :: "(bytes \<Rightarrow> bytes) \<Rightarrow> bytes \<Rightarrow> bytes \<Rightarrow> bytes" where
  "risc0_hash_new_parent keccak child_1 child_2 =
     (if child_1 < child_2 then keccak (child_1 @ child_2) else keccak (child_2 @ child_1))"

definition risc0_hash32_new_parent :: "(bytes \<Rightarrow> bytes) \<Rightarrow> bytes \<Rightarrow> bytes \<Rightarrow> bytes" where
  "risc0_hash32_new_parent keccak child_1 child_2 =
     (if child_1 < child_2 then keccak (child_1 @ child_2) else keccak (child_2 @ child_1))"

section \<open>The aggregator's backend\<close>

definition aligned_hash_new_parent :: "(bytes \<Rightarrow> bytes) \<Rightarrow> bytes \<Rightarrow> bytes \<Rightarrow> bytes" where
  "aligned_hash_new_parent keccak child_1 child_2 =
     (if child_1 < child_2 then keccak (child_1 @ child_2) else keccak (child_2 @ child_1))"

text \<open>All backends combine nodes alike, so their trees over the same leaves are the same.\<close>

lemma backends_agree [simp]:
  "sp1_hash_new_parent = hash32_new_parent" "sp1_hash32_new_parent = hash32_new_parent"
  "risc0_hash_new_parent = hash32_new_parent" "risc0_hash32_new_parent = hash32_new_parent"
  "aligned_hash_new_parent = hash32_new_parent"
  by (simp_all add: fun_eq_iff sp1_hash_new_parent_def sp1_hash32_new_parent_def risc0_hash_new_parent_def
      risc0_hash32_new_parent_def aligned_hash_new_parent_def hash32_new_parent_def)

lemma hash32_new_parent_commute: "hash32_new_parent K a b = hash32_new_parent K b a"
  by (auto simp: hash32_new_parent_def)

text \<open>The commitments of the programs are those of the SDK.\<close>

lemma be_bytes_1 [simp]: "be_bytes (Suc 0) (b :: byte) = [b]"
  by (simp add: be_bytes_def)

lemma concat_be_bytes_1 [simp]: "concat (map (be_bytes (Suc 0)) (bs :: bytes)) = bs"
  by (induction bs) simp_all

lemma sp1_commitment_sdk:
  "sp1_commitment K p = am_commitment K (SP1Data (concat (map (be_bytes 4) (sp1_vk p))) (sp1_public_inputs p))"
  by (simp add: sp1_commitment_def proving_system_id_bytes_def id_bytes_def SP1_PROVING_SYSTEM_ID_def)

lemma risc0_commitment_sdk:
  "risc0_commitment K p = am_commitment K (Risc0Data (r0_image_id p) (r0_public_inputs p))"
  by (simp add: risc0_commitment_def proving_system_id_bytes_def id_bytes_def RISC0_PROVING_SYSTEM_ID_def)

section \<open>Chunks of a slice\<close>

text \<open>\<open>slice::chunks\<close>, for a positive chunk size.\<close>

function chunks :: "nat \<Rightarrow> 'a list \<Rightarrow> 'a list list" where
  "chunks n xs = (if n = 0 \<or> xs = [] then [] else take n xs # chunks n (drop n xs))"
  by pat_completeness auto
termination by (relation "measure (length \<circ> snd)") auto

declare chunks.simps [simp del]

lemma chunks_Nil [simp]: "chunks n [] = []"
  by (simp add: chunks.simps)

lemma concat_chunks [simp]: "0 < n \<Longrightarrow> concat (chunks n xs) = xs"
proof (induction n xs rule: chunks.induct)
  case (1 n xs)
  then show ?case by (subst chunks.simps) simp
qed

lemma chunks_nonempty: "0 < n \<Longrightarrow> c \<in> set (chunks n xs) \<Longrightarrow> c \<noteq> [] \<and> length c \<le> n"
proof (induction n xs rule: chunks.induct)
  case (1 n xs)
  then show ?case by (subst (asm) (2) chunks.simps) (auto split: if_splits)
qed

lemma length_chunks: "0 < n \<Longrightarrow> length (chunks n xs) = (length xs + n - 1) div n"
proof (induction n xs rule: chunks.induct)
  case (1 n xs)
  show ?case
  proof (cases "xs = []")
    case False
    have "(length xs + n - 1) div n = Suc ((length xs - n + n - 1) div n)"
    proof (cases "length xs \<le> n")
      case True
      moreover have "1 \<le> length xs" using False by (cases xs) auto
      ultimately have "(length xs + n - 1) div n = 1" using "1.prems" by (intro div_nat_eqI) auto
      then show ?thesis using True 1 by simp
    next
      case False
      then have "length xs + n - 1 = (length xs - n + n - 1) + n" by simp
      then show ?thesis using 1 by (metis Suc_eq_plus1 div_add_self2 less_irrefl)
    qed
    then show ?thesis using False 1 by (subst chunks.simps) simp
  qed (use 1 in simp)
qed

end
