(* ===== verification/Agg_Blob.thy ===== *)
theory Agg_Blob
  imports Agg_Types
begin

text \<open>
  The blob that carries the commitments of an aggregation: how the aggregator lays them out
  (\<open>construct_blob\<close> of \<open>aggregation_mode/src/backend/mod.rs\<close>) and how the SDK reads them back (\<open>decoded_blob\<close>
  of \<open>sdk/src/aggregation_layer/helpers.rs\<close>).
\<close>

section \<open>Writing\<close>

definition BYTES_PER_BLOB :: nat where
  "BYTES_PER_BLOB = 131072"

text \<open>
  The loop over the chunks of 31 bytes. An index or a range outside of the array is a panic: \<open>None\<close>.
\<close>

fun write_chunks :: "nat \<Rightarrow> bytes list \<Rightarrow> bytes \<Rightarrow> bytes option" where
  "write_chunks offset [] blob_data = Some blob_data"
| "write_chunks offset (chunk # rest) blob_data =
     (let start = offset + 1; upto = start + length chunk in
      if length blob_data \<le> offset \<or> length blob_data < upto then None
      else
        let blob_data = blob_data[offset := 0];
            blob_data = take start blob_data @ chunk @ drop upto blob_data in
        write_chunks (offset + 32) rest blob_data)"

definition blob_data_of :: "bytes list \<Rightarrow> bytes option" where
  "blob_data_of leaves = write_chunks 0 (chunks 31 (concat leaves)) (replicate BYTES_PER_BLOB 0)"

section \<open>Reading\<close>

function decode_loop :: "bytes \<Rightarrow> nat \<Rightarrow> bytes \<Rightarrow> nat \<Rightarrow> bytes list \<Rightarrow> bytes list" where
  "decode_loop blob_data pos current_hash cnt proof_hashes =
     (if pos < length blob_data then
        if pos mod 32 = 0 then decode_loop blob_data (pos + 1) current_hash cnt proof_hashes
        else
          let current_hash = current_hash[cnt := blob_data ! pos] in
          if cnt + 1 = 32 then
            if current_hash = zero32 then proof_hashes
            else decode_loop blob_data (pos + 1) zero32 0 (proof_hashes @ [current_hash])
          else decode_loop blob_data (pos + 1) current_hash (cnt + 1) proof_hashes
      else proof_hashes)"
  by pat_completeness auto
termination by (relation "measure (\<lambda>(blob_data, pos, _). length blob_data - pos)") auto

declare decode_loop.simps [simp del]

definition decoded_blob :: "bytes \<Rightarrow> bytes list" where
  "decoded_blob blob_data = decode_loop blob_data 0 zero32 0 []"

section \<open>What the writer produces\<close>

text \<open>A field element: a zero byte and at most 31 bytes of data.\<close>

definition element :: "bytes \<Rightarrow> bytes" where
  "element c = 0 # c @ replicate (31 - length c) 0"

lemma length_element [simp]: "length c \<le> 31 \<Longrightarrow> length (element c) = 32"
  by (simp add: element_def)

lemma write_chunk_eq:
  assumes "length c \<le> 31" "off + 32 \<le> length pre + n" "length pre = off"
  shows "take (off + 1) ((pre @ replicate n 0)[off := 0]) @ c @ drop (off + 1 + length c) ((pre @ replicate n 0)[off := 0]) =
    (pre @ element c) @ replicate (n - 32) (0::byte)"
proof -
  have z: "(pre @ replicate n 0)[off := 0] = pre @ replicate n (0::byte)"
    using assms by (simp add: list_update_append list_update_same_conv)
  have "n = 1 + length c + (31 - length c) + (n - 32)" using assms by simp
  then have r: "replicate n (0::byte) = 0 # replicate (length c) 0 @ replicate (31 - length c) 0 @ replicate (n - 32) 0"
    by (metis append_Cons append_assoc replicate_0 replicate_Suc replicate_add One_nat_def append_Nil)
  show ?thesis unfolding z using assms by (subst (2) r, subst r) (simp add: element_def)
qed

lemma write_chunks_spec:
  assumes "\<And>c. c \<in> set cs \<Longrightarrow> length c \<le> 31" "length pre = off" "32 * length cs \<le> n"
  shows "write_chunks off cs (pre @ replicate n 0) =
    Some (pre @ concat (map element cs) @ replicate (n - 32 * length cs) 0)"
  using assms
proof (induction cs arbitrary: pre off n)
  case (Cons c cs)
  have c: "length c \<le> 31" using Cons.prems by simp
  then have "Suc (length c) \<le> n" using Cons.prems(3) by simp
  then have "write_chunks off (c # cs) (pre @ replicate n 0) = write_chunks (off + 32) cs ((pre @ element c) @ replicate (n - 32) 0)"
    using write_chunk_eq [OF c, of off pre n] Cons.prems c by (simp add: Let_def)
  also have "\<dots> = Some ((pre @ element c) @ concat (map element cs) @ replicate (n - 32 - 32 * length cs) 0)"
    by (rule Cons.IH) (use Cons.prems c in auto)
  finally show ?case by (simp add: diff_diff_eq)
qed simp

text \<open>A chunk that starts beyond the end of the array panics.\<close>

lemma write_chunks_overflow:
  assumes "length blob \<le> off + 32 * k" "k < length cs" "off mod 32 = 0" "length blob mod 32 = 0"
    and "\<And>c. c \<in> set cs \<Longrightarrow> length c \<le> 31"
  shows "write_chunks off cs blob = None"
  using assms
proof (induction cs arbitrary: off blob k)
  case (Cons c cs)
  show ?case
  proof (cases "length blob \<le> off")
    case False
    then obtain j where j: "k = Suc j" using Cons.prems(1) by (cases k) auto
    have "off + 32 \<le> length blob" using False Cons.prems(3,4) by presburger
    then have len: "length (take (off + 1) (blob[off := 0]) @ c @ drop (off + 1 + length c) (blob[off := 0])) = length blob"
      using Cons.prems(5) [of c] by simp
    have "write_chunks (off + 32) cs (take (off + 1) (blob[off := 0]) @ c @ drop (off + 1 + length c) (blob[off := 0])) = None"
      by (rule Cons.IH [of _ _ j]) (use Cons.prems j len in auto)
    then show ?thesis by (simp add: Let_def)
  qed (simp add: Let_def)
qed simp

section \<open>What the reader sees\<close>

text \<open>The bytes from position \<open>pos\<close> on that are not padding.\<close>

definition payload :: "bytes \<Rightarrow> nat \<Rightarrow> bytes" where
  "payload blob pos = nths (drop pos blob) {i. (i + pos) mod 32 \<noteq> 0}"

function unpack :: "bytes \<Rightarrow> bytes list" where
  "unpack bs =
     (if length bs < 32 \<or> take 32 bs = zero32 then [] else take 32 bs # unpack (drop 32 bs))"
  by pat_completeness auto
termination by (relation "measure length") auto

declare unpack.simps [simp del]

lemma payload_step:
  assumes "pos < length blob"
  shows "payload blob pos = (if pos mod 32 = 0 then [] else [blob ! pos]) @ payload blob (Suc pos)"
proof -
  have "drop pos blob = blob ! pos # drop (Suc pos) blob" using assms by (simp add: Cons_nth_drop_Suc)
  then show ?thesis by (simp add: payload_def nths_Cons)
qed

lemma payload_end: "length blob \<le> pos \<Longrightarrow> payload blob pos = []"
  by (simp add: payload_def)

lemma decode_loop_unpack:
  assumes "cnt < 32" "cur = take cnt cur @ replicate (32 - cnt) 0" "length cur = 32"
  shows "decode_loop blob pos cur cnt acc = acc @ unpack (take cnt cur @ payload blob pos)"
  using assms
proof (induction blob pos cur cnt acc rule: decode_loop.induct)
  case (1 blob pos cur cnt acc)
  show ?case
  proof (cases "pos < length blob")
    case False
    then show ?thesis using "1.prems" by (subst decode_loop.simps) (simp add: payload_end unpack.simps)
  next
    case less: True
    show ?thesis
    proof (cases "pos mod 32 = 0")
      case True
      then show ?thesis using "1.IH"(1) [OF less True] "1.prems" less
        by (subst decode_loop.simps) (simp add: payload_step)
    next
      case False
      let ?b = "blob ! pos" and ?cur = "cur[cnt := blob ! pos]"
      have pay: "payload blob pos = ?b # payload blob (Suc pos)" using payload_step [OF less] False by simp
      have t: "take (Suc cnt) ?cur = take cnt cur @ [?b]"
        using "1.prems" by (simp add: take_Suc_conv_app_nth)
      show ?thesis
      proof (cases "cnt + 1 = 32")
        case full: True
        then have whole: "?cur = take cnt cur @ [?b]" using t "1.prems"(3) by simp
        then have u: "unpack (take cnt cur @ payload blob pos) =
            (if ?cur = zero32 then [] else ?cur # unpack (payload blob (Suc pos)))"
          unfolding pay using full "1.prems"(3) by (subst unpack.simps) auto
        show ?thesis
        proof (cases "?cur = zero32")
          case True
          then show ?thesis using u less False full by (subst decode_loop.simps) (simp add: Let_def)
        next
          case nz: False
          have "decode_loop blob (pos + 1) zero32 0 (acc @ [?cur]) =
              (acc @ [?cur]) @ unpack (take 0 zero32 @ payload blob (pos + 1))"
            by (rule "1.IH"(2) [OF less False refl full nz]) (simp_all add: zero32_def)
          then show ?thesis using u less False full nz by (subst decode_loop.simps) (simp add: Let_def)
        qed
      next
        case more: False
        have "?cur = take (cnt + 1) ?cur @ replicate (32 - (cnt + 1)) 0"
        proof -
          have "drop (Suc cnt) cur = replicate (31 - cnt) 0"
            using arg_cong [OF "1.prems"(2), of "drop (Suc cnt)"] "1.prems"(1,3) by simp
          then have "drop (cnt + 1) ?cur = replicate (32 - (cnt + 1)) 0" by simp
          then show ?thesis by (metis append_take_drop_id)
        qed
        then have "decode_loop blob (pos + 1) ?cur (cnt + 1) acc =
            acc @ unpack (take (cnt + 1) ?cur @ payload blob (pos + 1))"
          using "1.prems" more by (intro "1.IH"(3) [OF less False refl more]) simp_all
        then show ?thesis using t pay less False more by (subst decode_loop.simps) (simp add: Let_def)
      qed
    qed
  qed
qed

lemma decoded_blob_unpack: "decoded_blob blob = unpack (payload blob 0)"
  by (simp add: decoded_blob_def decode_loop_unpack zero32_def)

lemma payload_elements:
  assumes "\<And>c. c \<in> set cs \<Longrightarrow> length c \<le> 31"
  shows "payload (concat (map element cs) @ bs) 0 =
    concat (map (\<lambda>c. c @ replicate (31 - length c) 0) cs) @ payload bs 0"
  using assms
proof (induction cs)
  case (Cons c cs)
  have tail: "nths (c @ replicate (31 - length c) 0) {j. Suc j mod 32 \<noteq> 0} = c @ replicate (31 - length c) (0::byte)"
    using Cons.prems [of c] by (intro nths_all) auto
  have "{j. (j + 32) mod 32 \<noteq> (0::nat)} = {i. i mod 32 \<noteq> 0}" by simp
  then have "payload (element c @ xs) 0 = (c @ replicate (31 - length c) 0) @ payload xs 0" for xs
    using tail Cons.prems [of c] by (simp add: payload_def nths_append element_def nths_Cons)
  then show ?case using Cons by simp
qed simp

lemma payload_zeros: "\<exists>k. payload (replicate n 0) 0 = replicate k 0"
proof -
  have "set (payload (replicate n 0) 0) \<subseteq> {0}" unfolding payload_def using set_nths_subset by fastforce
  then have "payload (replicate n 0) 0 = replicate (length (payload (replicate n 0) 0)) 0"
    by (intro replicate_eqI) auto
  then show ?thesis by blast
qed

text \<open>Only the last chunk of 31 bytes may be shorter, so the padding is all at the end.\<close>

lemma concat_padded_chunks:
  "\<exists>k. concat (map (\<lambda>c. c @ replicate (31 - length c) 0) (chunks 31 xs)) = xs @ replicate k (0::byte)"
proof (induction "31::nat" xs rule: chunks.induct)
  case (1 xs)
  show ?case
  proof (cases "xs = []")
    case False
    then obtain k where k: "concat (map (\<lambda>c. c @ replicate (31 - length c) 0) (chunks 31 (drop 31 xs))) = drop 31 xs @ replicate k 0"
      using 1 by auto
    show ?thesis
    proof (cases "length xs \<le> 31")
      case True
      then show ?thesis using False by (subst chunks.simps) auto
    next
      case long: False
      then have "concat (map (\<lambda>c. c @ replicate (31 - length c) 0) (chunks 31 xs)) = take 31 xs @ drop 31 xs @ replicate k 0"
        using False k by (subst chunks.simps) simp
      then show ?thesis by (metis append_assoc append_take_drop_id)
    qed
  qed simp
qed

lemma unpack_leaves:
  assumes "\<And>l. l \<in> set leaves \<Longrightarrow> length l = 32 \<and> l \<noteq> zero32"
  shows "unpack (concat leaves @ replicate k 0) = leaves"
  using assms
proof (induction leaves)
  case Nil
  then show ?case by (subst unpack.simps) (simp add: zero32_def min_def)
next
  case (Cons l leaves)
  then show ?case by (subst unpack.simps) simp
qed

lemma length_concat_leaves: "(\<And>l. l \<in> set leaves \<Longrightarrow> length l = n) \<Longrightarrow> length (concat leaves) = length leaves * n"
  by (induction leaves) auto

lemma blob_fits_iff:
  assumes "\<And>l. l \<in> set leaves \<Longrightarrow> length l = 32"
  shows "blob_data_of leaves \<noteq> None \<longleftrightarrow> length leaves \<le> 3968"
proof -
  let ?cs = "chunks 31 (concat leaves)"
  have len: "length ?cs = (length leaves * 32 + 30) div 31"
    using length_chunks [of 31 "concat leaves"] length_concat_leaves [OF assms] by simp
  have short: "length c \<le> 31" if "c \<in> set ?cs" for c using chunks_nonempty [OF _ that] by simp
  show ?thesis
  proof (cases "length leaves \<le> 3968")
    case True
    then have "length ?cs \<le> 4096" unfolding len by linarith
    then have "32 * length ?cs \<le> BYTES_PER_BLOB" by (simp add: BYTES_PER_BLOB_def)
    then show ?thesis
      using write_chunks_spec [of ?cs "[]" 0 BYTES_PER_BLOB] short True by (simp add: blob_data_of_def)
  next
    case False
    then have "4096 < length ?cs" unfolding len by linarith
    then show ?thesis
      using write_chunks_overflow [of "replicate BYTES_PER_BLOB 0" 0 4096 ?cs] short False
      by (simp add: blob_data_of_def BYTES_PER_BLOB_def)
  qed
qed

lemma blob_layout:
  assumes "\<And>l. l \<in> set leaves \<Longrightarrow> length l = 32 \<and> l \<noteq> zero32" "length leaves \<le> 3968"
  shows "\<exists>blob. blob_data_of leaves = Some blob \<and> length blob = BYTES_PER_BLOB \<and> decoded_blob blob = leaves"
proof -
  let ?cs = "chunks 31 (concat leaves)" and ?n = "BYTES_PER_BLOB - 32 * length (chunks 31 (concat leaves))"
  have short: "length c \<le> 31" if "c \<in> set ?cs" for c using chunks_nonempty [OF _ that] by simp
  have "length (concat leaves) = length leaves * 32" by (rule length_concat_leaves) (use assms(1) in blast)
  then have "length ?cs \<le> 4096" using length_chunks [of 31 "concat leaves"] assms(2) by linarith
  then have fit: "32 * length ?cs \<le> BYTES_PER_BLOB" by (simp add: BYTES_PER_BLOB_def)
  let ?blob = "concat (map element ?cs) @ replicate ?n 0"
  have w: "blob_data_of leaves = Some ?blob"
    using write_chunks_spec [of ?cs "[]" 0 BYTES_PER_BLOB] short fit by (simp add: blob_data_of_def)
  obtain k j where "payload ?blob 0 = concat leaves @ replicate k 0 @ replicate j 0"
    using payload_elements [OF short] payload_zeros [of ?n] concat_padded_chunks [of "concat leaves"] by fastforce
  then have "decoded_blob ?blob = leaves"
    using unpack_leaves [OF assms(1), of leaves "k + j"] by (simp add: decoded_blob_unpack replicate_add)
  moreover have "length (concat (map element ?cs)) = length ?cs * 32"
    using length_concat_leaves [of "map element ?cs" 32] short length_element by fastforce
  then have "length ?blob = BYTES_PER_BLOB" using fit by simp
  ultimately show ?thesis using w by blast
qed

lemma written_blob_decodes:
  assumes "\<And>l. l \<in> set leaves \<Longrightarrow> length l = 32 \<and> l \<noteq> zero32" "blob_data_of leaves = Some blob"
  shows "decoded_blob blob = leaves"
  using blob_fits_iff [of leaves] blob_layout [of leaves] assms by auto

text \<open>Whatever the leaves, a layout that succeeds is a sequence of field elements and zeros.\<close>

lemma blob_form:
  assumes "blob_data_of leaves = Some blob"
  obtains cs n where "blob = concat (map element cs) @ replicate n 0" "\<And>c. c \<in> set cs \<Longrightarrow> length c \<le> 31"
    "length blob = BYTES_PER_BLOB"
proof -
  let ?cs = "chunks 31 (concat leaves)"
  have short: "length c \<le> 31" if "c \<in> set ?cs" for c using chunks_nonempty [OF _ that] by simp
  have "length ?cs \<le> 4096"
    using write_chunks_overflow [of "replicate BYTES_PER_BLOB 0" 0 4096 ?cs] short assms
    by (auto simp: blob_data_of_def BYTES_PER_BLOB_def not_le [symmetric])
  then have fit: "32 * length ?cs \<le> BYTES_PER_BLOB" by (simp add: BYTES_PER_BLOB_def)
  then have blob: "blob = concat (map element ?cs) @ replicate (BYTES_PER_BLOB - 32 * length ?cs) 0"
    using write_chunks_spec [of ?cs "[]" 0 BYTES_PER_BLOB] short assms by (simp add: blob_data_of_def)
  have "length (concat (map element ?cs)) = length ?cs * 32"
    using length_concat_leaves [of "map element ?cs" 32] short length_element by fastforce
  then show ?thesis using that [OF blob short] blob fit by simp
qed

lemma element_starts:
  assumes "\<And>c. c \<in> set cs \<Longrightarrow> length c \<le> 31" "32 * i < length (concat (map element cs) @ replicate n 0)"
  shows "(concat (map element cs) @ replicate n (0::byte)) ! (32 * i) = 0"
  using assms
proof (induction cs arbitrary: i)
  case (Cons c cs)
  then have len: "length (element c) = 32" by simp
  show ?case
  proof (cases i)
    case 0
    then show ?thesis by (simp add: element_def)
  next
    case (Suc j)
    then have "(concat (map element (c # cs)) @ replicate n 0) ! (32 * i) = (concat (map element cs) @ replicate n 0) ! (32 * j)"
      using len by (simp add: nth_append_right)
    also have "\<dots> = 0" using Cons Suc len by (intro Cons.IH) auto
    finally show ?thesis .
  qed
qed simp

text \<open>
  Claim C39. Every blob that is laid out is well formed, whatever the commitments: it has the size of a blob, and each
  of its 32-byte field elements begins with a zero byte, so that it is below the modulus of the field.
\<close>

theorem blob_is_canonical:
  assumes "blob_data_of leaves = Some blob"
  shows "length blob = BYTES_PER_BLOB \<and> (\<forall>i. 32 * i < length blob \<longrightarrow> blob ! (32 * i) = 0)"
proof (rule blob_form [OF assms])
  fix cs n
  assume "blob = concat (map element cs) @ replicate n 0" "\<And>c. c \<in> set cs \<Longrightarrow> length c \<le> 31" "length blob = BYTES_PER_BLOB"
  then show ?thesis using element_starts [of cs _ n] by simp
qed

theorem blob_is_canonical_witness:
  "\<exists>blob. blob_data_of [replicate 32 255] = Some blob \<and> length blob = BYTES_PER_BLOB \<and> blob ! (32 * 4095) = 0"
proof -
  obtain blob where "blob_data_of [replicate 32 255] = Some blob" using blob_fits_iff [of "[replicate 32 255]"] by auto
  then show ?thesis using blob_is_canonical [of "[replicate 32 255]" blob]
    by (intro exI [of _ blob]) (auto simp: BYTES_PER_BLOB_def dest!: spec [of _ 4095])
qed

text \<open>
  Claim C17. Writing and reading a blob is the identity: whenever the layout of the commitments fits and none
  of them is the zero hash, the SDK decodes from the blob exactly the commitments the aggregator wrote, in
  order.
\<close>

theorem blob_roundtrip:
  assumes "\<And>l. l \<in> set leaves \<Longrightarrow> length l = 32 \<and> l \<noteq> zero32" "length leaves \<le> 3968"
  shows "\<exists>blob. blob_data_of leaves = Some blob \<and> length blob = BYTES_PER_BLOB \<and> decoded_blob blob = leaves"
  by (rule blob_layout [OF assms])

theorem blob_roundtrip_witness:
  "\<exists>blob. blob_data_of [replicate 32 1, replicate 32 2] = Some blob \<and> length blob = BYTES_PER_BLOB \<and>
     decoded_blob blob = [replicate 32 1, replicate 32 2]"
  by (rule blob_roundtrip) (auto simp: zero32_def replicate_eq_replicate)

end
