(* ===== verification/Agg_Client.thy ===== *)
theory Agg_Client
  imports Agg_Blob Sdk_Client Errors
begin

text \<open>
  The SDK on the side of the aggregation mode: the client of the beacon chain (\<open>sdk/src/beacon.rs\<close>), the
  events of aggregated proofs and their blobs (\<open>aggregation_layer/helpers.rs\<close>), and the check whether a
  proof has been aggregated (\<open>aggregation_layer/mod.rs\<close>). HTTP, JSON, Ethereum and hashes are parameters
  (\<open>beacon_env\<close>, \<open>agg_client_env\<close>). A panic is \<open>None\<close>.
\<close>

section \<open>The beacon client\<close>

datatype BeaconClientError =
    BeaconUrl string
  | BeaconReqwest string
  | BeaconApi nat string
  | BeaconDeserialization string

datatype 'j BeaconAPIResponse = BeaconSuccess 'j | BeaconError nat string

record BlobData =
  blob_index :: string
  blob_hex :: string
  kzg_commitment :: string
  kzg_proof :: string
  kzg_commitment_inclusion_proof :: "string list"

record BeaconBlockMessage =
  slot :: string
  proposer_index :: string
  parent_root :: string
  state_root :: string
  body_root :: string

record BeaconBlock =
  block_root :: string
  canonical :: bool
  header_message :: BeaconBlockMessage

record 'j beacon_env =
  beacon_client_url :: string
  url_from_str :: "string \<Rightarrow> string + unit"
  beacon_send :: "string \<Rightarrow> string + bytes"
  beacon_json :: "bytes \<Rightarrow> string + 'j BeaconAPIResponse"
  deserialize_blocks :: "'j \<Rightarrow> string + BeaconBlock list"
  deserialize_blobs :: "'j \<Rightarrow> string + BlobData list"
  beacon_hex :: hex_ops
  beacon_sha256 :: "bytes \<Rightarrow> bytes"

definition KZG_VERSIONED_HASH :: byte where
  "KZG_VERSIONED_HASH = 1"

definition beacon_get :: "'j beacon_env \<Rightarrow> string \<Rightarrow> BeaconClientError + 'j" where
  "beacon_get B path =
     (let url = beacon_client_url B @ path in
      case url_from_str B url of
        Inl e \<Rightarrow> Inl (BeaconUrl e)
      | Inr _ \<Rightarrow>
        (case beacon_send B url of
           Inl e \<Rightarrow> Inl (BeaconReqwest e)
         | Inr res \<Rightarrow>
           (case beacon_json B res of
              Inl e \<Rightarrow> Inl (BeaconReqwest e)
            | Inr (BeaconSuccess data) \<Rightarrow> Inr data
            | Inr (BeaconError code message) \<Rightarrow> Inl (BeaconApi code message))))"

definition get_block_header_from_parent_hash ::
    "'j beacon_env \<Rightarrow> bytes \<Rightarrow> BeaconClientError + BeaconBlock option" where
  "get_block_header_from_parent_hash B parent_block_hash =
     (let parent_block_hash_hex = ''0x'' @ hex_encode (beacon_hex B) parent_block_hash in
      case beacon_get B (''/eth/v1/beacon/headers?parent_root='' @ parent_block_hash_hex) of
        Inl e \<Rightarrow> Inl e
      | Inr data \<Rightarrow>
        (case deserialize_blocks B data of
           Inl e \<Rightarrow> Inl (BeaconDeserialization e)
         | Inr blocks \<Rightarrow> Inr (find (\<lambda>b. parent_root (header_message b) = parent_block_hash_hex) blocks)))"

definition get_blobs_from_slot :: "'j beacon_env \<Rightarrow> u64 \<Rightarrow> BeaconClientError + BlobData list" where
  "get_blobs_from_slot B slot_number =
     (case beacon_get B (''/eth/v1/beacon/blob_sidecars/'' @ nat_display (unat slot_number)) of
        Inl e \<Rightarrow> Inl e
      | Inr data \<Rightarrow>
        (case deserialize_blobs B data of
           Inl e \<Rightarrow> Inl (BeaconDeserialization e)
         | Inr blobs \<Rightarrow> Inr blobs))"

text \<open>\<open>replace("0x", "")\<close>\<close>

fun strip_0x :: "string \<Rightarrow> string" where
  "strip_0x [] = []"
| "strip_0x [c] = [c]"
| "strip_0x (c # d # s) = (if c = CHR ''0'' \<and> d = CHR ''x'' then strip_0x s else c # strip_0x (d # s))"

definition versioned_hash :: "'j beacon_env \<Rightarrow> bytes \<Rightarrow> bytes" where
  "versioned_hash B kzg_commitment_bytes = (beacon_sha256 B kzg_commitment_bytes)[0 := KZG_VERSIONED_HASH]"

text \<open>The search for the blob; a commitment that is not hexadecimal panics.\<close>

fun find_blob :: "'j beacon_env \<Rightarrow> bytes \<Rightarrow> BlobData list \<Rightarrow> BlobData option option" where
  "find_blob B blob_versioned_hash [] = Some None"
| "find_blob B blob_versioned_hash (d # ds) =
     Option.bind (hex_decode (beacon_hex B) (strip_0x (kzg_commitment d))) (\<lambda>kzg_commitment_bytes.
     if versioned_hash B kzg_commitment_bytes = blob_versioned_hash then Some (Some d)
     else find_blob B blob_versioned_hash ds)"

definition get_blob_by_versioned_hash ::
    "'j beacon_env \<Rightarrow> u64 \<Rightarrow> bytes \<Rightarrow> (BeaconClientError + BlobData option) option" where
  "get_blob_by_versioned_hash B slot_number blob_versioned_hash =
     (case get_blobs_from_slot B slot_number of
        Inl e \<Rightarrow> Some (Inl e)
      | Inr res \<Rightarrow> map_option Inr (find_blob B blob_versioned_hash res))"

section \<open>Events\<close>

datatype ProofVerificationAggModeError =
    ProvingSystemNotSupportedInAggMode
  | AggEthereumProviderError string
  | AggBeaconClient BeaconClientError
  | AggEventDecoding
  | AggMerkleTreeConstruction

record event_log =
  log_data :: bytes
  log_topics :: "bytes list"
  log_block_number :: "u64 option"

record ('j, 'n) agg_client_env =
  ac_provider :: "string \<Rightarrow> string + unit"
  ac_block_number :: "string + u64"
  ac_logs :: "address \<Rightarrow> u64 \<Rightarrow> string + event_log list"
  ac_block :: "u64 \<Rightarrow> string + bytes option option"
  ac_beacon :: "string \<Rightarrow> 'j beacon_env"
  ac_parse_addr :: "string \<Rightarrow> address option"
  ac_get_code :: "address \<Rightarrow> string + bytes"
  ac_display_addr :: "address \<Rightarrow> string"
  ac_call_verify :: "bytes list \<Rightarrow> u16 \<Rightarrow> bytes \<Rightarrow> bytes \<Rightarrow> string + bool"
  ac_keccak :: "bytes \<Rightarrow> bytes"
  ac_tree :: "'n node_tree"

definition FROM_BLOCKS_AGO_DEFAULT :: u64 where
  "FROM_BLOCKS_AGO_DEFAULT = 7500"

definition saturating_sub :: "u64 \<Rightarrow> u64 \<Rightarrow> u64" where
  "saturating_sub a b = (if b \<le> a then a - b else 0)"

definition fetch_verified_proofs_events ::
    "('j, 'n) agg_client_env \<Rightarrow> Network \<Rightarrow> string \<Rightarrow> u64 option
     \<Rightarrow> (ProofVerificationAggModeError + event_log list) option" where
  "fetch_verified_proofs_events E network rpc_url from_block =
     (case ac_provider E rpc_url of
        Inl e \<Rightarrow> Some (Inl (AggEthereumProviderError e))
      | Inr _ \<Rightarrow>
        (case (case from_block of
                 Some b \<Rightarrow> Inr b
               | None \<Rightarrow> map_sum id (\<lambda>n. saturating_sub n FROM_BLOCKS_AGO_DEFAULT) (ac_block_number E)) of
           Inl e \<Rightarrow> Some (Inl (AggEthereumProviderError e))
         | Inr b \<Rightarrow>
           map_option (\<lambda>addr. map_sum AggEthereumProviderError id (ac_logs E addr b))
             (get_aligned_proof_agg_service_address (ac_parse_addr E) network)))"

text \<open>\<open>str::parse::<u64>\<close>\<close>

definition is_digit :: "char \<Rightarrow> bool" where
  "is_digit c = (48 \<le> (of_char c :: nat) \<and> of_char c \<le> (57 :: nat))"

definition parse_u64 :: "string \<Rightarrow> u64 option" where
  "parse_u64 s =
     (let ds = (if s \<noteq> [] \<and> hd s = CHR ''+'' then tl s else s);
          n = foldl (\<lambda>n c. 10 * n + (of_char c - 48)) (0 :: nat) ds in
      if ds = [] \<or> \<not> list_all is_digit ds \<or> 2 ^ 64 \<le> n then None else Some (of_nat n))"

definition get_blob_data_from_verified_proof_event ::
    "('j, 'n) agg_client_env \<Rightarrow> string \<Rightarrow> string \<Rightarrow> event_log
     \<Rightarrow> (ProofVerificationAggModeError + (bytes \<times> bytes list)) option" where
  "get_blob_data_from_verified_proof_event E rpc_url beacon_url l =
     (case ac_provider E rpc_url of
        Inl e \<Rightarrow> Some (Inl (AggEthereumProviderError e))
      | Inr _ \<Rightarrow>
        let B = ac_beacon E beacon_url in
        if length (log_data l) < 32 \<or> length (log_topics l) < 2 then None
        else
          let blob_versioned_hash = take 32 (log_data l); merkle_root = log_topics l ! 1 in
          case log_block_number l of
            None \<Rightarrow> Some (Inl AggEventDecoding)
          | Some block_number \<Rightarrow>
            (case ac_block E block_number of
               Inl e \<Rightarrow> Some (Inl (AggEthereumProviderError e))
             | Inr None \<Rightarrow> Some (Inl AggEventDecoding)
             | Inr (Some None) \<Rightarrow> Some (Inl AggEventDecoding)
             | Inr (Some (Some beacon_parent_root)) \<Rightarrow>
               (case get_block_header_from_parent_hash B beacon_parent_root of
                  Inl e \<Rightarrow> Some (Inl (AggBeaconClient e))
                | Inr None \<Rightarrow> Some (Inl AggEventDecoding)
                | Inr (Some beacon_block) \<Rightarrow>
                  Option.bind (parse_u64 (slot (header_message beacon_block))) (\<lambda>slot_number.
                  Option.bind (get_blob_by_versioned_hash B slot_number blob_versioned_hash) (\<lambda>r.
                  case r of
                    Inl e \<Rightarrow> Some (Inl (AggBeaconClient e))
                  | Inr None \<Rightarrow> Some (Inl AggEventDecoding)
                  | Inr (Some blob_data) \<Rightarrow>
                    map_option (\<lambda>blob_bytes. Inr (merkle_root, decoded_blob blob_bytes))
                      (hex_decode (beacon_hex B) (strip_0x (blob_hex blob_data))))))))"

section \<open>Checking a proof\<close>

datatype ProofStatus = Verified bytes "bytes list" | Invalid | NotFound

fun position :: "('a \<Rightarrow> bool) \<Rightarrow> 'a list \<Rightarrow> nat option" where
  "position P [] = None"
| "position P (x # xs) = (if P x then Some 0 else map_option Suc (position P xs))"

fun check_logs ::
    "('j, 'n) agg_client_env \<Rightarrow> string \<Rightarrow> string \<Rightarrow> bytes \<Rightarrow> event_log list
     \<Rightarrow> (ProofVerificationAggModeError + ProofStatus) option" where
  "check_logs E rpc_url beacon_url proof_hash [] = Some (Inr NotFound)"
| "check_logs E rpc_url beacon_url proof_hash (l # logs) =
     Option.bind (get_blob_data_from_verified_proof_event E rpc_url beacon_url l) (\<lambda>r.
     case r of
       Inl e \<Rightarrow> Some (Inl e)
     | Inr (merkle_root, leaves) \<Rightarrow>
       (case position (\<lambda>p. p = proof_hash) leaves of
          None \<Rightarrow> check_logs E rpc_url beacon_url proof_hash logs
        | Some pos \<Rightarrow>
          (case nt_build (ac_tree E) (hash32_new_parent (ac_keccak E)) leaves of
             None \<Rightarrow> check_logs E rpc_url beacon_url proof_hash logs
           | Some t \<Rightarrow>
             (case nt_proof_by_pos (ac_tree E) t pos of
                None \<Rightarrow> check_logs E rpc_url beacon_url proof_hash logs
              | Some merkle_path \<Rightarrow>
                if nt_verify (ac_tree E) (hash32_new_parent (ac_keccak E)) merkle_path merkle_root pos proof_hash
                then Some (Inr (Verified merkle_root merkle_path))
                else Some (Inr Invalid)))))"

definition check_proof_verification ::
    "('j, 'n) agg_client_env \<Rightarrow> AggregationModeVerificationData \<Rightarrow> Network \<Rightarrow> string \<Rightarrow> string \<Rightarrow> u64 option
     \<Rightarrow> (ProofVerificationAggModeError + ProofStatus) option" where
  "check_proof_verification E d network rpc_url beacon_url from_block =
     Option.bind (fetch_verified_proofs_events E network rpc_url from_block) (\<lambda>r.
     case r of
       Inl e \<Rightarrow> Some (Inl e)
     | Inr logs \<Rightarrow> check_logs E rpc_url beacon_url (am_commitment (ac_keccak E) d) logs)"

definition aligned_proof_aggregation_service ::
    "('j, 'n) agg_client_env \<Rightarrow> address \<Rightarrow> VerificationError + unit" where
  "aligned_proof_aggregation_service E addr =
     (case ac_get_code E addr of
        Inl e \<Rightarrow> Inl (VE_EthereumProvider e)
      | Inr code \<Rightarrow> if code = [] then Inl (VE_EthereumNotAContract addr) else Inr ())"

definition is_proof_verified_on_chain ::
    "('j, 'n) agg_client_env \<Rightarrow> AggregationModeVerificationData \<Rightarrow> bytes list \<Rightarrow> Network \<Rightarrow> string
     \<Rightarrow> (ProofVerificationAggModeError + bool) option" where
  "is_proof_verified_on_chain E d merkle_path network rpc_url =
     (case ac_provider E rpc_url of
        Inl e \<Rightarrow> Some (Inl (AggEthereumProviderError e))
      | Inr _ \<Rightarrow>
        map_option (\<lambda>addr.
            case aligned_proof_aggregation_service E addr of
              Inl e \<Rightarrow> Inl (AggEthereumProviderError (verification_error_display (ac_display_addr E) e))
            | Inr _ \<Rightarrow>
              map_sum AggEthereumProviderError id
                (ac_call_verify E merkle_path (proving_system_id d) (program_id d) (am_public_inputs d)))
          (get_aligned_proof_agg_service_address (ac_parse_addr E) network))"

end
