(* ===== verification/Cli.thy ===== *)
theory Cli
  imports Sdk_Account Agg_Client
begin

text \<open>
  The command line client (\<open>cli/src/main.rs\<close>): its arguments, the assembly of a proof from files, and the
  commands. The argument parser, the file system, wallets, the clock, number parsing and random addresses are
  parameters (\<open>cli_env\<close>); a command changes files and prints lines (\<open>cli\<close>). Lines that only report progress are
  left out.
\<close>

section \<open>Arguments\<close>

datatype NetworkNameArg = NA_Devnet | NA_Holesky | NA_HoleskyStage | NA_Hoodi | NA_Mainnet | NA_MainnetStage | NA_Sepolia

definition network_name_from_str :: "string \<Rightarrow> string + NetworkNameArg" where
  "network_name_from_str s =
     (if s = ''devnet'' then Inr NA_Devnet
      else if s = ''holesky'' then Inr NA_Holesky
      else if s = ''holesky-stage'' then Inr NA_HoleskyStage
      else if s = ''hoodi'' then Inr NA_Hoodi
      else if s = ''mainnet'' then Inr NA_Mainnet
      else if s = ''mainnet-stage'' then Inr NA_MainnetStage
      else if s = ''sepolia'' then Inr NA_Sepolia
      else Inl (''Unknown network. Possible values: devnet, holesky, holesky-stage, hoodi, mainnet, mainnet-stage, '' @
                ''sepolia''))"

record NetworkArg =
  na_network :: "NetworkNameArg option"
  na_aligned_service_manager_address :: "string option"
  na_batcher_payment_service_address :: "string option"
  na_batcher_url :: "string option"

text \<open>\<open>From<NetworkArg>\<close>; \<open>None\<close> is the panic for a custom network with a part missing.\<close>

definition network_from_arg :: "NetworkArg \<Rightarrow> Network option" where
  "network_from_arg a =
     (let network =
        (if na_batcher_url a \<noteq> None \<or> na_aligned_service_manager_address a \<noteq> None \<or>
            na_batcher_payment_service_address a \<noteq> None
         then None else na_network a) in
      case network of
        None \<Rightarrow>
          Option.bind (na_aligned_service_manager_address a) (\<lambda>manager.
          Option.bind (na_batcher_payment_service_address a) (\<lambda>payment.
          map_option (CustomNet manager payment) (na_batcher_url a)))
      | Some NA_Devnet \<Rightarrow> Some Devnet
      | Some NA_Holesky \<Rightarrow> Some Holesky
      | Some NA_HoleskyStage \<Rightarrow> Some HoleskyStage
      | Some NA_Hoodi \<Rightarrow> Some Hoodi
      | Some NA_Mainnet \<Rightarrow> Some Mainnet
      | Some NA_MainnetStage \<Rightarrow> Some MainnetStage
      | Some NA_Sepolia \<Rightarrow> Some Sepolia)"

record PrivateKeyType =
  keystore_path :: "string option"
  private_key :: "string option"

record FeeType =
  ft_max_fee :: "string option"
  custom_fee_estimate :: "nat option"
  instant_fee_estimate :: bool
  default_fee_estimate :: bool

record SubmitArgs =
  sa_eth_rpc_url :: string
  proving_system_flag :: ProvingSystemId
  proof_file_name :: string
  pub_input_file_name :: "string option"
  verification_key_file_name :: "string option"
  vm_program_code_file_name :: "string option"
  repetitions :: nat
  sa_proof_generator_addr :: string
  batch_inclusion_data_directory_path :: string
  sa_private_key_type :: PrivateKeyType
  sa_nonce :: "string option"
  sa_network :: NetworkArg
  fee_type :: FeeType
  random_address :: bool

section \<open>Environment\<close>

datatype AlignedError =
    AE_Submit SubmitError
  | AE_Verification VerificationError
  | AE_ChainId ChainIdError
  | AE_FeeEstimate FeeEstimateError
  | AE_File FileError

text \<open>
  What signs with a wallet is the environment \<open>signer_sdk\<close> or \<open>signer_account\<close> of the wallet on a chain; the
  order in which a set of roots is printed is that of the library.
\<close>

record ('t, 'r, 'j, 'n, 'w) cli_env =
  fs_read :: "string \<Rightarrow> string + bytes"
  create_dir_all :: "string \<Rightarrow> string + unit"
  prompt_password :: "string + string"
  decrypt_keystore :: "string \<Rightarrow> string \<Rightarrow> string + 'w"
  parse_private_key :: "string \<Rightarrow> string + 'w"
  wallet_address :: "'w \<Rightarrow> address"
  signer_sdk :: "'w \<Rightarrow> u64 \<Rightarrow> 't sdk_env"
  signer_account :: "'w \<Rightarrow> u64 \<Rightarrow> 'r account_env"
  cli_sdk :: "'t sdk_env"
  cli_account :: "'r account_env"
  cli_agg :: "('j, 'n) agg_client_env"
  parse_ether :: "string \<Rightarrow> string + u256"
  from_dec_str :: "string \<Rightarrow> u256 option"
  address_from_str :: "string \<Rightarrow> string + address"
  random_addr :: "nat \<Rightarrow> address"
  json_strings :: "bytes \<Rightarrow> string + string list"
  cbor_avd_from :: "bytes \<Rightarrow> AlignedVerificationData option"
  timestamp :: u64
  utc_time :: "u64 \<Rightarrow> string option"
  utc_now :: "string option"
  root_order :: "bytes list \<Rightarrow> bytes list"

datatype 'r cli_line =
    MaxFeeLine u256
  | MissingKeyLine
  | NonceLine u256
  | SubmittedLine bytes
  | SubmitErrorLine SubmitError
  | HintLine SubmitError
  | ExplorerLine string
  | IncludedLine bool
  | CommitmentLine bytes
  | AmountFormatLine
  | MaxFeeFormatLine
  | ReceiptLine 'r
  | PaymentErrorLine PaymentError
  | BalanceErrorLine BalanceError
  | FundsLockedLine
  | StillLockedLine u64 string string
  | BalanceLine address u256
  | UserNonceLine address u256
  | NonceErrorLine GetNonceError
  | LastMaxFeeLine address u256
  | LastMaxFeeErrorLine GetLastMaxFeeError
  | QueuedProofsLine address u256
  | NoPublicInputLine
  | UnsupportedSystemLine
  | AggErrorLine ProofVerificationAggModeError
  | AggStatusLine ProofStatus

record 'r cli =
  cli_files :: files
  cli_out :: "'r cli_line list"

type_synonym 'r command = "'r cli \<Rightarrow> (AlignedError + unit, 'r cli) res"

definition print_line :: "'r cli_line \<Rightarrow> 'r cli \<Rightarrow> 'r cli" where
  "print_line l s = s\<lparr>cli_out := cli_out s @ [l]\<rparr>"

text \<open>The end of a command with a line: it returns without an error.\<close>

definition finish_with :: "'r cli_line \<Rightarrow> 'r command" where
  "finish_with l s = (Ret (Inr ()), print_line l s)"

definition fail_with :: "AlignedError \<Rightarrow> 'r command" where
  "fail_with e s = (Ret (Inl e), s)"

section \<open>Files and proofs\<close>

definition read_file :: "('t, 'r, 'j, 'n, 'w) cli_env \<Rightarrow> string \<Rightarrow> SubmitError + bytes" where
  "read_file X file_name = map_sum (SE_Io file_name) id (fs_read X file_name)"

definition read_file_option :: "('t, 'r, 'j, 'n, 'w) cli_env \<Rightarrow> string \<Rightarrow> string option \<Rightarrow> SubmitError + bytes" where
  "read_file_option X param_name file_name =
     (case file_name of
        None \<Rightarrow> Inl (SE_MissingRequiredParameter param_name)
      | Some f \<Rightarrow> read_file X f)"

definition read_optional :: "('t, 'r, 'j, 'n, 'w) cli_env \<Rightarrow> string option \<Rightarrow> SubmitError + bytes option" where
  "read_optional X file_name =
     (case file_name of
        None \<Rightarrow> Inr None
      | Some f \<Rightarrow> map_sum id Some (read_file X f))"

fun encode_circom_pub_inputs :: "(string \<Rightarrow> u256 option) \<Rightarrow> string list \<Rightarrow> bytes option" where
  "encode_circom_pub_inputs from_dec [] = Some []"
| "encode_circom_pub_inputs from_dec (s # rest) =
     Option.bind (from_dec s) (\<lambda>n.
     map_option ((@) (be_bytes 32 n)) (encode_circom_pub_inputs from_dec rest))"

text \<open>The public input, the verification key and the program of a proof, by proving system.\<close>

definition artefacts_from_args ::
    "('t, 'r, 'j, 'n, 'w) cli_env \<Rightarrow> SubmitArgs \<Rightarrow> SubmitError + (bytes option \<times> bytes option \<times> bytes option)" where
  "artefacts_from_args X args =
     (case proving_system_flag args of
        CircomGroth16Bn256 \<Rightarrow>
          (case read_file_option X ''--vk'' (verification_key_file_name args) of
             Inl e \<Rightarrow> Inl e
           | Inr vk \<Rightarrow>
             (case read_file_option X ''--public_input'' (pub_input_file_name args) of
                Inl e \<Rightarrow> Inl e
              | Inr pub_input_file \<Rightarrow>
                (case json_strings X pub_input_file of
                   Inl e \<Rightarrow> Inl (SE_MissingRequiredParameter e)
                 | Inr pub_inputs \<Rightarrow>
                   (case encode_circom_pub_inputs (from_dec_str X) pub_inputs of
                      None \<Rightarrow> Inl (SE_MissingRequiredParameter ''Invalid public inputs'')
                    | Some encoded \<Rightarrow> Inr (Some encoded, Some vk, None)))))
      | system \<Rightarrow>
        if system = SP1 \<or> system = Risc0 then
          (case read_file_option X ''--vm_program'' (vm_program_code_file_name args) of
             Inl e \<Rightarrow> Inl e
           | Inr code \<Rightarrow>
             map_sum id (\<lambda>input. (input, None, Some code)) (read_optional X (pub_input_file_name args)))
        else
          (case read_file_option X ''--vk'' (verification_key_file_name args) of
             Inl e \<Rightarrow> Inl e
           | Inr vk \<Rightarrow>
             map_sum id (\<lambda>input. (Some input, Some vk, None))
               (read_file_option X ''--public_input'' (pub_input_file_name args))))"

definition verification_data_from_args ::
    "('t, 'r, 'j, 'n, 'w) cli_env \<Rightarrow> SubmitArgs \<Rightarrow> SubmitError + VerificationData" where
  "verification_data_from_args X args =
     (case read_file X (proof_file_name args) of
        Inl e \<Rightarrow> Inl e
      | Inr proof \<Rightarrow>
        (case artefacts_from_args X args of
           Inl e \<Rightarrow> Inl e
         | Inr (input, vk, code) \<Rightarrow>
           (case address_from_str X (sa_proof_generator_addr args) of
              Inl e \<Rightarrow> Inl (SE_InvalidEthereumAddress (''Error while parsing address: '' @ e))
            | Inr addr \<Rightarrow>
              Inr \<lparr> proving_system = proving_system_flag args, proof_bytes = proof, pub_input = input,
                    verification_key = vk, vm_program_code = code, proof_generator_addr = addr \<rparr>)))"

section \<open>Fees, wallets, amounts\<close>

definition ends_with :: "string \<Rightarrow> string \<Rightarrow> bool" where
  "ends_with s suffix \<longleftrightarrow> length suffix \<le> length s \<and> drop (length s - length suffix) s = suffix"

text \<open>\<open>replace("ether", "")\<close>\<close>

function remove_ether :: "string \<Rightarrow> string" where
  "remove_ether s =
     (if s = [] then []
      else if take 5 s = ''ether'' then remove_ether (drop 5 s)
      else hd s # remove_ether (tl s))"
  by pat_completeness auto
termination by (relation "measure length") auto

declare remove_ether.simps [simp del]

definition get_max_fee ::
    "('t, 'r, 'j, 'n, 'w) cli_env \<Rightarrow> SubmitArgs \<Rightarrow> 'r cli \<Rightarrow> (AlignedError + u256, 'r cli) res" where
  "get_max_fee X args s =
     (case ft_max_fee (fee_type args) of
        Some fee_text \<Rightarrow>
          if \<not> ends_with fee_text ''ether''
          then (Ret (Inl (AE_FeeEstimate (FE_Parse ''Error while parsing `max_fee`''))), print_line MaxFeeFormatLine s)
          else
            (case parse_ether X (remove_ether fee_text) of
               Inl e \<Rightarrow> (Ret (Inl (AE_FeeEstimate (FE_Parse (''Error while parsing `max_fee`: '' @ e)))), s)
             | Inr wei \<Rightarrow> (Ret (Inr wei), s))
      | None \<Rightarrow>
        let t = (case custom_fee_estimate (fee_type args) of
                   Some n \<Rightarrow> FeeCustom n
                 | None \<Rightarrow> if instant_fee_estimate (fee_type args) then FeeInstant else FeeDefault) in
        or_panic (estimate_fee (cli_sdk X) (sa_eth_rpc_url args) t) s (\<lambda>r.
        (Ret (map_sum AE_FeeEstimate id r), s)))"

text \<open>The wallet named by the arguments, if any.\<close>

definition load_wallet :: "('t, 'r, 'j, 'n, 'w) cli_env \<Rightarrow> PrivateKeyType \<Rightarrow> SubmitError + 'w option" where
  "load_wallet X k =
     (case keystore_path k of
        Some path \<Rightarrow>
          (case prompt_password X of
             Inl e \<Rightarrow> Inl (SE_Generic e)
           | Inr password \<Rightarrow> map_sum SE_Generic Some (decrypt_keystore X path password))
      | None \<Rightarrow>
        (case private_key k of
           Some key \<Rightarrow> map_sum SE_Generic Some (parse_private_key X key)
         | None \<Rightarrow> Inr None))"

definition ANVIL_PRIVATE_KEY :: string where
  "ANVIL_PRIVATE_KEY = ''2a871d0798f97d79848a013d4936a73bf4cc922c825d33c1cf7073dff6d409c6''"

definition chain_id_of :: "('t, 'r, 'j, 'n, 'w) cli_env \<Rightarrow> string \<Rightarrow> (ChainIdError + u64) option" where
  "chain_id_of X rpc_url = get_chain_id (cli_sdk X) (cli_account X) rpc_url"

text \<open>An amount in ether: \<open>Inl\<close> is the error of the command, \<open>Inr None\<close> the wrong format.\<close>

definition amount_in_wei :: "('t, 'r, 'j, 'n, 'w) cli_env \<Rightarrow> string \<Rightarrow> AlignedError + u256 option" where
  "amount_in_wei X amount =
     (if \<not> ends_with amount ''ether'' then Inr None
      else
        case parse_ether X (remove_ether amount) of
          Inl e \<Rightarrow> Inl (AE_Submit (SE_EthereumProvider (''Error while parsing amount: '' @ e)))
        | Inr wei \<Rightarrow> Inr (Some wei))"

section \<open>Submitting\<close>

fun submit_error_of_nonce :: "GetNonceError \<Rightarrow> SubmitError" where
  "submit_error_of_nonce (GN_EthRpc e) = SE_GetNonce e"
| "submit_error_of_nonce (GN_ConnectionFailed e) = SE_Generic e"
| "submit_error_of_nonce (GN_InvalidRequest e) = SE_Generic e"
| "submit_error_of_nonce (GN_Serialization e) = SE_Generic e"
| "submit_error_of_nonce (GN_ProtocolMismatch c x) = SE_ProtocolVersionMismatch c x"
| "submit_error_of_nonce (GN_UnexpectedResponse e) = SE_UnexpectedBatcherResponse e"
| "submit_error_of_nonce (GN_Generic e) = SE_Generic e"

definition submission_nonce ::
    "('t, 'r, 'j, 'n, 'w) cli_env \<Rightarrow> SubmitArgs \<Rightarrow> Network \<Rightarrow> 'w \<Rightarrow> SubmitError + u256" where
  "submission_nonce X args network w =
     (case sa_nonce args of
        Some n \<Rightarrow> (case from_dec_str X n of None \<Rightarrow> Inl SE_InvalidNonce | Some n \<Rightarrow> Inr n)
      | None \<Rightarrow> map_sum submit_error_of_nonce id (get_nonce_from_batcher (cli_sdk X) network (wallet_address X w)))"

definition verification_data_arr :: "('t, 'r, 'j, 'n, 'w) cli_env \<Rightarrow> SubmitArgs \<Rightarrow> VerificationData \<Rightarrow> VerificationData list" where
  "verification_data_arr X args vd =
     (let arr = replicate (repetitions args) vd in
      if random_address args
      then map (\<lambda>(i, vd). vd\<lparr>proof_generator_addr := random_addr X i\<rparr>) (enumerate 0 arr)
      else arr)"

text \<open>The errors with a hint for the user.\<close>

definition handle_submit_err :: "SubmitError \<Rightarrow> 'r cli \<Rightarrow> 'r cli" where
  "handle_submit_err e s =
     (case e of
        SE_InvalidNonce \<Rightarrow> print_line (HintLine e) s
      | SE_ProofQueueFlushed \<Rightarrow> print_line (HintLine e) s
      | SE_InvalidProof _ \<Rightarrow> print_line (HintLine e) s
      | SE_InsufficientBalance _ \<Rightarrow> print_line (HintLine e) s
      | _ \<Rightarrow> s)"

text \<open>
  The loop over the results: the roots of the batches, \<open>None\<close> after an error, at which the command ends
  without one of its own.
\<close>

fun save_results ::
    "('t, 'r, 'j, 'n, 'w) cli_env \<Rightarrow> string \<Rightarrow> (SubmitError + AlignedVerificationData) list \<Rightarrow> bytes list \<Rightarrow> 'r cli
     \<Rightarrow> (AlignedError + bytes list option, 'r cli) res" where
  "save_results X dir [] roots s = (Ret (Inr (Some roots)), s)"
| "save_results X dir (Inl e # rest) roots s =
     (Ret (Inr None), handle_submit_err e (print_line (SubmitErrorLine e) s))"
| "save_results X dir (Inr avd # rest) roots s =
     (let s = print_line (SubmittedLine (avd_batch_merkle_root avd)) s in
      or_panic (save_response (cli_account X) dir avd (cli_files s)) s (\<lambda>(r, fs).
      let s = s\<lparr>cli_files := fs\<rparr> in
      case r of
        Inl e \<Rightarrow> (Ret (Inl (AE_File e)), s)
      | Inr _ \<Rightarrow> save_results X dir rest (List.insert (avd_batch_merkle_root avd) roots) s))"

fun explorer_url :: "Network \<Rightarrow> string" where
  "explorer_url Holesky = ''https://holesky.explorer.alignedlayer.com/batches/0x''"
| "explorer_url HoleskyStage = ''https://stage.explorer.alignedlayer.com/batches/0x''"
| "explorer_url Hoodi = ''https://hoodi.explorer.alignedlayer.com/batches/0x''"
| "explorer_url Mainnet = ''https://explorer.alignedlayer.com/batches/0x''"
| "explorer_url MainnetStage = ''https://mainnetstage.explorer.alignedlayer.com/batches/0x''"
| "explorer_url Sepolia = ''https://sepolia.explorer.alignedlayer.com/batches/0x''"
| "explorer_url _ = ''http://localhost:4000/batches/0x''"

text \<open>From the wallet on: chain, network, nonce, proof, submission, results.\<close>

definition submit_with_wallet ::
    "('t, 'r, 'j, 'n, 'w) cli_env \<Rightarrow> SubmitArgs \<Rightarrow> u256 \<Rightarrow> 'w \<Rightarrow> 'r command" where
  "submit_with_wallet X args max_fee_wei w s =
     or_panic (chain_id_of X (sa_eth_rpc_url args)) s (\<lambda>r. case r of
       Inl e \<Rightarrow> fail_with (AE_ChainId e) s
     | Inr chain \<Rightarrow>
       or_panic (network_from_arg (sa_network args)) s (\<lambda>network. case submission_nonce X args network w of
         Inl e \<Rightarrow> fail_with (AE_Submit e) s
       | Inr n \<Rightarrow>
         let s = print_line (NonceLine n) s in
         (case verification_data_from_args X args of
            Inl e \<Rightarrow> fail_with (AE_Submit e) s
          | Inr vd \<Rightarrow>
            or_panic (submit_multiple (signer_sdk X w chain) network (verification_data_arr X args vd) max_fee_wei n) s
            (\<lambda>results.
            and_then (save_results X (batch_inclusion_data_directory_path args) results [] s) (\<lambda>r s. case r of
              Inl e \<Rightarrow> (Ret (Inl e), s)
            | Inr None \<Rightarrow> (Ret (Inr ()), s)
            | Inr (Some roots) \<Rightarrow>
              (Ret (Inr ()), foldl (\<lambda>s root.
                 print_line (ExplorerLine (explorer_url network @ hex_of (cli_account X) root)) s) s
                 (root_order X roots)))))))"

definition submit_command :: "('t, 'r, 'j, 'n, 'w) cli_env \<Rightarrow> SubmitArgs \<Rightarrow> 'r command" where
  "submit_command X args s =
     (let dir = batch_inclusion_data_directory_path args in
      case create_dir_all X dir of
        Inl e \<Rightarrow> fail_with (AE_Submit (SE_Io dir e)) s
      | Inr _ \<Rightarrow>
        and_then (get_max_fee X args s) (\<lambda>r s. case r of
          Inl e \<Rightarrow> fail_with e s
        | Inr max_fee_wei \<Rightarrow>
          let s = print_line (MaxFeeLine max_fee_wei) s in
          (case load_wallet X (sa_private_key_type args) of
             Inl e \<Rightarrow> fail_with (AE_Submit e) s
           | Inr (Some w) \<Rightarrow> submit_with_wallet X args max_fee_wei w s
           | Inr None \<Rightarrow>
             let s = print_line MissingKeyLine s in
             (case parse_private_key X ANVIL_PRIVATE_KEY of
                Inl _ \<Rightarrow> (Ret (Inr ()), s)
              | Inr w \<Rightarrow> submit_with_wallet X args max_fee_wei w s))))"

section \<open>Payments\<close>

definition payment_result :: "PaymentError + 'r \<Rightarrow> 'r command" where
  "payment_result r s =
     (case r of
        Inr rc \<Rightarrow> finish_with (ReceiptLine rc) s
      | Inl e \<Rightarrow> finish_with (PaymentErrorLine e) s)"

text \<open>The common start of the payment commands: provider and wallet.\<close>

definition with_wallet ::
    "('t, 'r, 'j, 'n, 'w) cli_env \<Rightarrow> string \<Rightarrow> PrivateKeyType \<Rightarrow> ('w \<Rightarrow> 'r command) \<Rightarrow> 'r command" where
  "with_wallet X rpc_url k f s =
     (case sdk_provider (cli_sdk X) rpc_url of
        Inl e \<Rightarrow> fail_with (AE_Submit (SE_EthereumProvider (''Error while connecting to Ethereum: '' @ e))) s
      | Inr _ \<Rightarrow>
        (case load_wallet X k of
           Inl e \<Rightarrow> fail_with (AE_Submit e) s
         | Inr None \<Rightarrow> finish_with MissingKeyLine s
         | Inr (Some w) \<Rightarrow> f w s))"

text \<open>Chain and network, then the transaction of the wallet.\<close>

definition pay_on_chain ::
    "('t, 'r, 'j, 'n, 'w) cli_env \<Rightarrow> string \<Rightarrow> NetworkArg \<Rightarrow> 'w
     \<Rightarrow> ('t sdk_env \<Rightarrow> 'r account_env \<Rightarrow> Network \<Rightarrow> (PaymentError + 'r) option) \<Rightarrow> 'r command" where
  "pay_on_chain X rpc_url network_arg w pay s =
     or_panic (chain_id_of X rpc_url) s (\<lambda>r. case r of
       Inl e \<Rightarrow> fail_with (AE_ChainId e) s
     | Inr chain \<Rightarrow>
       or_panic (network_from_arg network_arg) s (\<lambda>network.
       or_panic (pay (signer_sdk X w chain) (signer_account X w chain) network) s (\<lambda>r.
       payment_result r s)))"

definition deposit_to_batcher_command ::
    "('t, 'r, 'j, 'n, 'w) cli_env \<Rightarrow> PrivateKeyType \<Rightarrow> string \<Rightarrow> NetworkArg \<Rightarrow> string \<Rightarrow> 'r command" where
  "deposit_to_batcher_command X k rpc_url network_arg amount s =
     (case amount_in_wei X amount of
        Inl e \<Rightarrow> fail_with e s
      | Inr None \<Rightarrow> finish_with AmountFormatLine s
      | Inr (Some wei) \<Rightarrow>
        with_wallet X rpc_url k (\<lambda>w. pay_on_chain X rpc_url network_arg w (\<lambda>E A network. deposit_to_aligned E A wei network)) s)"

definition unlock_funds_command ::
    "('t, 'r, 'j, 'n, 'w) cli_env \<Rightarrow> PrivateKeyType \<Rightarrow> string \<Rightarrow> NetworkArg \<Rightarrow> 'r command" where
  "unlock_funds_command X k rpc_url network_arg =
     with_wallet X rpc_url k (\<lambda>w. pay_on_chain X rpc_url network_arg w unlock_balance_in_aligned)"

definition lock_funds_command ::
    "('t, 'r, 'j, 'n, 'w) cli_env \<Rightarrow> PrivateKeyType \<Rightarrow> string \<Rightarrow> NetworkArg \<Rightarrow> 'r command" where
  "lock_funds_command X k rpc_url network_arg =
     with_wallet X rpc_url k (\<lambda>w. pay_on_chain X rpc_url network_arg w lock_balance_in_aligned)"

text \<open>The funds may be withdrawn when they were unlocked and the time has come.\<close>

definition withdraw_with_wallet ::
    "('t, 'r, 'j, 'n, 'w) cli_env \<Rightarrow> string \<Rightarrow> NetworkArg \<Rightarrow> u256 \<Rightarrow> 'w \<Rightarrow> 'r command" where
  "withdraw_with_wallet X rpc_url network_arg wei w s =
     or_panic (network_from_arg network_arg) s (\<lambda>network.
     or_panic (get_unlock_block_time (cli_sdk X) (cli_account X) (wallet_address X w) rpc_url network) s (\<lambda>r. case r of
       Inl e \<Rightarrow> finish_with (BalanceErrorLine e) s
     | Inr unlock_block_time \<Rightarrow>
       or_panic (utc_time X unlock_block_time) s (\<lambda>unlock_time.
       or_panic (utc_now X) s (\<lambda>now_time.
       if unlock_block_time = 0 then finish_with FundsLockedLine s
       else if timestamp X < unlock_block_time
       then finish_with (StillLockedLine ((unlock_block_time - timestamp X) div 60) unlock_time now_time) s
       else pay_on_chain X rpc_url network_arg w (\<lambda>E A network. withdraw_balance_from_aligned E A network wei) s))))"

definition withdraw_funds_command ::
    "('t, 'r, 'j, 'n, 'w) cli_env \<Rightarrow> PrivateKeyType \<Rightarrow> string \<Rightarrow> NetworkArg \<Rightarrow> string \<Rightarrow> 'r command" where
  "withdraw_funds_command X k rpc_url network_arg amount s =
     (case amount_in_wei X amount of
        Inl e \<Rightarrow> fail_with e s
      | Inr None \<Rightarrow> finish_with AmountFormatLine s
      | Inr (Some wei) \<Rightarrow> with_wallet X rpc_url k (withdraw_with_wallet X rpc_url network_arg wei) s)"

section \<open>Queries\<close>

text \<open>An address that cannot be parsed panics.\<close>

definition user_address :: "('t, 'r, 'j, 'n, 'w) cli_env \<Rightarrow> string \<Rightarrow> address option" where
  "user_address X text = (case address_from_str X text of Inl _ \<Rightarrow> None | Inr a \<Rightarrow> Some a)"

definition get_user_balance_command ::
    "('t, 'r, 'j, 'n, 'w) cli_env \<Rightarrow> string \<Rightarrow> string \<Rightarrow> NetworkArg \<Rightarrow> 'r command" where
  "get_user_balance_command X rpc_url addr_text network_arg s =
     or_panic (user_address X addr_text) s (\<lambda>addr.
     or_panic (network_from_arg network_arg) s (\<lambda>network.
     or_panic (get_balance_in_aligned (cli_sdk X) (cli_account X) addr rpc_url network) s (\<lambda>r. case r of
       Inl e \<Rightarrow> finish_with (BalanceErrorLine e) s
     | Inr b \<Rightarrow> finish_with (BalanceLine addr b) s)))"

definition get_user_nonce_command ::
    "('t, 'r, 'j, 'n, 'w) cli_env \<Rightarrow> string \<Rightarrow> NetworkArg \<Rightarrow> 'r command" where
  "get_user_nonce_command X addr_text network_arg s =
     or_panic (user_address X addr_text) s (\<lambda>addr.
     or_panic (network_from_arg network_arg) s (\<lambda>network.
     case get_nonce_from_batcher (cli_sdk X) network addr of
       Inl e \<Rightarrow> finish_with (NonceErrorLine e) s
     | Inr n \<Rightarrow> finish_with (UserNonceLine addr n) s))"

definition get_user_nonce_from_ethereum_command ::
    "('t, 'r, 'j, 'n, 'w) cli_env \<Rightarrow> string \<Rightarrow> string \<Rightarrow> NetworkArg \<Rightarrow> 'r command" where
  "get_user_nonce_from_ethereum_command X rpc_url addr_text network_arg s =
     or_panic (user_address X addr_text) s (\<lambda>addr.
     or_panic (network_from_arg network_arg) s (\<lambda>network.
     or_panic (get_nonce_from_ethereum (cli_sdk X) rpc_url addr network) s (\<lambda>r. case r of
       Inl e \<Rightarrow> finish_with (NonceErrorLine e) s
     | Inr n \<Rightarrow> finish_with (UserNonceLine addr n) s)))"

definition get_user_last_max_fee_command ::
    "('t, 'r, 'j, 'n, 'w) cli_env \<Rightarrow> string \<Rightarrow> NetworkArg \<Rightarrow> 'r command" where
  "get_user_last_max_fee_command X addr_text network_arg s =
     or_panic (user_address X addr_text) s (\<lambda>addr.
     or_panic (network_from_arg network_arg) s (\<lambda>network.
     case get_last_max_fee (cli_sdk X) network addr of
       Inl e \<Rightarrow> finish_with (LastMaxFeeErrorLine e) s
     | Inr f \<Rightarrow> finish_with (LastMaxFeeLine addr f) s))"

text \<open>
  The two nonces are asked for concurrently; of two errors the one printed is that of Ethereum here. The
  difference panics when it is negative.
\<close>

definition get_user_amount_of_queued_proofs_command ::
    "('t, 'r, 'j, 'n, 'w) cli_env \<Rightarrow> string \<Rightarrow> string \<Rightarrow> NetworkArg \<Rightarrow> 'r command" where
  "get_user_amount_of_queued_proofs_command X rpc_url addr_text network_arg s =
     or_panic (user_address X addr_text) s (\<lambda>addr.
     or_panic (network_from_arg network_arg) s (\<lambda>network.
     or_panic (get_nonce_from_ethereum (cli_sdk X) rpc_url addr network) s (\<lambda>r. case r of
       Inl e \<Rightarrow> finish_with (NonceErrorLine e) s
     | Inr ethereum_nonce \<Rightarrow>
       (case get_nonce_from_batcher (cli_sdk X) network addr of
          Inl e \<Rightarrow> finish_with (NonceErrorLine e) s
        | Inr batcher_nonce \<Rightarrow>
          or_panic (checked_sub batcher_nonce ethereum_nonce) s (\<lambda>n.
          finish_with (QueuedProofsLine addr n) s)))))"

section \<open>Verification\<close>

definition verify_proof_onchain_command ::
    "('t, 'r, 'j, 'n, 'w) cli_env \<Rightarrow> string \<Rightarrow> string \<Rightarrow> NetworkArg \<Rightarrow> 'r command" where
  "verify_proof_onchain_command X rpc_url data_file network_arg s =
     (case fs_read X data_file of
        Inl e \<Rightarrow> fail_with (AE_Submit (SE_Io data_file e)) s
      | Inr data \<Rightarrow>
        (case cbor_avd_from X data of
           None \<Rightarrow> fail_with (AE_Submit SE_Serialization) s
         | Some avd \<Rightarrow>
           or_panic (network_from_arg network_arg) s (\<lambda>network.
           or_panic (is_proof_verified (cli_sdk X) rpc_url network avd 0) s (\<lambda>r. case r of
             Inl e \<Rightarrow> fail_with (AE_Verification e) s
           | Inr b \<Rightarrow> finish_with (IncludedLine b) s))))"

text \<open>The commitment is printed in hexadecimal, and written to a file if one is named.\<close>

definition get_vk_commitment_command ::
    "('t, 'r, 'j, 'n, 'w) cli_env \<Rightarrow> string \<Rightarrow> ProvingSystemId \<Rightarrow> string option \<Rightarrow> 'r command" where
  "get_vk_commitment_command X vk_file system output_file s =
     (case read_file X vk_file of
        Inl e \<Rightarrow> fail_with (AE_Submit e) s
      | Inr vk \<Rightarrow>
        let c = get_vk_commitment (sdk_keccak (cli_sdk X)) vk system; s = print_line (CommitmentLine c) s in
        (case output_file of
           None \<Rightarrow> (Ret (Inr ()), s)
         | Some path \<Rightarrow>
           (case create_and_write (cli_account X) path (ascii_bytes (hex_of (cli_account X) c)) (cli_files s) of
              (Inl (FE_Io _ e), fs) \<Rightarrow> fail_with (AE_Submit (SE_Io path e)) (s\<lparr>cli_files := fs\<rparr>)
            | (_, fs) \<Rightarrow> (Ret (Inr ()), s\<lparr>cli_files := fs\<rparr>))))"

definition agg_verification_data ::
    "ProvingSystemId \<Rightarrow> bytes \<Rightarrow> bytes \<Rightarrow> AggregationModeVerificationData option" where
  "agg_verification_data system program_id_key inputs =
     (if system = SP1 then Some (SP1Data program_id_key inputs)
      else if system = Risc0 then Some (Risc0Data program_id_key inputs)
      else None)"

definition verify_proof_in_agg_mode_command ::
    "('t, 'r, 'j, 'n, 'w) cli_env \<Rightarrow> string \<Rightarrow> string \<Rightarrow> NetworkArg \<Rightarrow> u64 option \<Rightarrow> ProvingSystemId \<Rightarrow> string option
     \<Rightarrow> string \<Rightarrow> 'r command" where
  "verify_proof_in_agg_mode_command X rpc_url beacon_url network_arg from_block system pub_file program_id_file s =
     (case read_file X program_id_file of
        Inl e \<Rightarrow> fail_with (AE_Submit e) s
      | Inr program_id_key \<Rightarrow>
        if length program_id_key \<noteq> 32 then (Panicked, s)
        else
          (case pub_file of
             None \<Rightarrow> finish_with NoPublicInputLine s
           | Some f \<Rightarrow>
             (case read_file X f of
                Inl e \<Rightarrow> fail_with (AE_Submit e) s
              | Inr inputs \<Rightarrow>
                (case agg_verification_data system program_id_key inputs of
                   None \<Rightarrow> finish_with UnsupportedSystemLine s
                 | Some d \<Rightarrow>
                   or_panic (network_from_arg network_arg) s (\<lambda>network.
                   or_panic (check_proof_verification (cli_agg X) d network rpc_url beacon_url from_block) s (\<lambda>r. case r of
                     Inl e \<Rightarrow> finish_with (AggErrorLine e) s
                   | Inr status \<Rightarrow> finish_with (AggStatusLine status) s))))))"

section \<open>The program\<close>

datatype AlignedCommands =
    Submit SubmitArgs
  | VerifyProofOnchain string string NetworkArg
  | GetVkCommitment string ProvingSystemId "string option"
  | DepositToBatcher PrivateKeyType string NetworkArg string
  | UnlockFunds PrivateKeyType string NetworkArg
  | LockFunds PrivateKeyType string NetworkArg
  | WithdrawFunds PrivateKeyType string NetworkArg string
  | GetUserBalance string string NetworkArg
  | GetUserNonce string NetworkArg
  | GetUserNonceFromEthereum string string NetworkArg
  | GetUserLastMaxFee string NetworkArg
  | GetUserAmountOfQueuedProofs string string NetworkArg
  | VerifyProofInAggMode string string NetworkArg "u64 option" ProvingSystemId "string option" string

fun cli_main :: "('t, 'r, 'j, 'n, 'w) cli_env \<Rightarrow> AlignedCommands \<Rightarrow> 'r command" where
  "cli_main X (Submit args) = submit_command X args"
| "cli_main X (VerifyProofOnchain rpc_url file network) = verify_proof_onchain_command X rpc_url file network"
| "cli_main X (GetVkCommitment file system out) = get_vk_commitment_command X file system out"
| "cli_main X (DepositToBatcher k rpc_url network amount) = deposit_to_batcher_command X k rpc_url network amount"
| "cli_main X (UnlockFunds k rpc_url network) = unlock_funds_command X k rpc_url network"
| "cli_main X (LockFunds k rpc_url network) = lock_funds_command X k rpc_url network"
| "cli_main X (WithdrawFunds k rpc_url network amount) = withdraw_funds_command X k rpc_url network amount"
| "cli_main X (GetUserBalance rpc_url addr network) = get_user_balance_command X rpc_url addr network"
| "cli_main X (GetUserNonce addr network) = get_user_nonce_command X addr network"
| "cli_main X (GetUserNonceFromEthereum rpc_url addr network) = get_user_nonce_from_ethereum_command X rpc_url addr network"
| "cli_main X (GetUserLastMaxFee addr network) = get_user_last_max_fee_command X addr network"
| "cli_main X (GetUserAmountOfQueuedProofs rpc_url addr network) =
     get_user_amount_of_queued_proofs_command X rpc_url addr network"
| "cli_main X (VerifyProofInAggMode rpc_url beacon_url network from_block system pub_file program_id_file) =
     verify_proof_in_agg_mode_command X rpc_url beacon_url network from_block system pub_file program_id_file"

end
