(* ===== verification/Cli_Correct.thy ===== *)
theory Cli_Correct
  imports Cli Client_Correct Zk_Utils
begin

text \<open>
  Correctness of the command line client: a proof assembled from files carries what the verifier of its system
  takes, what is reported as submitted was verified, and funds are withdrawn only after their time.
\<close>

section \<open>Assembling a proof\<close>

lemma map_sum_Inr: "map_sum f g x = Inr y \<longleftrightarrow> (\<exists>z. x = Inr z \<and> y = g z)"
  by (cases x) auto

lemma read_file_Inr: "read_file X f = Inr b \<longleftrightarrow> fs_read X f = Inr b"
  by (cases "fs_read X f") (auto simp: read_file_def)

lemma read_file_option_Inr: "read_file_option X p fo = Inr b \<longleftrightarrow> (\<exists>f. fo = Some f \<and> fs_read X f = Inr b)"
  by (cases fo) (auto simp: read_file_option_def read_file_Inr)

text \<open>Every number of the public input of a Circom proof is written in 32 bytes, most significant first.\<close>

lemma encode_circom_numbers:
  "encode_circom_pub_inputs d xs = Some bs \<Longrightarrow>
     \<exists>ns. list_all2 (\<lambda>x n. d x = Some n) xs ns \<and> bs = concat (map (be_bytes 32) ns)"
proof (induction xs arbitrary: bs)
  case (Cons x xs)
  then obtain n cs where n: "d x = Some n" "encode_circom_pub_inputs d xs = Some cs" "bs = be_bytes 32 n @ cs"
    by (auto simp: bind_eq_Some_conv)
  from Cons.IH [OF n(2)] obtain ns where "list_all2 (\<lambda>x n. d x = Some n) xs ns" "cs = concat (map (be_bytes 32) ns)" by blast
  then show ?case using n(1,3) by (intro exI [of _ "n # ns"]) simp
qed simp

text \<open>The contents of a file that is named by an optional argument.\<close>

definition contents :: "('t, 'r, 'j, 'n, 'w) cli_env \<Rightarrow> string option \<Rightarrow> bytes \<Rightarrow> bool" where
  "contents X fo b \<longleftrightarrow> (\<exists>f. fo = Some f \<and> fs_read X f = Inr b)"

text \<open>The same for a file that may be left out: then there is nothing.\<close>

definition optional_contents :: "('t, 'r, 'j, 'n, 'w) cli_env \<Rightarrow> string option \<Rightarrow> bytes option \<Rightarrow> bool" where
  "optional_contents X fo b \<longleftrightarrow> (case fo of None \<Rightarrow> b = None | Some f \<Rightarrow> \<exists>c. fs_read X f = Inr c \<and> b = Some c)"

lemma read_optional_Inr: "read_optional X fo = Inr b \<longleftrightarrow> optional_contents X fo b"
  by (cases fo) (auto simp: read_optional_def optional_contents_def map_sum_Inr read_file_Inr)

text \<open>
  Claim C23. A proof that the client assembles reaches the verifier of its proving system with exactly the contents of
  the files named: every artefact of the submission is what its file holds (the public input of a zkVM proof too, which
  may be left out; the decimal numbers of a Circom proof as 32 bytes each, most significant first), the artefacts
  of other systems are absent, and the batcher's pre-verification of it is the verdict of that verifier on them, never
  decided by a missing artefact. (For RISC Zero the program file must hold the 32 bytes of an image id.)
\<close>

theorem assembled_proof_reaches_verifier:
  assumes "verification_data_from_args X args = Inr vd"
  shows "\<exists>proof. fs_read X (proof_file_name args) = Inr proof \<and> proof_bytes vd = proof \<and>
    proving_system vd = proving_system_flag args \<and>
    (case proving_system_flag args of
       SP1 \<Rightarrow> \<exists>code i. contents X (vm_program_code_file_name args) code \<and>
         optional_contents X (pub_input_file_name args) i \<and>
         (pub_input vd, verification_key vd, vm_program_code vd) = (i, None, Some code) \<and>
         verify Z vd = (verify_sp1_proof Z proof (unwrap_or_default i) code = Some True)
     | Risc0 \<Rightarrow> \<exists>img i. contents X (vm_program_code_file_name args) img \<and>
         optional_contents X (pub_input_file_name args) i \<and>
         (pub_input vd, verification_key vd, vm_program_code vd) = (i, None, Some img) \<and>
         verify Z vd = (length img = 32 \<and> verify_risc_zero_proof Z proof img (unwrap_or_default i))
     | CircomGroth16Bn256 \<Rightarrow> \<exists>vk file numbers ns. contents X (verification_key_file_name args) vk \<and>
         contents X (pub_input_file_name args) file \<and> json_strings X file = Inr numbers \<and>
         list_all2 (\<lambda>x n. from_dec_str X x = Some n) numbers ns \<and>
         (pub_input vd, verification_key vd, vm_program_code vd) = (Some (concat (map (be_bytes 32) ns)), Some vk, None) \<and>
         verify Z vd = verify_circom Z CircomGroth16Bn256 proof (concat (map (be_bytes 32) ns)) vk
     | ps \<Rightarrow> \<exists>vk i. contents X (verification_key_file_name args) vk \<and> contents X (pub_input_file_name args) i \<and>
         (pub_input vd, verification_key vd, vm_program_code vd) = (Some i, Some vk, None) \<and>
         verify Z vd = verify_gnark Z ps proof i vk)"
proof -
  from assms obtain pf inp vk code where p: "fs_read X (proof_file_name args) = Inr pf"
    and a: "artefacts_from_args X args = Inr (inp, vk, code)"
    and vd: "proving_system vd = proving_system_flag args" "proof_bytes vd = pf" "pub_input vd = inp"
      "verification_key vd = vk" "vm_program_code vd = code"
    by (auto simp: verification_data_from_args_def read_file_Inr split: sum.split_asm)
  note artefact_simps = artefacts_from_args_def read_file_option_Inr contents_def verify_def verify_internal_def
    map_sum_Inr read_optional_Inr
  show ?thesis
  proof (cases "proving_system_flag args")
    case CircomGroth16Bn256
    then obtain k fb xs i where c: "contents X (verification_key_file_name args) k"
        "contents X (pub_input_file_name args) fb" "json_strings X fb = Inr xs"
        "encode_circom_pub_inputs (from_dec_str X) xs = Some i" "inp = Some i" "vk = Some k" "code = None"
      using a by (auto simp: artefact_simps dest: sym split: sum.split_asm option.split_asm)
    have "verify Z vd = verify_circom Z CircomGroth16Bn256 pf i k"
      using CircomGroth16Bn256 vd c by (simp add: verify_def verify_internal_def)
    then show ?thesis using CircomGroth16Bn256 p c vd encode_circom_numbers [OF c(4)] by auto
  next
    case SP1
    then show ?thesis using p a vd by (auto simp: artefact_simps split: sum.split_asm option.splits)
  next
    case Risc0
    then show ?thesis using p a vd by (auto simp: artefact_simps split: sum.split_asm option.splits)
  qed (use p a vd in \<open>auto simp: artefact_simps split: sum.split_asm\<close>)
qed

section \<open>What is reported as submitted\<close>

lemma sent_data:
  assumes "send_messages E a vds fee n = Some sent" "Inr nvd \<in> set sent"
  shows "verification_data nvd \<in> set vds"
proof -
  obtain xs complete where x: "send_loop E a fee vds n [] = Some (xs, complete)" "set sent = set xs"
    using assms(1) by (auto simp: send_messages_def split: if_splits)
  have "Inr nvd \<in> set xs \<Longrightarrow> nvd \<in> set (burst E a fee vds n)"
    using send_loop_spec [OF x(1)] by (auto split: if_splits dest: in_set_takeD)
  then show ?thesis using assms(2) x(2) by (auto simp: burst_def in_set_enumerate_eq)
qed

text \<open>An inclusion of one of the proofs, whose path verifies.\<close>

definition verified_inclusion :: "'t sdk_env \<Rightarrow> VerificationData list \<Rightarrow> AlignedVerificationData \<Rightarrow> bool" where
  "verified_inclusion E vds avd \<longleftrightarrow>
     (\<exists>vd \<in> set vds. avd_verification_data_commitment avd = verification_data_into_commitment (sdk_keccak E) vd) \<and>
     mt_verify (sdk_merkle E) (avd_batch_inclusion_proof avd) (avd_batch_merkle_root avd) (avd_index_in_batch avd)
       (avd_verification_data_commitment avd)"

lemma submit_multiple_verified:
  assumes "submit_multiple E network vds fee n = Some results" "Inr avd \<in> set results"
  shows "verified_inclusion E vds avd"
proof -
  obtain msgs where "submit_multiple_on E msgs network vds fee n = Some results"
    using assms by (auto simp: submit_multiple_def split: sum.splits)
  then obtain msgs' a sent where s: "send_messages E a vds fee n = Some sent"
    and r: "Inr avd \<in> set (receive E msgs' sent)"
    using assms(2) by (cases "ws_close E")
      (auto simp: submit_multiple_on_def bind_eq_Some_conv Let_def split: sum.split_asm prod.splits if_splits)
  have "verified_answer E sent avd" using receive_loop_sound [OF r [unfolded receive_def]] by simp
  then show ?thesis using sent_data [OF s] by (auto simp: verified_answer_def verified_inclusion_def)
qed

lemma print_line_out [simp]: "cli_out (print_line l s) = cli_out s @ [l]" "cli_files (print_line l s) = cli_files s"
  by (simp_all add: print_line_def)

lemma handle_submit_err_out: "SubmittedLine root \<in> set (cli_out (handle_submit_err e s)) \<longleftrightarrow> SubmittedLine root \<in> set (cli_out s)"
  by (cases e) (simp_all add: handle_submit_err_def)

lemma save_results_lines:
  assumes "save_results X dir results roots s = (r, s')" "SubmittedLine root \<in> set (cli_out s')"
  shows "SubmittedLine root \<in> set (cli_out s) \<or> (\<exists>avd. Inr avd \<in> set results \<and> avd_batch_merkle_root avd = root)"
  using assms
proof (induction X dir results roots s rule: save_results.induct)
  case (3 X dir avd rest roots s)
  show ?case
  proof (cases "\<exists>q fs. save_response (cli_account X) dir avd (cli_files s) = Some (Inr q, fs)")
    case True
    then obtain q fs where sv: "save_response (cli_account X) dir avd (cli_files s) = Some (Inr q, fs)" by blast
    let ?s = "(print_line (SubmittedLine (avd_batch_merkle_root avd)) s)\<lparr>cli_files := fs\<rparr>"
    have "save_results X dir rest (List.insert (avd_batch_merkle_root avd) roots) ?s = (r, s')"
      using "3.prems"(1) sv by (simp add: Let_def)
    from "3.IH" [OF refl refl refl this] "3.prems"(2) sv show ?thesis by auto
  next
    case False
    then have "cli_out s' = cli_out s @ [SubmittedLine (avd_batch_merkle_root avd)]"
      using "3.prems"(1) by (auto simp: Let_def or_panic_def split: option.splits sum.splits)
    then show ?thesis using "3.prems"(2) by auto
  qed
qed (auto simp: handle_submit_err_out)

lemma explorer_lines:
  "SubmittedLine root \<in> set (cli_out (foldl (\<lambda>s x. print_line (ExplorerLine (f x)) s) s xs)) \<longleftrightarrow>
   SubmittedLine root \<in> set (cli_out s)"
  by (induction xs arbitrary: s) simp_all

lemma submit_with_wallet_lines:
  assumes "submit_with_wallet X args fee w s = (r, s')" "SubmittedLine root \<in> set (cli_out s')"
    "SubmittedLine root \<notin> set (cli_out s)"
  shows "\<exists>chain vd avd. verification_data_from_args X args = Inr vd \<and> avd_batch_merkle_root avd = root \<and>
    verified_inclusion (signer_sdk X w chain) (verification_data_arr X args vd) avd"
proof -
  let ?url = "sa_eth_rpc_url args" and ?dir = "batch_inclusion_data_directory_path args"
  note d = submit_with_wallet_def fail_with_def
  obtain c where c: "chain_id_of X ?url = Some c" using assms by (cases "chain_id_of X ?url") (auto simp: d)
  obtain chain where ch: "c = Inr chain" using assms c by (cases c) (auto simp: d)
  obtain network where nw: "network_from_arg (sa_network args) = Some network"
    using assms c ch by (cases "network_from_arg (sa_network args)") (auto simp: d)
  obtain n where n: "submission_nonce X args network w = Inr n"
    using assms c ch nw by (cases "submission_nonce X args network w") (auto simp: d)
  let ?s = "print_line (NonceLine n) s"
  obtain vd where vd: "verification_data_from_args X args = Inr vd"
    using assms c ch nw n by (cases "verification_data_from_args X args") (auto simp: d)
  let ?E = "signer_sdk X w chain" and ?vds = "verification_data_arr X args vd"
  obtain results where results: "submit_multiple ?E network ?vds fee n = Some results"
    using assms c ch nw n vd by (cases "submit_multiple ?E network ?vds fee n") (auto simp: d)
  obtain q s1 where sv: "save_results X ?dir results [] ?s = (q, s1)" by fastforce
  have "SubmittedLine root \<in> set (cli_out s1)"
    using assms(1,2) c ch nw n vd results sv
    by (cases q) (auto simp: d explorer_lines split: sum.split_asm option.split_asm)
  from save_results_lines [OF sv this] assms(3) obtain avd where "Inr avd \<in> set results" "avd_batch_merkle_root avd = root"
    by auto
  then show ?thesis using vd submit_multiple_verified [OF results] by blast
qed

lemma submit_command_lines:
  assumes "submit_command X args s = (r, s')" "SubmittedLine root \<in> set (cli_out s')" "SubmittedLine root \<notin> set (cli_out s)"
  shows "\<exists>w fee s0. submit_with_wallet X args fee w s0 = (r, s') \<and> SubmittedLine root \<notin> set (cli_out s0)"
proof -
  note d = submit_command_def fail_with_def Let_def
  obtain m s1 where m: "get_max_fee X args s = (m, s1)" by fastforce
  have s1: "SubmittedLine root \<notin> set (cli_out s1)" using m assms(3)
    by (auto simp: get_max_fee_def Let_def or_panic_def split: option.split_asm if_splits sum.split_asm)
  obtain u where u: "create_dir_all X (batch_inclusion_data_directory_path args) = Inr u"
    using assms by (cases "create_dir_all X (batch_inclusion_data_directory_path args)") (auto simp: d)
  obtain mr where mr: "m = Ret mr" using assms m u s1 by (cases m) (auto simp: d)
  obtain fee where fee: "mr = Inr fee" using assms m mr u s1 by (cases mr) (auto simp: d)
  obtain ow where ow: "load_wallet X (sa_private_key_type args) = Inr ow"
    using assms m mr u fee s1 by (cases "load_wallet X (sa_private_key_type args)") (auto simp: d)
  show ?thesis
  proof (cases ow)
    case (Some w)
    then have "submit_with_wallet X args fee w (print_line (MaxFeeLine fee) s1) = (r, s')"
      using assms(1) m mr u fee ow by (simp add: d)
    moreover have "SubmittedLine root \<notin> set (cli_out (print_line (MaxFeeLine fee) s1))" using s1 by simp
    ultimately show ?thesis by blast
  next
    case None
    then obtain w where "submit_with_wallet X args fee w (print_line MissingKeyLine (print_line (MaxFeeLine fee) s1)) = (r, s')"
      using assms m mr u fee ow s1 by (cases "parse_private_key X ANVIL_PRIVATE_KEY") (auto simp: d)
    moreover have "SubmittedLine root \<notin> set (cli_out (print_line MissingKeyLine (print_line (MaxFeeLine fee) s1)))"
      using s1 by simp
    ultimately show ?thesis by blast
  qed
qed

text \<open>
  Claim C22. The client reports a submission only when it is verified: for every root that a run of the submit
  command prints as that of a submitted proof, there is an inclusion of one of the proofs assembled from the
  arguments whose Merkle path, as checked with the environment of the wallet, leads to this root.
\<close>

theorem submit_reports_only_verified:
  assumes "cli_main X (Submit args) s = (r, s')" "SubmittedLine root \<in> set (cli_out s')" "SubmittedLine root \<notin> set (cli_out s)"
  shows "\<exists>w chain vd avd. verification_data_from_args X args = Inr vd \<and> avd_batch_merkle_root avd = root \<and>
    verified_inclusion (signer_sdk X w chain) (verification_data_arr X args vd) avd"
proof -
  obtain w fee s0 where "submit_with_wallet X args fee w s0 = (r, s')" "SubmittedLine root \<notin> set (cli_out s0)"
    using submit_command_lines assms by fastforce
  then show ?thesis using submit_with_wallet_lines assms(2) by fast
qed

section \<open>Withdrawals\<close>

lemma withdraw_after_unlock:
  assumes "withdraw_with_wallet X rpc_url network_arg wei w s = (r, s')" "ReceiptLine rc \<in> set (cli_out s')"
    "ReceiptLine rc \<notin> set (cli_out s)"
  shows "\<exists>network t. network_from_arg network_arg = Some network \<and>
    get_unlock_block_time (cli_sdk X) (cli_account X) (wallet_address X w) rpc_url network = Some (Inr t) \<and> 0 < t \<and> t \<le> timestamp X"
  using assms
  by (auto simp: withdraw_with_wallet_def or_panic_def finish_with_def word_gt_0 not_less
      split: option.split_asm sum.split_asm if_splits)

text \<open>
  Funds are withdrawn only after their time: when the withdraw command reports a receipt, the amount was
  one in ether, the wallet was given, the contract had recorded an unlock time for it, and the clock of
  the client was not before that time.
\<close>

lemma withdraws_only_after_unlock:
  assumes "cli_main X (WithdrawFunds k rpc_url network_arg amount) s = (r, s')"
    and "ReceiptLine rc \<in> set (cli_out s')" "ReceiptLine rc \<notin> set (cli_out s)"
  shows "\<exists>wei w network t. amount_in_wei X amount = Inr (Some wei) \<and> load_wallet X k = Inr (Some w) \<and>
    network_from_arg network_arg = Some network \<and>
    get_unlock_block_time (cli_sdk X) (cli_account X) (wallet_address X w) rpc_url network = Some (Inr t) \<and>
    0 < t \<and> t \<le> timestamp X"
proof -
  note d = withdraw_funds_command_def with_wallet_def fail_with_def finish_with_def
  obtain ow where "amount_in_wei X amount = Inr ow" using assms by (cases "amount_in_wei X amount") (auto simp: d)
  then obtain wei where a: "amount_in_wei X amount = Inr (Some wei)" using assms by (cases ow) (auto simp: d)
  obtain u where u: "sdk_provider (cli_sdk X) rpc_url = Inr u"
    using assms a by (cases "sdk_provider (cli_sdk X) rpc_url") (auto simp: d)
  obtain o1 where "load_wallet X k = Inr o1" using assms a u by (cases "load_wallet X k") (auto simp: d)
  then obtain w where w: "load_wallet X k = Inr (Some w)" using assms a u by (cases o1) (auto simp: d)
  then have "withdraw_with_wallet X rpc_url network_arg wei w s = (r, s')" using assms(1) a u by (simp add: d)
  from withdraw_after_unlock [OF this assms(2,3)] a w show ?thesis by blast
qed

section \<open>A client in front of a batcher\<close>

definition cli_connection :: "binary_node sdk_env" where
  "cli_connection = sample_sdk\<lparr>
     cbor_submit_response := (\<lambda>b. Some (if b = [] then ProtocolVersion 0 else BatchInclusion (client_bid b))),
     ws_connect := (\<lambda>_. Inr [Inr (BinaryMsg []), Inr (BinaryMsg [0])]) \<rparr>"

definition sample_account :: "nat account_env" where
  "sample_account = \<lparr> send_tx = (\<lambda>_. Inr (Inr (Some 77))), call_user_balances = (\<lambda>_. Inr 9), call_user_unlock_block = (\<lambda>_. Inr 40),
     rpc_chain_id = Inr 1, hex_of = (\<lambda>_. ''00112233''), path_join = (@), cbor_avd = (\<lambda>_. Some [1]), json_pretty = (\<lambda>_. [2]),
     create_file = (\<lambda>_. Inr ()), write_file = (\<lambda>_ d. (d, Inr ())) \<rparr>"

text \<open>The commands shown here do not ask for aggregated proofs.\<close>

definition offline_beacon :: "unit beacon_env" where
  "offline_beacon = \<lparr> beacon_client_url = [], url_from_str = Inl, beacon_send = Inl, beacon_json = (\<lambda>_. Inl []),
     deserialize_blocks = (\<lambda>_. Inl []), deserialize_blobs = (\<lambda>_. Inl []), beacon_hex = std_hex, beacon_sha256 = id \<rparr>"

definition offline_agg :: "(unit, binary_node) agg_client_env" where
  "offline_agg = \<lparr> ac_provider = Inl, ac_block_number = Inl [], ac_logs = (\<lambda>_ _. Inl []), ac_block = (\<lambda>_. Inl []),
     ac_beacon = (\<lambda>_. offline_beacon), ac_parse_addr = (\<lambda>_. None), ac_get_code = (\<lambda>_. Inl []), ac_display_addr = (\<lambda>_. []),
     ac_call_verify = (\<lambda>_ _ _ _. Inl []), ac_keccak = id, ac_tree = binary_tree \<rparr>"

definition sample_cli :: "(binary_node, nat, unit, binary_node, nat) cli_env" where
  "sample_cli = \<lparr> fs_read = (\<lambda>f. if f = ''proof'' then Inr [7] else Inr [9]), create_dir_all = (\<lambda>_. Inr ()),
     prompt_password = Inr [], decrypt_keystore = (\<lambda>_ _. Inr 1), parse_private_key = (\<lambda>_. Inr 1), wallet_address = (\<lambda>_. 3),
     signer_sdk = (\<lambda>_ _. cli_connection), signer_account = (\<lambda>_ _. sample_account), cli_sdk = sample_sdk,
     cli_account = sample_account, cli_agg = offline_agg, parse_ether = (\<lambda>_. Inr 100), from_dec_str = (\<lambda>_. Some 0),
     address_from_str = (\<lambda>_. Inr 3), random_addr = (\<lambda>_. 0), json_strings = (\<lambda>_. Inr []), cbor_avd_from = (\<lambda>_. None),
     timestamp = 50, utc_time = (\<lambda>_. Some []), utc_now = Some [], root_order = id \<rparr>"

definition sample_args :: SubmitArgs where
  "sample_args = \<lparr> sa_eth_rpc_url = [], proving_system_flag = SP1, proof_file_name = ''proof'', pub_input_file_name = None,
     verification_key_file_name = None, vm_program_code_file_name = Some ''elf'', repetitions = 1,
     sa_proof_generator_addr = [], batch_inclusion_data_directory_path = ''out/'',
     sa_private_key_type = \<lparr> keystore_path = None, private_key = Some [] \<rparr>, sa_nonce = Some ''0'',
     sa_network = \<lparr> na_network = Some NA_Devnet, na_aligned_service_manager_address = None,
       na_batcher_payment_service_address = None, na_batcher_url = None \<rparr>,
     fee_type = \<lparr> ft_max_fee = Some ''1ether'', custom_fee_estimate = None, instant_fee_estimate = False,
       default_fee_estimate = False \<rparr>, random_address = False \<rparr>"

lemma sample_args_data: "verification_data_from_args sample_cli sample_args = Inr client_vd"
  by (simp add: verification_data_from_args_def read_file_def artefacts_from_args_def read_file_option_def
      read_optional_def sample_cli_def sample_args_def client_vd_def)

theorem assembled_proof_reaches_verifier_witness:
  "\<forall>Z. \<exists>proof code i. fs_read sample_cli ''proof'' = Inr proof \<and> contents sample_cli (Some ''elf'') code \<and>
     pub_input client_vd = i \<and> verify Z client_vd = (verify_sp1_proof Z proof (unwrap_or_default i) code = Some True)"
proof
  fix Z
  have "proof_file_name sample_args = ''proof''" "proving_system_flag sample_args = SP1"
    "vm_program_code_file_name sample_args = Some ''elf''" by (simp_all add: sample_args_def)
  then show "\<exists>proof code i. fs_read sample_cli ''proof'' = Inr proof \<and> contents sample_cli (Some ''elf'') code \<and>
     pub_input client_vd = i \<and> verify Z client_vd = (verify_sp1_proof Z proof (unwrap_or_default i) code = Some True)"
    using assembled_proof_reaches_verifier [OF sample_args_data, of Z] by auto
qed

lemma cli_connection_accepts:
  "submit_multiple cli_connection Devnet [client_vd] 100 0 =
     Some [Inr (aligned_data cli_connection (client_nvd 0) (client_bid [0]))]"
proof -
  have "answer_for cli_connection (client_nvd 0) (BinaryMsg [0]) (client_bid [0])"
    using sample_answer [of 0] by (simp add: answer_for_def cli_connection_def verify_proof_inclusion_def)
  from accept_in_order [OF this, of "[]"]
  have "receive cli_connection [Inr (BinaryMsg [0])] [Inr (client_nvd 0)] =
      [Inr (aligned_data cli_connection (client_nvd 0) (client_bid [0]))]"
    by (simp add: receive_def)
  moreover have "send_messages cli_connection 5 [client_vd] 100 0 = Some [Inr (client_nvd 0)]"
    by (simp add: send_messages_def SubmitProofMessage_new_def cli_connection_def sample_sdk_def checked_add_def Let_def
        client_nvd_def)
  moreover have "ws_connect cli_connection u = Inr [Inr (BinaryMsg []), Inr (BinaryMsg [0])]"
      "check_protocol_version cli_connection [Inr (BinaryMsg []), Inr (BinaryMsg [0])] = (Inr (), [Inr (BinaryMsg [0])])"
      "parse_addr cli_connection a = Some 5" "ws_close cli_connection = Inr ()" for u a
    by (simp_all add: cli_connection_def check_protocol_version_def sample_sdk_def)
  ultimately show ?thesis
    by (simp add: submit_multiple_def submit_multiple_on_def get_batcher_payment_service_address_def)
qed

definition sample_run :: "(AlignedError + unit, nat cli) res" where
  "sample_run = cli_main sample_cli (Submit sample_args) \<lparr> cli_files = (\<lambda>_. None), cli_out = [] \<rparr>"

lemma sample_cli_sel:
  "chain_id_of sample_cli u = Some (Inr 1)" "signer_sdk sample_cli w c = cli_connection" "root_order sample_cli = id"
  "cli_account sample_cli = sample_account" "create_dir_all sample_cli d = Inr ()" "parse_ether sample_cli t = Inr 100"
  "load_wallet sample_cli \<lparr> keystore_path = None, private_key = Some [] \<rparr> = Inr (Some 1)"
  "submission_nonce sample_cli sample_args network w = Inr 0"
  by (simp_all add: sample_cli_def chain_id_of_def get_chain_id_def sample_sdk_def sample_account_def as_u64_def load_wallet_def
      submission_nonce_def sample_args_def)

lemma sample_single: "verification_data_arr sample_cli sample_args client_vd = [client_vd]"
  by (simp add: sample_args_def verification_data_arr_def)

lemma sample_run_reports: "SubmittedLine (nt_root binary_tree client_tree) \<in> set (cli_out (snd sample_run))"
proof -
  let ?s = "print_line (NonceLine 0) (print_line (MaxFeeLine 100) \<lparr> cli_files = (\<lambda>_. None), cli_out = [] \<rparr>)"
  let ?avd = "aligned_data cli_connection (client_nvd 0) (client_bid [0])"
  have root: "avd_batch_merkle_root ?avd = nt_root binary_tree client_tree"
    by (simp add: aligned_data_def AlignedVerificationData_new_def client_bid_def)
  obtain fs where sv: "save_response sample_account d ?avd f = Some (Inr (), fs d f)" for d f
    by (simp add: save_response_def save_response_cbor_def save_response_json_def response_file_name_def
        create_and_write_def sample_account_def)
  have fee: "get_max_fee sample_cli sample_args s = (Ret (Inr 100), s)" for s
    by (simp add: get_max_fee_def sample_args_def ends_with_def sample_cli_sel)
  have args: "sa_private_key_type sample_args = \<lparr> keystore_path = None, private_key = Some [] \<rparr>"
    "network_from_arg (sa_network sample_args) = Some Devnet"
    by (simp_all add: sample_args_def network_from_arg_def)
  show ?thesis
    by (simp add: sample_run_def submit_command_def fee args sample_single sample_cli_sel submit_with_wallet_def sample_args_data
        cli_connection_accepts sv root Let_def)
qed

theorem submit_reports_only_verified_witness:
  "\<exists>avd. avd_batch_merkle_root avd = nt_root binary_tree client_tree \<and> verified_inclusion cli_connection [client_vd] avd"
proof -
  have "cli_main sample_cli (Submit sample_args) \<lparr> cli_files = (\<lambda>_. None), cli_out = [] \<rparr> = (fst sample_run, snd sample_run)"
    by (simp add: sample_run_def)
  from submit_reports_only_verified [OF this sample_run_reports] show ?thesis
    by (auto simp: sample_args_data sample_cli_sel sample_single)
qed

lemma withdrawal_evaluated:
  "\<exists>t. get_unlock_block_time sample_sdk sample_account 3 [] Devnet = Some (Inr t) \<and> 0 < t \<and> t \<le> 50"
proof -
  let ?k = "\<lparr> keystore_path = None, private_key = Some [] \<rparr>"
  let ?n = "\<lparr> na_network = Some NA_Devnet, na_aligned_service_manager_address = None,
       na_batcher_payment_service_address = None, na_batcher_url = None \<rparr>"
  let ?s = "\<lparr> cli_files = (\<lambda>_. None), cli_out = [] \<rparr>"
  obtain r s' where r: "cli_main sample_cli (WithdrawFunds ?k [] ?n ''1ether'') ?s = (r, s')" by fastforce
  have "ReceiptLine 77 \<in> set (cli_out s')"
    using r by (auto simp: withdraw_funds_command_def amount_in_wei_def ends_with_def with_wallet_def withdraw_with_wallet_def
        pay_on_chain_def payment_result_def finish_with_def network_from_arg_def load_wallet_def chain_id_of_def get_chain_id_def
        get_unlock_block_time_def batcher_payment_service_def withdraw_balance_from_aligned_def finish_payment_def
        get_batcher_payment_service_address_def as_u64_def sample_cli_def sample_account_def sample_sdk_def cli_connection_def)
  from withdraws_only_after_unlock [OF r this] show ?thesis by (auto simp: sample_cli_def network_from_arg_def load_wallet_def)
qed

end
