(* ===== verification/Agg_Programs.thy ===== *)
theory Agg_Programs
  imports Agg_Types
begin

text \<open>
  The aggregation itself: the programs that run inside the zkVMs (\<open>aggregation_programs\<close>), and the code
  that runs them over chunks of proofs (\<open>aggregation_mode/src/aggregators\<close>). Provers, verifiers, hashes and
  the compiled programs are parameters (\<open>agg_env\<close>); what the code relies on is that a proof's public values
  are what the program committed, the locales \<open>sp1_prover\<close> and \<open>risc0_prover\<close>. A panic of a program or of
  the aggregator is \<open>None\<close>.
\<close>

section \<open>The programs for SP1\<close>

record sp1_user_input =
  proofs_vk_and_pub_inputs :: "SP1VkAndPubInputs list"

record sp1_chunk_input =
  sp1_proofs_and_leaves :: "(SP1VkAndPubInputs \<times> bytes list) list"

definition sp1_user_proofs_main ::
    "(bytes \<Rightarrow> bytes) \<Rightarrow> 'n node_tree \<Rightarrow> (bytes \<Rightarrow> bytes) \<Rightarrow> (32 word list \<Rightarrow> bytes \<Rightarrow> bool)
     \<Rightarrow> sp1_user_input \<Rightarrow> bytes option" where
  "sp1_user_proofs_main keccak T sha256 verify_sp1_proof inp =
     (if list_all (\<lambda>p. verify_sp1_proof (sp1_vk p) (sha256 (sp1_public_inputs p))) (proofs_vk_and_pub_inputs inp)
      then map_option (nt_root T)
             (nt_build T (sp1_hash_new_parent keccak) (map (sp1_commitment keccak) (proofs_vk_and_pub_inputs inp)))
      else None)"

definition USER_PROOFS_AGGREGATOR_PROGRAM_VK_HASH :: "32 word list" where
  "USER_PROOFS_AGGREGATOR_PROGRAM_VK_HASH =
     [1783055897, 486133361, 187778113, 1130718359, 781594768, 1430967573, 1107098593, 1119970919]"

fun sp1_chunk_loop ::
    "(bytes \<Rightarrow> bytes) \<Rightarrow> 'n node_tree \<Rightarrow> (bytes \<Rightarrow> bytes) \<Rightarrow> (32 word list \<Rightarrow> bytes \<Rightarrow> bool)
     \<Rightarrow> (SP1VkAndPubInputs \<times> bytes list) list \<Rightarrow> bytes list \<Rightarrow> bytes list option" where
  "sp1_chunk_loop keccak T sha256 verify_sp1_proof [] leaves = Some leaves"
| "sp1_chunk_loop keccak T sha256 verify_sp1_proof ((p, leaves_commitment) # rest) leaves =
     (if sp1_vk p \<noteq> USER_PROOFS_AGGREGATOR_PROGRAM_VK_HASH \<or> length (sp1_public_inputs p) \<noteq> 32 then None
      else
        Option.bind (nt_build T (sp1_hash32_new_parent keccak) leaves_commitment) (\<lambda>merkle_tree.
        if nt_root T merkle_tree \<noteq> sp1_public_inputs p \<or> \<not> verify_sp1_proof (sp1_vk p) (sha256 (sp1_public_inputs p))
        then None
        else sp1_chunk_loop keccak T sha256 verify_sp1_proof rest (leaves @ leaves_commitment)))"

definition sp1_chunk_main ::
    "(bytes \<Rightarrow> bytes) \<Rightarrow> 'n node_tree \<Rightarrow> (bytes \<Rightarrow> bytes) \<Rightarrow> (32 word list \<Rightarrow> bytes \<Rightarrow> bool)
     \<Rightarrow> sp1_chunk_input \<Rightarrow> bytes option" where
  "sp1_chunk_main keccak T sha256 verify_sp1_proof inp =
     Option.bind (sp1_chunk_loop keccak T sha256 verify_sp1_proof (sp1_proofs_and_leaves inp) []) (\<lambda>leaves.
     map_option (nt_root T) (nt_build T (sp1_hash32_new_parent keccak) leaves))"

section \<open>The programs for RISC Zero\<close>

record risc0_user_input =
  proofs_image_id_and_pub_inputs :: "Risc0ImageIdAndPubInputs list"

record risc0_chunk_input =
  risc0_proofs_and_leaves :: "(Risc0ImageIdAndPubInputs \<times> bytes list) list"

definition risc0_user_proofs_main ::
    "(bytes \<Rightarrow> bytes) \<Rightarrow> 'n node_tree \<Rightarrow> (bytes \<Rightarrow> bytes \<Rightarrow> bool) \<Rightarrow> risc0_user_input \<Rightarrow> bytes option" where
  "risc0_user_proofs_main keccak T env_verify inp =
     (if list_all (\<lambda>p. env_verify (r0_image_id p) (r0_public_inputs p)) (proofs_image_id_and_pub_inputs inp)
      then map_option (nt_root T)
             (nt_build T (risc0_hash_new_parent keccak) (map (risc0_commitment keccak) (proofs_image_id_and_pub_inputs inp)))
      else None)"

definition USER_PROOFS_AGGREGATOR_PROGRAM_IMAGE_ID :: bytes where
  "USER_PROOFS_AGGREGATOR_PROGRAM_IMAGE_ID =
     [253, 36, 51, 43, 163, 223, 190, 136, 60, 123, 233, 240, 170, 213, 170, 76, 117, 219, 15, 0, 47,
      81, 218, 228, 232, 218, 86, 42, 145, 190, 144, 161]"

fun risc0_chunk_loop ::
    "(bytes \<Rightarrow> bytes) \<Rightarrow> 'n node_tree \<Rightarrow> (bytes \<Rightarrow> bytes \<Rightarrow> bool)
     \<Rightarrow> (Risc0ImageIdAndPubInputs \<times> bytes list) list \<Rightarrow> bytes list \<Rightarrow> bytes list option" where
  "risc0_chunk_loop keccak T env_verify [] leaves = Some leaves"
| "risc0_chunk_loop keccak T env_verify ((p, leaves_commitment) # rest) leaves =
     (if r0_image_id p \<noteq> USER_PROOFS_AGGREGATOR_PROGRAM_IMAGE_ID \<or> length (r0_public_inputs p) \<noteq> 32 then None
      else
        Option.bind (nt_build T (risc0_hash32_new_parent keccak) leaves_commitment) (\<lambda>merkle_tree.
        if r0_public_inputs p \<noteq> nt_root T merkle_tree \<or> \<not> env_verify (r0_image_id p) (r0_public_inputs p)
        then None
        else risc0_chunk_loop keccak T env_verify rest (leaves @ leaves_commitment)))"

definition risc0_chunk_main ::
    "(bytes \<Rightarrow> bytes) \<Rightarrow> 'n node_tree \<Rightarrow> (bytes \<Rightarrow> bytes \<Rightarrow> bool) \<Rightarrow> risc0_chunk_input \<Rightarrow> bytes option" where
  "risc0_chunk_main keccak T env_verify inp =
     Option.bind (risc0_chunk_loop keccak T env_verify (risc0_proofs_and_leaves inp) []) (\<lambda>leaves.
     map_option (nt_root T) (nt_build T (risc0_hash32_new_parent keccak) leaves))"

section \<open>Proofs and environment\<close>

text \<open>The forms of an SP1 proof; the proof itself is opaque.\<close>

datatype SP1Proof = SP1_Core bytes | SP1_Compressed bytes | SP1_Plonk bytes | SP1_Groth16 bytes

record SP1ProofWithPublicValues =
  sp1_proof :: SP1Proof
  public_values :: bytes

record SP1ProofWithPubValuesAndElf =
  proof_with_pub_values :: SP1ProofWithPublicValues
  sp1_elf :: bytes
  sp1_vkey :: bytes

datatype InnerReceipt = R0_Composite bytes | R0_Succinct bytes | R0_Groth16 bytes | R0_Fake bytes

record Receipt =
  r_inner :: InnerReceipt
  r_journal :: bytes

record Risc0ProofReceiptAndImageId =
  image_id :: bytes
  receipt :: Receipt

datatype AlignedProof = AP_SP1 SP1ProofWithPubValuesAndElf | AP_Risc0 Risc0ProofReceiptAndImageId

datatype AlignedSP1VerificationError = ASV_Verification string | ASV_UnsupportedProof
datatype SP1AggregationError = SP1_Verification string | SP1_Prove string | SP1_UnsupportedProof
datatype AlignedRisc0VerificationError = ARV_Verification string | ARV_UnsupportedProof
datatype Risc0AggregationError =
    R0_WriteInput string | R0_BuildExecutor string | R0_Prove string | R0_Verification string
datatype ZKVMEngine = EngineSP1 | EngineRISC0
datatype ProofAggregationError =
    SP1Aggregation SP1AggregationError
  | Risc0Aggregation Risc0AggregationError
  | PublicInputsDeserialization

record 'n agg_env =
  agg_keccak :: "bytes \<Rightarrow> bytes"
  agg_tree :: "'n node_tree"
  sp1_setup :: "bytes \<Rightarrow> bytes option"
  sp1_cpu_verify :: "SP1ProofWithPublicValues \<Rightarrow> bytes \<Rightarrow> string + unit"
  sp1_verify :: "SP1ProofWithPublicValues \<Rightarrow> bytes \<Rightarrow> string + unit"
  vk_hash_u32 :: "bytes \<Rightarrow> 32 word list"
  vk_hash_bytes :: "bytes \<Rightarrow> bytes"
  USER_PROOFS_PROGRAM_ELF :: bytes
  CHUNK_PROGRAM_ELF :: bytes
  sp1_prove_user :: "sp1_user_input \<Rightarrow> (bytes \<times> bytes) list \<Rightarrow> string + SP1ProofWithPublicValues"
  sp1_prove_chunk :: "sp1_chunk_input \<Rightarrow> (bytes \<times> bytes) list \<Rightarrow> string + SP1ProofWithPublicValues"
  RISC0_USER_PROOFS_AGGREGATOR_PROGRAM_ID :: "32 word list"
  RISC0_CHUNK_AGGREGATOR_PROGRAM_ID :: "32 word list"
  receipt_verify :: "Receipt \<Rightarrow> bytes \<Rightarrow> string + unit"
  risc0_write_user :: "risc0_user_input \<Rightarrow> string + unit"
  risc0_write_chunk :: "risc0_chunk_input \<Rightarrow> string + unit"
  risc0_build_env :: "Receipt list \<Rightarrow> string + unit"
  risc0_prove_user :: "risc0_user_input \<Rightarrow> Receipt list \<Rightarrow> string + Receipt"
  risc0_prove_chunk :: "risc0_chunk_input \<Rightarrow> Receipt list \<Rightarrow> string + Receipt"

section \<open>SP1\<close>

text \<open>The setup of a program that is no valid ELF panics: \<open>None\<close>.\<close>

definition SP1ProofWithPubValuesAndElf_new ::
    "'n agg_env \<Rightarrow> SP1ProofWithPublicValues \<Rightarrow> bytes
     \<Rightarrow> (AlignedSP1VerificationError + SP1ProofWithPubValuesAndElf) option" where
  "SP1ProofWithPubValuesAndElf_new A p elf =
     map_option (\<lambda>vk.
       case sp1_proof p of
         SP1_Compressed _ \<Rightarrow>
           (case sp1_cpu_verify A p vk of
              Inl e \<Rightarrow> Inl (ASV_Verification e)
            | Inr _ \<Rightarrow> Inr \<lparr> proof_with_pub_values = p, sp1_elf = elf, sp1_vkey = vk \<rparr>)
       | _ \<Rightarrow> Inl ASV_UnsupportedProof) (sp1_setup A elf)"

definition hash_vk_and_pub_inputs :: "'n agg_env \<Rightarrow> SP1ProofWithPubValuesAndElf \<Rightarrow> bytes" where
  "hash_vk_and_pub_inputs A p =
     agg_keccak A (id_bytes AM_SP1 @ vk_hash_bytes A (sp1_vkey p) @ public_values (proof_with_pub_values p))"

definition sp1_statement :: "'n agg_env \<Rightarrow> SP1ProofWithPubValuesAndElf \<Rightarrow> SP1VkAndPubInputs" where
  "sp1_statement A p =
     \<lparr> sp1_vk = vk_hash_u32 A (sp1_vkey p), sp1_public_inputs = public_values (proof_with_pub_values p) \<rparr>"

text \<open>The proofs written to the standard input, \<open>None\<close> when one is not compressed.\<close>

fun compressed_proofs :: "SP1ProofWithPubValuesAndElf list \<Rightarrow> (bytes \<times> bytes) list option" where
  "compressed_proofs [] = Some []"
| "compressed_proofs (p # ps) =
     (case sp1_proof (proof_with_pub_values p) of
        SP1_Compressed b \<Rightarrow> map_option ((#) (b, sp1_vkey p)) (compressed_proofs ps)
      | _ \<Rightarrow> None)"

text \<open>Proving and the check of the resulting proof, with the key of the program that ran.\<close>

definition sp1_prove_and_check ::
    "'n agg_env \<Rightarrow> bytes \<Rightarrow> string + SP1ProofWithPublicValues
     \<Rightarrow> (SP1AggregationError + SP1ProofWithPubValuesAndElf) option" where
  "sp1_prove_and_check A elf proved =
     map_option (\<lambda>vk.
       case proved of
         Inl e \<Rightarrow> Inl (SP1_Prove e)
       | Inr p \<Rightarrow>
         (case sp1_verify A p vk of
            Inl e \<Rightarrow> Inl (SP1_Verification e)
          | Inr _ \<Rightarrow> Inr \<lparr> proof_with_pub_values = p, sp1_elf = elf, sp1_vkey = vk \<rparr>)) (sp1_setup A elf)"

definition sp1_run_user_proofs_aggregator ::
    "'n agg_env \<Rightarrow> SP1ProofWithPubValuesAndElf list
     \<Rightarrow> (SP1AggregationError + SP1ProofWithPubValuesAndElf) option" where
  "sp1_run_user_proofs_aggregator A proofs =
     (case compressed_proofs proofs of
        None \<Rightarrow> Some (Inl SP1_UnsupportedProof)
      | Some written \<Rightarrow>
        sp1_prove_and_check A (USER_PROOFS_PROGRAM_ELF A)
          (sp1_prove_user A \<lparr> proofs_vk_and_pub_inputs = map (sp1_statement A) proofs \<rparr> written))"

definition sp1_run_chunk_aggregator ::
    "'n agg_env \<Rightarrow> (SP1ProofWithPubValuesAndElf \<times> bytes list) list
     \<Rightarrow> (SP1AggregationError + SP1ProofWithPubValuesAndElf) option" where
  "sp1_run_chunk_aggregator A proofs =
     (case compressed_proofs (map fst proofs) of
        None \<Rightarrow> Some (Inl SP1_UnsupportedProof)
      | Some written \<Rightarrow>
        sp1_prove_and_check A (CHUNK_PROGRAM_ELF A)
          (sp1_prove_chunk A \<lparr> sp1_proofs_and_leaves = map (\<lambda>(p, ls). (sp1_statement A p, ls)) proofs \<rparr> written))"

definition vk_from_elf :: "'n agg_env \<Rightarrow> bytes \<Rightarrow> bytes option" where
  "vk_from_elf A elf = sp1_setup A elf"

section \<open>RISC Zero\<close>

fun is_supported_receipt :: "InnerReceipt \<Rightarrow> bool" where
  "is_supported_receipt (R0_Composite _) = True"
| "is_supported_receipt (R0_Succinct _) = True"
| "is_supported_receipt _ = False"

definition Risc0ProofReceiptAndImageId_new ::
    "'n agg_env \<Rightarrow> bytes \<Rightarrow> Receipt \<Rightarrow> AlignedRisc0VerificationError + Risc0ProofReceiptAndImageId" where
  "Risc0ProofReceiptAndImageId_new A img r =
     (if is_supported_receipt (r_inner r)
      then (case receipt_verify A r img of
              Inl e \<Rightarrow> Inl (ARV_Verification e)
            | Inr _ \<Rightarrow> Inr \<lparr> image_id = img, receipt = r \<rparr>)
      else Inl ARV_UnsupportedProof)"

definition public_inputs :: "Risc0ProofReceiptAndImageId \<Rightarrow> bytes" where
  "public_inputs p = r_journal (receipt p)"

definition hash_image_id_and_public_inputs :: "'n agg_env \<Rightarrow> Risc0ProofReceiptAndImageId \<Rightarrow> bytes" where
  "hash_image_id_and_public_inputs A p =
     agg_keccak A (id_bytes AM_RISC0 @ image_id p @ public_inputs p)"

text \<open>A program id as bytes, each word in little-endian order.\<close>

definition le_bytes :: "nat \<Rightarrow> 'a::len word \<Rightarrow> bytes" where
  "le_bytes n w = rev (be_bytes n w)"

definition program_id_bytes :: "32 word list \<Rightarrow> bytes" where
  "program_id_bytes ws = concat (map (le_bytes 4) (take 8 ws))"

definition risc0_statement :: "Risc0ProofReceiptAndImageId \<Rightarrow> Risc0ImageIdAndPubInputs" where
  "risc0_statement p = \<lparr> r0_image_id = image_id p, r0_public_inputs = r_journal (receipt p) \<rparr>"

definition risc0_prove_and_check ::
    "'n agg_env \<Rightarrow> 32 word list \<Rightarrow> string + unit \<Rightarrow> string + unit \<Rightarrow> string + Receipt
     \<Rightarrow> Risc0AggregationError + Risc0ProofReceiptAndImageId" where
  "risc0_prove_and_check A pid written built proved =
     (case written of
        Inl e \<Rightarrow> Inl (R0_WriteInput e)
      | Inr _ \<Rightarrow>
        (case built of
           Inl e \<Rightarrow> Inl (R0_BuildExecutor e)
         | Inr _ \<Rightarrow>
           (case proved of
              Inl e \<Rightarrow> Inl (R0_Prove e)
            | Inr r \<Rightarrow>
              (case receipt_verify A r (program_id_bytes pid) of
                 Inl e \<Rightarrow> Inl (R0_Verification e)
               | Inr _ \<Rightarrow> Inr \<lparr> image_id = program_id_bytes pid, receipt = r \<rparr>))))"

definition risc0_run_user_proofs_aggregator ::
    "'n agg_env \<Rightarrow> Risc0ProofReceiptAndImageId list \<Rightarrow> Risc0AggregationError + Risc0ProofReceiptAndImageId" where
  "risc0_run_user_proofs_aggregator A proofs =
     (let inp = \<lparr> proofs_image_id_and_pub_inputs = map risc0_statement proofs \<rparr>;
          assumptions = map receipt proofs in
      risc0_prove_and_check A (RISC0_USER_PROOFS_AGGREGATOR_PROGRAM_ID A)
        (risc0_write_user A inp) (risc0_build_env A assumptions) (risc0_prove_user A inp assumptions))"

definition risc0_run_chunk_aggregator ::
    "'n agg_env \<Rightarrow> (Risc0ProofReceiptAndImageId \<times> bytes list) list
     \<Rightarrow> Risc0AggregationError + Risc0ProofReceiptAndImageId" where
  "risc0_run_chunk_aggregator A proofs =
     (let inp = \<lparr> risc0_proofs_and_leaves = map (\<lambda>(p, ls). (risc0_statement p, ls)) proofs \<rparr>;
          assumptions = map (\<lambda>(p, _). receipt p) proofs in
      risc0_prove_and_check A (RISC0_CHUNK_AGGREGATOR_PROGRAM_ID A)
        (risc0_write_chunk A inp) (risc0_build_env A assumptions) (risc0_prove_chunk A inp assumptions))"

section \<open>Engines\<close>

text \<open>The value of the environment variable; \<open>None\<close> is the panic for an unknown engine.\<close>

definition engine_from_env :: "string option \<Rightarrow> ZKVMEngine option option" where
  "engine_from_env v =
     (case v of
        None \<Rightarrow> Some None
      | Some s \<Rightarrow>
        if s = ''sp1'' then Some (Some EngineSP1)
        else if s = ''risc0'' then Some (Some EngineRISC0)
        else None)"

fun engine_display :: "ZKVMEngine \<Rightarrow> string" where
  "engine_display EngineSP1 = ''SP1''"
| "engine_display EngineRISC0 = ''Risc0''"

fun commitment :: "'n agg_env \<Rightarrow> AlignedProof \<Rightarrow> bytes" where
  "commitment A (AP_SP1 p) = hash_vk_and_pub_inputs A p"
| "commitment A (AP_Risc0 p) = hash_image_id_and_public_inputs A p"

fun sp1_proofs :: "AlignedProof list \<Rightarrow> SP1ProofWithPubValuesAndElf list" where
  "sp1_proofs [] = []"
| "sp1_proofs (AP_SP1 p # ps) = p # sp1_proofs ps"
| "sp1_proofs (AP_Risc0 _ # ps) = sp1_proofs ps"

fun risc0_proofs :: "AlignedProof list \<Rightarrow> Risc0ProofReceiptAndImageId list" where
  "risc0_proofs [] = []"
| "risc0_proofs (AP_Risc0 p # ps) = p # risc0_proofs ps"
| "risc0_proofs (AP_SP1 _ # ps) = risc0_proofs ps"

text \<open>The loop over the chunks; a run that panics ends it with \<open>None\<close>.\<close>

fun aggregate_chunks ::
    "('p list \<Rightarrow> ('e + 'p) option) \<Rightarrow> ('p \<Rightarrow> bytes) \<Rightarrow> 'p list list \<Rightarrow> ('e + ('p \<times> bytes list) list) option" where
  "aggregate_chunks run commit [] = Some (Inr [])"
| "aggregate_chunks run commit (chunk # rest) =
     (case run chunk of
        None \<Rightarrow> None
      | Some (Inl e) \<Rightarrow> Some (Inl e)
      | Some (Inr agg_proof) \<Rightarrow>
        (case aggregate_chunks run commit rest of
           None \<Rightarrow> None
         | Some (Inl e) \<Rightarrow> Some (Inl e)
         | Some (Inr agg_proofs) \<Rightarrow> Some (Inr ((agg_proof, map commit chunk) # agg_proofs))))"

definition aggregate_proofs ::
    "'n agg_env \<Rightarrow> ZKVMEngine \<Rightarrow> AlignedProof list \<Rightarrow> u16
     \<Rightarrow> (ProofAggregationError + (AlignedProof \<times> bytes)) option" where
  "aggregate_proofs A engine proofs proofs_per_chunk =
     (if proofs_per_chunk = 0 then None
      else
        case engine of
          EngineSP1 \<Rightarrow>
            (case aggregate_chunks (sp1_run_user_proofs_aggregator A) (hash_vk_and_pub_inputs A)
                    (chunks (unat proofs_per_chunk) (sp1_proofs proofs)) of
               None \<Rightarrow> None
             | Some (Inl e) \<Rightarrow> Some (Inl (SP1Aggregation e))
             | Some (Inr agg_proofs) \<Rightarrow>
               (case sp1_run_chunk_aggregator A agg_proofs of
                  None \<Rightarrow> None
                | Some (Inl e) \<Rightarrow> Some (Inl (SP1Aggregation e))
                | Some (Inr agg_proof) \<Rightarrow>
                  let values = public_values (proof_with_pub_values agg_proof) in
                  if length values < 32 then None else Some (Inr (AP_SP1 agg_proof, take 32 values))))
        | EngineRISC0 \<Rightarrow>
            (case aggregate_chunks (Some \<circ> risc0_run_user_proofs_aggregator A) (hash_image_id_and_public_inputs A)
                    (chunks (unat proofs_per_chunk) (risc0_proofs proofs)) of
               None \<Rightarrow> None
             | Some (Inl e) \<Rightarrow> Some (Inl (Risc0Aggregation e))
             | Some (Inr agg_proofs) \<Rightarrow>
               (case risc0_run_chunk_aggregator A agg_proofs of
                  Inl e \<Rightarrow> Some (Inl (Risc0Aggregation e))
                | Inr agg_proof \<Rightarrow>
                  let journal = r_journal (receipt agg_proof) in
                  if length journal \<noteq> 32 then Some (Inl PublicInputsDeserialization)
                  else Some (Inr (AP_Risc0 agg_proof, journal)))))"

definition compute_proofs_merkle_root :: "'n agg_env \<Rightarrow> AlignedProof list \<Rightarrow> ('n \<times> bytes list) option" where
  "compute_proofs_merkle_root A proofs =
     map_option (\<lambda>t. (t, map (commitment A) proofs))
       (nt_build (agg_tree A) (aligned_hash_new_parent (agg_keccak A)) (map (commitment A) proofs))"

end
