(* ===== verification/Agg_Backend.thy ===== *)
theory Agg_Backend
  imports Agg_Blob Agg_Programs Retry
begin

text \<open>
  The aggregator service (\<open>aggregation_mode/src/backend\<close>): downloading the proofs of past batches
  (\<open>s3.rs\<close>, \<open>retry.rs\<close>, \<open>fetcher.rs\<close>), and aggregating and submitting them (\<open>mod.rs\<close>, \<open>config.rs\<close>). The HTTP
  client, the Ethereum node, the serialization formats and KZG are parameters (\<open>fetch_env\<close>, \<open>blob_env\<close>).
\<close>

section \<open>Downloading a batch\<close>

datatype GetBatchProofsError =
    FetchingS3Batch string
  | Deserialization string
  | EmptyBody string
  | StatusFailed nat string
  | ReqwestClientFailed string

record http_response =
  http_status :: nat
  http_reason :: string
  http_body :: "string + bytes"

record fetch_env =
  http_client :: "string + unit"
  http_get :: "nat \<Rightarrow> string \<Rightarrow> string + http_response"
  cbor_batch :: "bytes \<Rightarrow> string + VerificationData list"
  s3_driver :: backon_ops
  debug_batch_error :: "GetBatchProofsError \<Rightarrow> string"
  get_block_number :: "string + u64"
  new_batch_logs :: "u64 \<Rightarrow> u64 \<Rightarrow> string + (string \<times> u64 option) list"
  bincode_sp1 :: "bytes \<Rightarrow> SP1ProofWithPublicValues option"
  bincode_receipt :: "bytes \<Rightarrow> InnerReceipt option"

definition MAX_BATCH_URLS :: nat where
  "MAX_BATCH_URLS = 5"

definition RETRY_MAX_TIMES :: nat where
  "RETRY_MAX_TIMES = 5"

text \<open>\<open>str::split\<close> and \<open>str::trim\<close>, on ASCII text.\<close>

fun split_on :: "char \<Rightarrow> string \<Rightarrow> string list" where
  "split_on c [] = [[]]"
| "split_on c (x # xs) =
     (if x = c then [] # split_on c xs
      else case split_on c xs of [] \<Rightarrow> [[x]] | w # ws \<Rightarrow> (x # w) # ws)"

definition is_whitespace :: "char \<Rightarrow> bool" where
  "is_whitespace c = (of_char c = (32 :: nat) \<or> 9 \<le> (of_char c :: nat) \<and> of_char c \<le> (13 :: nat))"

definition trim :: "string \<Rightarrow> string" where
  "trim s = rev (dropWhile is_whitespace (rev (dropWhile is_whitespace s)))"

fun collect_urls :: "string list \<Rightarrow> string list \<Rightarrow> string list" where
  "collect_urls [] urls = urls"
| "collect_urls (url # rest) urls =
     (let trimmed_url = trim url in
      if trimmed_url \<noteq> [] then
        let urls = urls @ [trimmed_url] in
        if MAX_BATCH_URLS < length urls then urls else collect_urls rest urls
      else collect_urls rest urls)"

definition parse_batch_urls :: "string \<Rightarrow> string list" where
  "parse_batch_urls batch_urls = collect_urls (split_on (CHR '','') batch_urls) []"

text \<open>Status codes that are worth a retry.\<close>

definition status_error :: "nat \<Rightarrow> string \<Rightarrow> GetBatchProofsError RetryError" where
  "status_error status reason =
     (let e = StatusFailed status reason in
      if 400 \<le> status \<and> status \<le> 499 then
        if status = 408 \<or> status = 429 then Transient e else Permanent e
      else if 500 \<le> status \<and> status \<le> 599 then Transient e
      else Permanent e)"

definition is_success :: "nat \<Rightarrow> bool" where
  "is_success status = (200 \<le> status \<and> status \<le> 299)"

definition get_aligned_batch_from_s3_retryable ::
    "fetch_env \<Rightarrow> string \<Rightarrow> nat \<Rightarrow> GetBatchProofsError RetryError + VerificationData list" where
  "get_aligned_batch_from_s3_retryable F url attempt =
     (case http_client F of
        Inl e \<Rightarrow> Inl (Permanent (ReqwestClientFailed e))
      | Inr _ \<Rightarrow>
        (case http_get F attempt url of
           Inl e \<Rightarrow> Inl (Transient (FetchingS3Batch e))
         | Inr response \<Rightarrow>
           if \<not> is_success (http_status response)
           then Inl (status_error (http_status response) (http_reason response))
           else
             (case http_body response of
                Inl e \<Rightarrow> Inl (Transient (EmptyBody e))
              | Inr body \<Rightarrow>
                (case cbor_batch F body of
                   Inl e \<Rightarrow> Inl (Permanent (Deserialization e))
                 | Inr data \<Rightarrow> Inr data))))"

definition agg_retry_function ::
    "backon_ops \<Rightarrow> (nat \<Rightarrow> 'e RetryError + 'a) \<Rightarrow> nat \<Rightarrow> 'e RetryError + 'a" where
  "agg_retry_function B f max_times = f (last_attempt B max_times (\<lambda>i. is_transient (f i)))"

definition get_aligned_batch_from_s3 ::
    "fetch_env \<Rightarrow> string \<Rightarrow> GetBatchProofsError + VerificationData list" where
  "get_aligned_batch_from_s3 F url =
     map_sum inner id
       (agg_retry_function (s3_driver F) (get_aligned_batch_from_s3_retryable F url) RETRY_MAX_TIMES)"

fun join_with :: "string \<Rightarrow> string list \<Rightarrow> string" where
  "join_with sep [] = []"
| "join_with sep [x] = x"
| "join_with sep (x # y # zs) = x @ sep @ join_with sep (y # zs)"

fun try_urls ::
    "fetch_env \<Rightarrow> string list \<Rightarrow> string list \<Rightarrow> GetBatchProofsError + VerificationData list" where
  "try_urls F [] errors =
     Inl (FetchingS3Batch (''Failed to get batch from all URLs, errors: '' @ join_with ''; '' errors))"
| "try_urls F (url # rest) errors =
     (case get_aligned_batch_from_s3 F url of
        Inr data \<Rightarrow> Inr data
      | Inl err \<Rightarrow> try_urls F rest (errors @ [''URL '' @ url @ '': '' @ debug_batch_error F err]))"

definition get_aligned_batch_from_s3_with_multiple_urls ::
    "fetch_env \<Rightarrow> string \<Rightarrow> GetBatchProofsError + VerificationData list" where
  "get_aligned_batch_from_s3_with_multiple_urls F urls = try_urls F (parse_batch_urls urls) []"

section \<open>Fetching proofs\<close>

datatype ProofsFetcherError = GetLogs string | GetBlockNumber string

text \<open>The proof of a batch as a proof of the engine, if it is one; \<open>None\<close> is a panic.\<close>

definition sp1_candidate :: "'n agg_env \<Rightarrow> fetch_env \<Rightarrow> VerificationData \<Rightarrow> AlignedProof option option" where
  "sp1_candidate A F p =
     (if proving_system p \<noteq> SP1 then Some None
      else
        case vm_program_code p of
          None \<Rightarrow> Some None
        | Some elf \<Rightarrow>
          (case bincode_sp1 F (proof_bytes p) of
             None \<Rightarrow> Some None
           | Some pv \<Rightarrow>
             (case SP1ProofWithPubValuesAndElf_new A pv elf of
                None \<Rightarrow> None
              | Some (Inr proof) \<Rightarrow> Some (Some (AP_SP1 proof))
              | Some (Inl _) \<Rightarrow> Some None)))"

definition risc0_candidate :: "'n agg_env \<Rightarrow> fetch_env \<Rightarrow> VerificationData \<Rightarrow> AlignedProof option option" where
  "risc0_candidate A F p =
     (if proving_system p \<noteq> Risc0 then Some None
      else
        case vm_program_code p of
          None \<Rightarrow> Some None
        | Some img \<Rightarrow>
          if length img \<noteq> 32 then None
          else Some
            (Option.bind (pub_input p) (\<lambda>public_inputs.
             Option.bind (bincode_receipt F (proof_bytes p)) (\<lambda>inner_receipt.
             case Risc0ProofReceiptAndImageId_new A img \<lparr> r_inner = inner_receipt, r_journal = public_inputs \<rparr> of
               Inr proof \<Rightarrow> Some (AP_Risc0 proof)
             | Inl _ \<Rightarrow> None))))"

fun filter_candidates :: "(VerificationData \<Rightarrow> AlignedProof option option) \<Rightarrow> VerificationData list \<Rightarrow> AlignedProof list option" where
  "filter_candidates f [] = Some []"
| "filter_candidates f (p # ps) =
     Option.bind (f p) (\<lambda>c.
     map_option (\<lambda>rest. case c of None \<Rightarrow> rest | Some a \<Rightarrow> a # rest) (filter_candidates f ps))"

definition compatible_proofs ::
    "'n agg_env \<Rightarrow> fetch_env \<Rightarrow> ZKVMEngine \<Rightarrow> VerificationData list \<Rightarrow> AlignedProof list option" where
  "compatible_proofs A F engine data =
     (case engine of
        EngineSP1 \<Rightarrow> filter_candidates (sp1_candidate A F) data
      | EngineRISC0 \<Rightarrow> filter_candidates (risc0_candidate A F) data)"

text \<open>
  The loop over the logs: the proofs collected and the block from which the next run starts. A batch
  that cannot be downloaded is skipped.
\<close>

fun fetch_loop ::
    "'n agg_env \<Rightarrow> fetch_env \<Rightarrow> ZKVMEngine \<Rightarrow> u16 \<Rightarrow> u64 \<Rightarrow> (string \<times> u64 option) list
     \<Rightarrow> AlignedProof list \<Rightarrow> (AlignedProof list \<times> u64) option" where
  "fetch_loop A F engine limit current_block [] proofs = Some (proofs, current_block)"
| "fetch_loop A F engine limit current_block ((pointer, log_block_number) # logs) proofs =
     (case get_aligned_batch_from_s3_with_multiple_urls F pointer of
        Inl _ \<Rightarrow> fetch_loop A F engine limit current_block logs proofs
      | Inr data \<Rightarrow>
        Option.bind (compatible_proofs A F engine data) (\<lambda>proofs_to_add.
        if unat limit < length proofs + length proofs_to_add
        then map_option (\<lambda>b. (proofs, b)) log_block_number
        else fetch_loop A F engine limit current_block logs (proofs @ proofs_to_add)))"

text \<open>The state of the service: the fetcher's block, the file that stores it, and the transactions sent.\<close>

datatype contract_call = VerifySP1 bytes bytes bytes | VerifyRisc0 bytes bytes bytes

record blob_sidecar =
  sidecar_blob :: bytes
  sidecar_commitment :: bytes
  sidecar_proof :: bytes

record aggregator =
  last_aggregated_block :: u64
  block_file :: "u64 option"
  sent_transactions :: "(contract_call \<times> blob_sidecar) list"

definition fetch ::
    "'n agg_env \<Rightarrow> fetch_env \<Rightarrow> ZKVMEngine \<Rightarrow> u16 \<Rightarrow> aggregator
     \<Rightarrow> (ProofsFetcherError + AlignedProof list, aggregator) res" where
  "fetch A F engine limit s =
     (case get_block_number F of
        Inl e \<Rightarrow> (Ret (Inl (GetBlockNumber e)), s)
      | Inr current_block \<Rightarrow>
        if current_block < last_aggregated_block s
        then (Ret (Inl (GetBlockNumber ''Invalid last processed block'')), s)
        else
          (case new_batch_logs F (last_aggregated_block s) current_block of
             Inl e \<Rightarrow> (Ret (Inl (GetLogs e)), s)
           | Inr logs \<Rightarrow>
             or_panic (fetch_loop A F engine limit current_block logs []) s (\<lambda>(proofs, b).
             (Ret (Inr proofs), s\<lparr>last_aggregated_block := b\<rparr>))))"

section \<open>Submitting\<close>

datatype AggregatedProofSubmissionError =
    BuildingBlobCommitment
  | BuildingBlobProof
  | BuildingBlobVersionedHash
  | Risc0EncodingSeal string
  | SendVerifyAggregatedProofTransaction string
  | FetchingProofs ProofsFetcherError
  | ZKVMAggregation ProofAggregationError
  | BuildingMerkleRoot
  | MerkleRootMisMatch

record agg_config =
  proofs_per_chunk :: u16
  total_proofs_limit :: u16

record blob_env =
  blob_to_kzg_commitment :: "bytes \<Rightarrow> bytes option"
  compute_blob_kzg_proof :: "bytes \<Rightarrow> bytes \<Rightarrow> bytes option"
  versioned_hash_for_blob :: "bytes \<Rightarrow> bytes option"
  sp1_proof_bytes :: "SP1ProofWithPublicValues \<Rightarrow> bytes"
  encode_seal :: "Receipt \<Rightarrow> string + bytes"
  tx_fill :: "contract_call \<Rightarrow> blob_sidecar \<Rightarrow> string + bytes"
  tx_envelope :: "bytes \<Rightarrow> string + bytes"
  tx_pooled :: "bytes \<Rightarrow> string + bytes"
  tx_sidecar_7594 :: "bytes \<Rightarrow> string + bytes"
  send_raw_transaction :: "bytes \<Rightarrow> string + bytes"
  get_receipt :: "bytes \<Rightarrow> string + bytes"
  open_block_file :: "string + unit"
  write_block_file :: "u64 \<Rightarrow> string + unit"

definition construct_blob ::
    "blob_env \<Rightarrow> bytes list \<Rightarrow> (AggregatedProofSubmissionError + (blob_sidecar \<times> bytes)) option" where
  "construct_blob V leaves =
     map_option (\<lambda>blob.
         case blob_to_kzg_commitment V blob of
           None \<Rightarrow> Inl BuildingBlobCommitment
         | Some kzg_commitment \<Rightarrow>
           (case compute_blob_kzg_proof V blob kzg_commitment of
              None \<Rightarrow> Inl BuildingBlobProof
            | Some kzg_proof \<Rightarrow>
              (case versioned_hash_for_blob V kzg_commitment of
                 None \<Rightarrow> Inl BuildingBlobVersionedHash
               | Some h \<Rightarrow>
                 Inr (\<lparr> sidecar_blob = blob, sidecar_commitment = kzg_commitment, sidecar_proof = kzg_proof \<rparr>, h))))
       (blob_data_of leaves)"

fun contract_call_for ::
    "blob_env \<Rightarrow> bytes \<Rightarrow> AlignedProof \<Rightarrow> AggregatedProofSubmissionError + contract_call" where
  "contract_call_for V h (AP_SP1 p) =
     Inr (VerifySP1 h (public_values (proof_with_pub_values p)) (sp1_proof_bytes V (proof_with_pub_values p)))"
| "contract_call_for V h (AP_Risc0 p) =
     (case encode_seal V (receipt p) of
        Inl e \<Rightarrow> Inl (Risc0EncodingSeal e)
      | Inr seal \<Rightarrow> Inr (VerifyRisc0 h seal (r_journal (receipt p))))"

text \<open>The stages of a transaction before it is sent; each fails with the same error.\<close>

definition encoded_transaction :: "blob_env \<Rightarrow> contract_call \<Rightarrow> blob_sidecar \<Rightarrow> string + bytes" where
  "encoded_transaction V call sc =
     (case tx_fill V call sc of
        Inl e \<Rightarrow> Inl e
      | Inr filled \<Rightarrow>
        (case tx_envelope V filled of
           Inl e \<Rightarrow> Inl e
         | Inr envelope \<Rightarrow>
           (case tx_pooled V envelope of
              Inl e \<Rightarrow> Inl e
            | Inr pooled \<Rightarrow> tx_sidecar_7594 V pooled)))"

definition send_proof_to_verify_on_chain ::
    "blob_env \<Rightarrow> blob_sidecar \<Rightarrow> bytes \<Rightarrow> AlignedProof \<Rightarrow> aggregator
     \<Rightarrow> (AggregatedProofSubmissionError + bytes) \<times> aggregator" where
  "send_proof_to_verify_on_chain V sc h aggregated_proof s =
     (case contract_call_for V h aggregated_proof of
        Inl e \<Rightarrow> (Inl e, s)
      | Inr call \<Rightarrow>
        (case encoded_transaction V call sc of
           Inl e \<Rightarrow> (Inl (SendVerifyAggregatedProofTransaction e), s)
         | Inr encoded_tx \<Rightarrow>
           (case send_raw_transaction V encoded_tx of
              Inl e \<Rightarrow> (Inl (SendVerifyAggregatedProofTransaction e), s)
            | Inr pending_tx \<Rightarrow>
              let s = s\<lparr>sent_transactions := sent_transactions s @ [(call, sc)]\<rparr> in
              (case get_receipt V pending_tx of
                 Inl e \<Rightarrow> (Inl (SendVerifyAggregatedProofTransaction e), s)
               | Inr rc \<Rightarrow> (Inr rc, s)))))"

definition aggregate_and_submit_proofs_on_chain ::
    "'n agg_env \<Rightarrow> fetch_env \<Rightarrow> blob_env \<Rightarrow> agg_config \<Rightarrow> ZKVMEngine \<Rightarrow> aggregator
     \<Rightarrow> (AggregatedProofSubmissionError + unit, aggregator) res" where
  "aggregate_and_submit_proofs_on_chain A F V C engine s =
     and_then (fetch A F engine (total_proofs_limit C) s) (\<lambda>r s.
     case r of
       Inl e \<Rightarrow> (Ret (Inl (FetchingProofs e)), s)
     | Inr proofs \<Rightarrow>
       if proofs = [] then (Ret (Inr ()), s)
       else
         (case compute_proofs_merkle_root A proofs of
            None \<Rightarrow> (Ret (Inl BuildingMerkleRoot), s)
          | Some (t, leaves) \<Rightarrow>
            or_panic (aggregate_proofs A engine proofs (proofs_per_chunk C)) s (\<lambda>agg.
            case agg of
              Inl e \<Rightarrow> (Ret (Inl (ZKVMAggregation e)), s)
            | Inr (aggregated_proof, zkvm_merkle_root) \<Rightarrow>
              if zkvm_merkle_root \<noteq> nt_root (agg_tree A) t
              then (Ret (Inl MerkleRootMisMatch), s)
              else
                or_panic (construct_blob V leaves) s (\<lambda>b.
                case b of
                  Inl e \<Rightarrow> (Ret (Inl e), s)
                | Inr (sc, h) \<Rightarrow>
                  (case send_proof_to_verify_on_chain V sc h aggregated_proof s of
                     (Inl e, s) \<Rightarrow> (Ret (Inl e), s)
                   | (Inr _, s) \<Rightarrow> (Ret (Inr ()), s))))))"

text \<open>The file is truncated when it is opened; without readable contents it is \<open>None\<close>.\<close>

definition update_last_aggregated_block :: "blob_env \<Rightarrow> u64 \<Rightarrow> aggregator \<Rightarrow> (string + unit) \<times> aggregator" where
  "update_last_aggregated_block V b s =
     (case open_block_file V of
        Inl e \<Rightarrow> (Inl e, s)
      | Inr _ \<Rightarrow>
        (case write_block_file V b of
           Inl e \<Rightarrow> (Inl e, s\<lparr>block_file := None\<rparr>)
         | Inr _ \<Rightarrow> (Inr (), s\<lparr>block_file := Some b\<rparr>)))"

definition start ::
    "'n agg_env \<Rightarrow> fetch_env \<Rightarrow> blob_env \<Rightarrow> agg_config \<Rightarrow> ZKVMEngine \<Rightarrow> aggregator \<Rightarrow> (unit, aggregator) res" where
  "start A F V C engine s =
     and_then (aggregate_and_submit_proofs_on_chain A F V C engine s) (\<lambda>r s.
     case r of
       Inl _ \<Rightarrow> (Ret (), s)
     | Inr _ \<Rightarrow>
       (case update_last_aggregated_block V (last_aggregated_block s) s of
          (Inl _, s) \<Rightarrow> (Panicked, s)
        | (Inr _, s) \<Rightarrow> (Ret (), s)))"

text \<open>A run of the service: \<open>ProofsFetcher::new\<close> reads the block from the file, and panics when it cannot.\<close>

definition run_aggregator ::
    "'n agg_env \<Rightarrow> fetch_env \<Rightarrow> blob_env \<Rightarrow> agg_config \<Rightarrow> ZKVMEngine \<Rightarrow> aggregator \<Rightarrow> (unit, aggregator) res" where
  "run_aggregator A F V C engine s =
     or_panic (block_file s) s (\<lambda>b. start A F V C engine (s\<lparr>last_aggregated_block := b\<rparr>))"

end
