(* ===== verification/Agg_Sound.thy ===== *)
theory Agg_Sound
  imports Agg_Programs
begin

text \<open>
  What an aggregated proof says. The contracts of the provers: the public values of a proof are what the
  program committed in a run that did not panic. From them: the root an aggregation returns is the Merkle
  root of the commitments of exactly the proofs that went in, and each of these was verified inside the
  virtual machine.
\<close>

section \<open>Contracts of the provers\<close>

text \<open>
  \<open>vm\<close> is the verification inside SP1, given the proofs on the standard input; the digest of a
  verification key is its eight words, as bytes in big-endian order.
\<close>

locale sp1_prover =
  fixes A :: "'n agg_env" and sha256 :: "bytes \<Rightarrow> bytes"
    and vm :: "(bytes \<times> bytes) list \<Rightarrow> 32 word list \<Rightarrow> bytes \<Rightarrow> bool"
  assumes user_run: "sp1_prove_user A inp ds = Inr p \<Longrightarrow>
      sp1_user_proofs_main (agg_keccak A) (agg_tree A) sha256 (vm ds) inp = Some (public_values p)"
    and chunk_run: "sp1_prove_chunk A cinp ds = Inr p \<Longrightarrow>
      sp1_chunk_main (agg_keccak A) (agg_tree A) sha256 (vm ds) cinp = Some (public_values p)"
    and hash_bytes_words: "vk_hash_bytes A vk = concat (map (be_bytes 4) (vk_hash_u32 A vk))"

locale risc0_prover =
  fixes A :: "'n agg_env" and vm :: "Receipt list \<Rightarrow> bytes \<Rightarrow> bytes \<Rightarrow> bool"
  assumes user_run: "risc0_prove_user A inp rs = Inr r \<Longrightarrow>
      risc0_user_proofs_main (agg_keccak A) (agg_tree A) (vm rs) inp = Some (r_journal r)"
    and chunk_run: "risc0_prove_chunk A cinp rs = Inr r \<Longrightarrow>
      risc0_chunk_main (agg_keccak A) (agg_tree A) (vm rs) cinp = Some (r_journal r)"

section \<open>The programs\<close>

lemma sp1_chunk_loop_Some:
  "sp1_chunk_loop K T sha ver xs acc = Some leaves \<Longrightarrow>
   leaves = acc @ concat (map snd xs) \<and>
   (\<forall>(p, ls) \<in> set xs. sp1_vk p = USER_PROOFS_AGGREGATOR_PROGRAM_VK_HASH \<and>
      (\<exists>t. nt_build T (hash32_new_parent K) ls = Some t \<and> nt_root T t = sp1_public_inputs p) \<and>
      ver (sp1_vk p) (sha (sp1_public_inputs p)))"
  by (induction K T sha ver xs acc rule: sp1_chunk_loop.induct)
    (auto simp: bind_eq_Some_conv split: if_splits)

lemma risc0_chunk_loop_Some:
  "risc0_chunk_loop K T ver xs acc = Some leaves \<Longrightarrow>
   leaves = acc @ concat (map snd xs) \<and>
   (\<forall>(p, ls) \<in> set xs. r0_image_id p = USER_PROOFS_AGGREGATOR_PROGRAM_IMAGE_ID \<and>
      (\<exists>t. nt_build T (hash32_new_parent K) ls = Some t \<and> nt_root T t = r0_public_inputs p) \<and>
      ver (r0_image_id p) (r0_public_inputs p))"
  by (induction K T ver xs acc rule: risc0_chunk_loop.induct)
    (auto simp: bind_eq_Some_conv split: if_splits)

lemma aggregate_chunks_Inr:
  "aggregate_chunks run commit cs = Some (Inr aps) \<Longrightarrow>
   map snd aps = map (map commit) cs \<and> (\<forall>c \<in> set cs. \<exists>p. run c = Some (Inr p))"
  by (induction run commit cs arbitrary: aps rule: aggregate_chunks.induct) (auto split: option.splits sum.splits)

lemma sp1_checked: "sp1_prove_and_check A elf proved = Some (Inr q) \<Longrightarrow> proved = Inr (proof_with_pub_values q)"
proof (cases proved)
  case (Inr p)
  assume "sp1_prove_and_check A elf proved = Some (Inr q)"
  then obtain vk where "(case sp1_verify A p vk of Inl e \<Rightarrow> Inl (SP1_Verification e)
      | Inr _ \<Rightarrow> Inr \<lparr> proof_with_pub_values = p, sp1_elf = elf, sp1_vkey = vk \<rparr>) = Inr q"
    using Inr by (auto simp: sp1_prove_and_check_def)
  then show ?thesis using Inr by (cases "sp1_verify A p vk") auto
qed (auto simp: sp1_prove_and_check_def)

lemma concat_map_map: "concat (map (map f) xss) = map f (concat xss)"
  by (simp add: map_concat)

section \<open>The aggregation\<close>

context sp1_prover
begin

lemma statement_commitment: "sp1_commitment (agg_keccak A) (sp1_statement A p) = hash_vk_and_pub_inputs A p"
  by (simp add: sp1_commitment_def sp1_statement_def hash_vk_and_pub_inputs_def id_bytes_def SP1_PROVING_SYSTEM_ID_def
      hash_bytes_words)

lemma user_proofs_verified:
  assumes "sp1_run_user_proofs_aggregator A c = Some (Inr q)" "p \<in> set c"
  shows "\<exists>ds. vm ds (vk_hash_u32 A (sp1_vkey p)) (sha256 (public_values (proof_with_pub_values p)))"
proof -
  obtain ds r where "compressed_proofs c = Some ds"
      "sp1_prove_user A \<lparr> proofs_vk_and_pub_inputs = map (sp1_statement A) c \<rparr> ds = Inr r"
    using assms(1) by (auto simp: sp1_run_user_proofs_aggregator_def dest: sp1_checked split: option.splits)
  then have "list_all (\<lambda>p. vm ds (sp1_vk p) (sha256 (sp1_public_inputs p))) (map (sp1_statement A) c)"
    using user_run by (fastforce simp: sp1_user_proofs_main_def split: if_splits)
  then show ?thesis using assms(2) by (auto simp: list_all_iff sp1_statement_def)
qed

lemma chunk_aggregate_root:
  assumes "sp1_run_chunk_aggregator A aps = Some (Inr q)"
  shows "map_option (nt_root (agg_tree A)) (nt_build (agg_tree A) (hash32_new_parent (agg_keccak A)) (concat (map snd aps))) =
    Some (public_values (proof_with_pub_values q))"
proof -
  let ?xs = "map (\<lambda>(p, ls). (sp1_statement A p, ls)) aps"
  obtain ds where "sp1_prove_chunk A \<lparr> sp1_proofs_and_leaves = ?xs \<rparr> ds = Inr (proof_with_pub_values q)"
    using assms by (auto simp: sp1_run_chunk_aggregator_def dest: sp1_checked split: option.splits)
  from chunk_run [OF this] obtain leaves where
    "sp1_chunk_loop (agg_keccak A) (agg_tree A) sha256 (vm ds) ?xs [] = Some leaves"
    "map_option (nt_root (agg_tree A)) (nt_build (agg_tree A) (hash32_new_parent (agg_keccak A)) leaves) =
       Some (public_values (proof_with_pub_values q))"
    by (auto simp: sp1_chunk_main_def bind_eq_Some_conv)
  moreover from calculation(1) have "leaves = concat (map snd ?xs)" using sp1_chunk_loop_Some by fastforce
  moreover have "map snd ?xs = map snd aps" by auto
  ultimately show ?thesis by argo
qed

lemma aggregate_sp1:
  assumes "aggregate_proofs A EngineSP1 proofs n = Some (Inr (agg, root))"
  shows "\<exists>v. map_option (nt_root (agg_tree A)) (nt_build (agg_tree A) (hash32_new_parent (agg_keccak A))
            (map (hash_vk_and_pub_inputs A) (sp1_proofs proofs))) = Some v \<and> root = take 32 v \<and>
    (\<forall>p \<in> set (sp1_proofs proofs).
       \<exists>ds. vm ds (vk_hash_u32 A (sp1_vkey p)) (sha256 (public_values (proof_with_pub_values p))))"
proof -
  let ?cs = "chunks (unat n) (sp1_proofs proofs)"
  obtain aps q where n: "n \<noteq> 0" and aps: "aggregate_chunks (sp1_run_user_proofs_aggregator A) (hash_vk_and_pub_inputs A) ?cs = Some (Inr aps)"
    and q: "sp1_run_chunk_aggregator A aps = Some (Inr q)" and root: "root = take 32 (public_values (proof_with_pub_values q))"
    using assms by (auto simp: aggregate_proofs_def Let_def split: if_splits option.splits sum.splits)
  have "0 < unat n" using n by (simp add: unat_gt_0)
  then have cs: "concat ?cs = sp1_proofs proofs" by simp
  have "\<exists>ds. vm ds (vk_hash_u32 A (sp1_vkey p)) (sha256 (public_values (proof_with_pub_values p)))"
    if p: "p \<in> set (sp1_proofs proofs)" for p
  proof -
    obtain c where "c \<in> set ?cs" "p \<in> set c" using p cs by (metis UN_E set_concat)
    then show ?thesis using aggregate_chunks_Inr [OF aps] user_proofs_verified by fastforce
  qed
  moreover have "concat (map snd aps) = map (hash_vk_and_pub_inputs A) (sp1_proofs proofs)"
    using aggregate_chunks_Inr [OF aps] cs by (simp add: concat_map_map)
  ultimately show ?thesis using chunk_aggregate_root [OF q] root by auto
qed

end

context risc0_prover
begin

lemma user_proofs_verified:
  assumes "risc0_run_user_proofs_aggregator A c = Inr q" "p \<in> set c"
  shows "\<exists>rs. vm rs (image_id p) (r_journal (receipt p))"
proof -
  obtain r where "risc0_prove_user A \<lparr> proofs_image_id_and_pub_inputs = map risc0_statement c \<rparr> (map receipt c) = Inr r"
    using assms(1) by (auto simp: risc0_run_user_proofs_aggregator_def risc0_prove_and_check_def Let_def split: sum.splits)
  from user_run [OF this]
  have "list_all (\<lambda>p. vm (map receipt c) (r0_image_id p) (r0_public_inputs p)) (map risc0_statement c)"
    by (simp add: risc0_user_proofs_main_def split: if_splits)
  then show ?thesis using assms(2) by (auto simp: list_all_iff risc0_statement_def)
qed

lemma chunk_aggregate_root:
  assumes "risc0_run_chunk_aggregator A aps = Inr q"
  shows "map_option (nt_root (agg_tree A)) (nt_build (agg_tree A) (hash32_new_parent (agg_keccak A)) (concat (map snd aps))) =
    Some (r_journal (receipt q))"
proof -
  let ?xs = "map (\<lambda>(p, ls). (risc0_statement p, ls)) aps"
  obtain rs where "risc0_prove_chunk A \<lparr> risc0_proofs_and_leaves = ?xs \<rparr> rs = Inr (receipt q)"
    using assms by (auto simp: risc0_run_chunk_aggregator_def risc0_prove_and_check_def Let_def split: sum.splits)
  from chunk_run [OF this] obtain leaves where
    "risc0_chunk_loop (agg_keccak A) (agg_tree A) (vm rs) ?xs [] = Some leaves"
    "map_option (nt_root (agg_tree A)) (nt_build (agg_tree A) (hash32_new_parent (agg_keccak A)) leaves) = Some (r_journal (receipt q))"
    by (auto simp: risc0_chunk_main_def bind_eq_Some_conv)
  moreover from calculation(1) have "leaves = concat (map snd ?xs)" using risc0_chunk_loop_Some by fastforce
  moreover have "map snd ?xs = map snd aps" by auto
  ultimately show ?thesis by argo
qed

lemma aggregate_risc0:
  assumes "aggregate_proofs A EngineRISC0 proofs n = Some (Inr (agg, root))"
  shows "map_option (nt_root (agg_tree A)) (nt_build (agg_tree A) (hash32_new_parent (agg_keccak A))
            (map (hash_image_id_and_public_inputs A) (risc0_proofs proofs))) = Some root \<and>
    (\<forall>p \<in> set (risc0_proofs proofs). \<exists>rs. vm rs (image_id p) (r_journal (receipt p)))"
proof -
  let ?cs = "chunks (unat n) (risc0_proofs proofs)"
  obtain aps q where n: "n \<noteq> 0"
    and aps: "aggregate_chunks (Some \<circ> risc0_run_user_proofs_aggregator A) (hash_image_id_and_public_inputs A) ?cs = Some (Inr aps)"
    and q: "risc0_run_chunk_aggregator A aps = Inr q" and root: "root = r_journal (receipt q)"
    using assms by (auto simp: aggregate_proofs_def Let_def split: if_splits option.splits sum.splits)
  have "0 < unat n" using n by (simp add: unat_gt_0)
  then have cs: "concat ?cs = risc0_proofs proofs" by simp
  have "\<exists>rs. vm rs (image_id p) (r_journal (receipt p))" if p: "p \<in> set (risc0_proofs proofs)" for p
  proof -
    obtain c where "c \<in> set ?cs" "p \<in> set c" using p cs by (metis UN_E set_concat)
    then show ?thesis using aggregate_chunks_Inr [OF aps] user_proofs_verified by fastforce
  qed
  moreover have "concat (map snd aps) = map (hash_image_id_and_public_inputs A) (risc0_proofs proofs)"
    using aggregate_chunks_Inr [OF aps] cs by (simp add: concat_map_map)
  ultimately show ?thesis using chunk_aggregate_root [OF q] root by auto
qed

end

section \<open>Both engines\<close>

text \<open>The proofs of an engine, and their verification inside it.\<close>

fun of_engine :: "ZKVMEngine \<Rightarrow> AlignedProof \<Rightarrow> bool" where
  "of_engine EngineSP1 (AP_SP1 _) = True"
| "of_engine EngineRISC0 (AP_Risc0 _) = True"
| "of_engine _ _ = False"

fun vm_verified ::
    "'n agg_env \<Rightarrow> (bytes \<Rightarrow> bytes) \<Rightarrow> ((bytes \<times> bytes) list \<Rightarrow> 32 word list \<Rightarrow> bytes \<Rightarrow> bool)
     \<Rightarrow> (Receipt list \<Rightarrow> bytes \<Rightarrow> bytes \<Rightarrow> bool) \<Rightarrow> AlignedProof \<Rightarrow> bool" where
  "vm_verified A sha256 vm1 vm0 (AP_SP1 p) =
     (\<exists>ds. vm1 ds (vk_hash_u32 A (sp1_vkey p)) (sha256 (public_values (proof_with_pub_values p))))"
| "vm_verified A sha256 vm1 vm0 (AP_Risc0 p) = (\<exists>rs. vm0 rs (image_id p) (r_journal (receipt p)))"

lemma sp1_proofs_engine: "\<forall>p \<in> set ps. of_engine EngineSP1 p \<Longrightarrow> ps = map AP_SP1 (sp1_proofs ps)"
  by (induction ps rule: sp1_proofs.induct) auto

lemma risc0_proofs_engine: "\<forall>p \<in> set ps. of_engine EngineRISC0 p \<Longrightarrow> ps = map AP_Risc0 (risc0_proofs ps)"
  by (induction ps rule: risc0_proofs.induct) auto

definition digests :: "'n agg_env \<Rightarrow> bool" where
  "digests A \<longleftrightarrow> (\<forall>bs. length (agg_keccak A bs) = 32)"

lemma length_commitment: "digests A \<Longrightarrow> length (commitment A p) = 32"
  by (cases p) (simp_all add: digests_def hash_vk_and_pub_inputs_def hash_image_id_and_public_inputs_def)

lemma length_hash32: "digests A \<Longrightarrow> length (hash32_new_parent (agg_keccak A) a b) = 32"
  by (simp add: digests_def hash32_new_parent_def)

lemma aggregate_both:
  assumes "sp1_prover A sha256 vm1" "risc0_prover A vm0" "merkle_nodes (agg_tree A)" "digests A"
    and "\<forall>p \<in> set proofs. of_engine engine p"
    and agg: "aggregate_proofs A engine proofs n = Some (Inr (agg, root))"
  shows "map_option (nt_root (agg_tree A) \<circ> fst) (compute_proofs_merkle_root A proofs) = Some root \<and>
    (\<forall>p \<in> set proofs. vm_verified A sha256 vm1 vm0 p)"
proof (cases engine)
  case EngineSP1
  note ps = sp1_proofs_engine [OF assms(5) [unfolded EngineSP1]]
  have leaves: "map (commitment A) proofs = map (hash_vk_and_pub_inputs A) (sp1_proofs proofs)"
    by (subst (1) ps) simp
  obtain t where t: "nt_build (agg_tree A) (hash32_new_parent (agg_keccak A)) (map (commitment A) proofs) = Some t"
    and root: "root = take 32 (nt_root (agg_tree A) t)"
    and ver: "\<forall>p \<in> set (sp1_proofs proofs).
       \<exists>ds. vm1 ds (vk_hash_u32 A (sp1_vkey p)) (sha256 (public_values (proof_with_pub_values p)))"
    using sp1_prover.aggregate_sp1 [OF assms(1) agg [unfolded EngineSP1]] leaves by auto
  have "length (nt_root (agg_tree A) t) = 32"
    by (rule merkle_nodes.root_width [OF assms(3) t]) (auto simp: length_hash32 length_commitment assms(4))
  then have "root = nt_root (agg_tree A) t" using root by simp
  moreover have "\<forall>p \<in> set proofs. vm_verified A sha256 vm1 vm0 p" using ver by (subst ps) simp
  ultimately show ?thesis using t by (simp add: compute_proofs_merkle_root_def)
next
  case EngineRISC0
  note ps = risc0_proofs_engine [OF assms(5) [unfolded EngineRISC0]]
  have leaves: "map (commitment A) proofs = map (hash_image_id_and_public_inputs A) (risc0_proofs proofs)"
    by (subst (1) ps) simp
  note r = risc0_prover.aggregate_risc0 [OF assms(2) agg [unfolded EngineRISC0]]
  then have "\<forall>p \<in> set proofs. vm_verified A sha256 vm1 vm0 p" by (subst ps) simp
  then show ?thesis using r leaves by (auto simp: compute_proofs_merkle_root_def)
qed

text \<open>
  Claim C13. An aggregation commits to the proofs that went in. When \<open>aggregate_proofs\<close> succeeds on proofs of
  its engine, for whatever chunk size, the root it returns (read from the public values of the final
  proof) is the Merkle root that the aggregator computes over the commitments of all of them, so the check
  for mismatching roots never fires; and every single proof was verified inside the virtual machine.
\<close>

theorem aggregation_commits_to_verified_proofs:
  assumes "sp1_prover A sha256 vm1" "risc0_prover A vm0" "merkle_nodes (agg_tree A)" "digests A"
    and "\<forall>p \<in> set proofs. of_engine engine p"
    and "aggregate_proofs A engine proofs n = Some (Inr (agg, root))"
  shows "map_option (nt_root (agg_tree A) \<circ> fst) (compute_proofs_merkle_root A proofs) = Some root \<and>
    (\<forall>p \<in> set proofs. vm_verified A sha256 vm1 vm0 p)"
  by (rule aggregate_both [OF assms])

section \<open>Provers that run the programs\<close>

text \<open>
  An environment whose provers run the programs and whose verifiers accept, as in the mock mode of the
  aggregator, and in which every key has the hash that the chunk aggregator expects.
\<close>

definition sample_digest :: "bytes \<Rightarrow> bytes" where
  "sample_digest bs = replicate 31 0 @ [of_nat (Suc (length bs mod 100))]"

definition run_as_proof :: "bytes option \<Rightarrow> string + SP1ProofWithPublicValues" where
  "run_as_proof r = (case r of None \<Rightarrow> Inl ''panic'' | Some v \<Rightarrow> Inr \<lparr> sp1_proof = SP1_Compressed [], public_values = v \<rparr>)"

definition run_as_receipt :: "bytes option \<Rightarrow> string + Receipt" where
  "run_as_receipt r = (case r of None \<Rightarrow> Inl ''panic'' | Some v \<Rightarrow> Inr \<lparr> r_inner = R0_Composite [], r_journal = v \<rparr>)"

definition sample_agg :: "binary_node agg_env" where
  "sample_agg =
     \<lparr> agg_keccak = sample_digest, agg_tree = binary_tree, sp1_setup = (\<lambda>_. Some []),
       sp1_cpu_verify = (\<lambda>_ _. Inr ()), sp1_verify = (\<lambda>_ _. Inr ()),
       vk_hash_u32 = (\<lambda>_. USER_PROOFS_AGGREGATOR_PROGRAM_VK_HASH),
       vk_hash_bytes = (\<lambda>_. concat (map (be_bytes 4) USER_PROOFS_AGGREGATOR_PROGRAM_VK_HASH)),
       USER_PROOFS_PROGRAM_ELF = [1], CHUNK_PROGRAM_ELF = [2],
       sp1_prove_user = (\<lambda>inp _. run_as_proof (sp1_user_proofs_main sample_digest binary_tree id (\<lambda>_ _. True) inp)),
       sp1_prove_chunk = (\<lambda>inp _. run_as_proof (sp1_chunk_main sample_digest binary_tree id (\<lambda>_ _. True) inp)),
       RISC0_USER_PROOFS_AGGREGATOR_PROGRAM_ID = [], RISC0_CHUNK_AGGREGATOR_PROGRAM_ID = [],
       receipt_verify = (\<lambda>_ _. Inr ()), risc0_write_user = (\<lambda>_. Inr ()), risc0_write_chunk = (\<lambda>_. Inr ()),
       risc0_build_env = (\<lambda>_. Inr ()),
       risc0_prove_user = (\<lambda>inp _. run_as_receipt (risc0_user_proofs_main sample_digest binary_tree (\<lambda>_ _. True) inp)),
       risc0_prove_chunk = (\<lambda>inp _. run_as_receipt (risc0_chunk_main sample_digest binary_tree (\<lambda>_ _. True) inp)) \<rparr>"

interpretation sample_sp1: sp1_prover sample_agg id "\<lambda>_ _ _. True"
  by unfold_locales (auto simp: sample_agg_def run_as_proof_def split: option.splits)

interpretation sample_risc0: risc0_prover sample_agg "\<lambda>_ _ _. True"
  by unfold_locales (auto simp: sample_agg_def run_as_receipt_def split: option.splits)

lemma sample_agg_sel [simp]:
  "agg_tree sample_agg = binary_tree" "agg_keccak sample_agg = sample_digest" "digests sample_agg"
  by (simp_all add: sample_agg_def digests_def sample_digest_def)

definition sample_sp1_proof :: SP1ProofWithPubValuesAndElf where
  "sample_sp1_proof = \<lparr> proof_with_pub_values = \<lparr> sp1_proof = SP1_Compressed [7], public_values = [1, 2] \<rparr>,
     sp1_elf = [3], sp1_vkey = [4] \<rparr>"

lemma chunks_single [simp]: "0 < n \<Longrightarrow> chunks n [x] = [[x]]"
  by (simp add: chunks.simps take_Cons')

lemma binary_tree_single [simp]:
  "nt_build binary_tree H [x] = Some (H, 0, [x])" "nt_root binary_tree (H, 0, [x]) = x"
  by (simp_all add: binary_tree_def pad_leaves_def depth_for.simps)

lemma sample_aggregation:
  "\<exists>agg. aggregate_proofs sample_agg EngineSP1 [AP_SP1 sample_sp1_proof] 2 =
     Some (Inr (agg, commitment sample_agg (AP_SP1 sample_sp1_proof)))"
  by (simp add: aggregate_proofs_def sp1_run_user_proofs_aggregator_def sp1_run_chunk_aggregator_def
      sp1_prove_and_check_def sp1_user_proofs_main_def sp1_chunk_main_def run_as_proof_def Let_def
      sp1_statement_def sample_sp1_proof_def sp1_commitment_def hash_vk_and_pub_inputs_def id_bytes_def
      SP1_PROVING_SYSTEM_ID_def sample_digest_def sample_agg_def)

theorem aggregation_commits_to_verified_proofs_witness:
  "map_option (nt_root (agg_tree sample_agg) \<circ> fst) (compute_proofs_merkle_root sample_agg [AP_SP1 sample_sp1_proof]) =
     Some (commitment sample_agg (AP_SP1 sample_sp1_proof)) \<and>
   vm_verified sample_agg id (\<lambda>_ _ _. True) (\<lambda>_ _ _. True) (AP_SP1 sample_sp1_proof)"
proof -
  obtain agg where "aggregate_proofs sample_agg EngineSP1 [AP_SP1 sample_sp1_proof] 2 =
      Some (Inr (agg, commitment sample_agg (AP_SP1 sample_sp1_proof)))"
    using sample_aggregation by blast
  from aggregation_commits_to_verified_proofs [OF sample_sp1.sp1_prover_axioms sample_risc0.risc0_prover_axioms _ _ _ this]
  show ?thesis using binary.merkle_nodes_axioms by simp
qed

end
