(* ===== verification/Agg_Service.thy ===== *)
theory Agg_Service
  imports Agg_Backend Agg_Sound Agg_Client
begin

text \<open>
  Correctness of the aggregator service and of the check in the SDK: what a fetch collects and where the
  next one starts, what a submitted transaction contains, and that the SDK finds every proof that was
  aggregated.
\<close>

section \<open>Batch pointers\<close>

lemma collect_urls_take:
  "length urls \<le> 5 \<Longrightarrow>
   collect_urls xs urls = urls @ take (6 - length urls) (filter (\<lambda>u. u \<noteq> []) (map trim xs))"
proof (induction xs urls rule: collect_urls.induct)
  case (2 url rest urls)
  show ?case
  proof (cases "trim url = []")
    case True
    then show ?thesis using 2 by (simp add: Let_def)
  next
    case nonempty: False
    show ?thesis
    proof (cases "length urls = 5")
      case True
      then show ?thesis using nonempty by (simp add: Let_def MAX_BATCH_URLS_def)
    next
      case False
      then have "6 - length urls = Suc (5 - length urls)" "length urls < 5" using "2.prems" by auto
      then show ?thesis using 2 nonempty by (simp add: Let_def MAX_BATCH_URLS_def)
    qed
  qed
qed simp

text \<open>
  The data pointer of a batch is a list of URLs separated by commas, of which the aggregator tries
  the first six that are not blank, in order: one more than the five that the constant and the
  comments name.
\<close>

lemma parse_batch_urls_first_six:
  "parse_batch_urls s = take 6 (filter (\<lambda>u. u \<noteq> []) (map trim (split_on (CHR '','') s)))"
  by (simp add: parse_batch_urls_def collect_urls_take)

section \<open>Fetching\<close>

text \<open>What a log contributes: nothing when the batch cannot be downloaded.\<close>

definition log_proofs :: "'n agg_env \<Rightarrow> fetch_env \<Rightarrow> ZKVMEngine \<Rightarrow> string \<times> u64 option \<Rightarrow> AlignedProof list" where
  "log_proofs A F engine l =
     (case get_aligned_batch_from_s3_with_multiple_urls F (fst l) of
        Inl _ \<Rightarrow> []
      | Inr data \<Rightarrow> (case compatible_proofs A F engine data of None \<Rightarrow> [] | Some ps \<Rightarrow> ps))"

text \<open>Where a fetch stops: at the end of the logs, or before the first log that exceeds the limit.\<close>

definition fetched_up_to ::
    "'n agg_env \<Rightarrow> fetch_env \<Rightarrow> ZKVMEngine \<Rightarrow> u16 \<Rightarrow> u64 \<Rightarrow> AlignedProof list \<Rightarrow> (string \<times> u64 option) list \<Rightarrow> u64 \<Rightarrow> bool" where
  "fetched_up_to A F engine limit current proofs todo b \<longleftrightarrow>
     (case todo of
        [] \<Rightarrow> b = current
      | l # _ \<Rightarrow> snd l = Some b \<and> unat limit < length proofs + length (log_proofs A F engine l))"

lemma fetch_loop_spec:
  assumes "fetch_loop A F engine limit current logs acc = Some (proofs, b)" "length acc \<le> unat limit"
  shows "length proofs \<le> unat limit \<and>
    (\<exists>taken todo. logs = taken @ todo \<and> proofs = acc @ concat (map (log_proofs A F engine) taken) \<and>
       fetched_up_to A F engine limit current proofs todo b)"
  using assms
proof (induction A F engine limit current logs acc rule: fetch_loop.induct)
  case (2 A F engine limit current pointer blk logs acc)
  let ?l = "(pointer, blk)"
  show ?case
  proof (cases "get_aligned_batch_from_s3_with_multiple_urls F pointer")
    case (Inl e)
    then have "fetch_loop A F engine limit current logs acc = Some (proofs, b)" using "2.prems"(1) by simp
    from "2.IH"(1) [OF Inl this "2.prems"(2)] obtain taken todo where
      ih: "length proofs \<le> unat limit" "logs = taken @ todo" "proofs = acc @ concat (map (log_proofs A F engine) taken)"
        "fetched_up_to A F engine limit current proofs todo b" by blast
    moreover have "log_proofs A F engine ?l = []" using Inl by (simp add: log_proofs_def)
    ultimately show ?thesis by (intro conjI exI [of _ "?l # taken"] exI [of _ todo]) simp_all
  next
    case (Inr data)
    then obtain ps where ps: "compatible_proofs A F engine data = Some ps"
      using "2.prems"(1) by (auto simp: bind_eq_Some_conv)
    then have lp: "log_proofs A F engine ?l = ps" using Inr by (simp add: log_proofs_def)
    show ?thesis
    proof (cases "unat limit < length acc + length ps")
      case True
      then have "blk = Some b" "proofs = acc" using "2.prems"(1) Inr ps by auto
      then show ?thesis using True lp "2.prems"(2)
        by (intro conjI exI [of _ "[]"] exI [of _ "?l # logs"]) (simp_all add: fetched_up_to_def)
    next
      case False
      then have "fetch_loop A F engine limit current logs (acc @ ps) = Some (proofs, b)" "length (acc @ ps) \<le> unat limit"
        using "2.prems"(1) Inr ps by auto
      from "2.IH"(2) [OF Inr ps False this] obtain taken todo where
        ih: "length proofs \<le> unat limit" "logs = taken @ todo" "proofs = (acc @ ps) @ concat (map (log_proofs A F engine) taken)"
          "fetched_up_to A F engine limit current proofs todo b" by blast
      then show ?thesis using lp by (intro conjI exI [of _ "?l # taken"] exI [of _ todo]) simp_all
    qed
  qed
qed (auto simp: fetched_up_to_def)

text \<open>What the constructors of a proof have checked.\<close>

fun checked_proof :: "'n agg_env \<Rightarrow> AlignedProof \<Rightarrow> bool" where
  "checked_proof A (AP_SP1 p) \<longleftrightarrow>
     sp1_setup A (sp1_elf p) = Some (sp1_vkey p) \<and> sp1_cpu_verify A (proof_with_pub_values p) (sp1_vkey p) = Inr ()"
| "checked_proof A (AP_Risc0 p) \<longleftrightarrow> receipt_verify A (receipt p) (image_id p) = Inr ()"

lemma filter_candidates_all:
  assumes "filter_candidates f data = Some ps" "\<And>d p. f d = Some (Some p) \<Longrightarrow> P p"
  shows "\<forall>p \<in> set ps. P p"
  using assms(1)
proof (induction data arbitrary: ps)
  case (Cons d data)
  then obtain c rest where "f d = Some c" "filter_candidates f data = Some rest"
      "ps = (case c of None \<Rightarrow> rest | Some a \<Rightarrow> a # rest)"
    by (auto simp: bind_eq_Some_conv)
  then show ?case using Cons.IH assms(2) by (auto split: option.splits)
qed simp

lemma sp1_candidate_checked:
  "sp1_candidate A F d = Some (Some p) \<Longrightarrow> of_engine EngineSP1 p \<and> checked_proof A p"
  by (auto simp: sp1_candidate_def SP1ProofWithPubValuesAndElf_new_def
      split: if_splits option.splits sum.splits SP1Proof.splits)

lemma risc0_candidate_checked:
  "risc0_candidate A F d = Some (Some p) \<Longrightarrow> of_engine EngineRISC0 p \<and> checked_proof A p"
  by (auto simp: risc0_candidate_def Risc0ProofReceiptAndImageId_new_def bind_eq_Some_conv
      split: if_splits sum.splits option.splits)

lemma log_proofs_checked:
  assumes "p \<in> set (log_proofs A F engine l)"
  shows "of_engine engine p \<and> checked_proof A p"
proof -
  obtain data ps where c: "compatible_proofs A F engine data = Some ps" "p \<in> set ps"
    using assms unfolding log_proofs_def by (auto split: sum.splits option.splits dest: sym)
  then show ?thesis
  proof (cases engine)
    case EngineSP1
    then have "filter_candidates (sp1_candidate A F) data = Some ps" using c(1) by (simp add: compatible_proofs_def)
    from filter_candidates_all [OF this, of "\<lambda>p. of_engine EngineSP1 p \<and> checked_proof A p"]
    show ?thesis using c(2) sp1_candidate_checked EngineSP1 by fastforce
  next
    case EngineRISC0
    then have "filter_candidates (risc0_candidate A F) data = Some ps" using c(1) by (simp add: compatible_proofs_def)
    from filter_candidates_all [OF this, of "\<lambda>p. of_engine EngineRISC0 p \<and> checked_proof A p"]
    show ?thesis using c(2) risc0_candidate_checked EngineRISC0 by fastforce
  qed
qed

lemma fetch_Ret:
  assumes "fetch A F engine limit s = (Ret (Inr proofs), s')"
  obtains current logs b where "get_block_number F = Inr current" "last_aggregated_block s \<le> current"
    "new_batch_logs F (last_aggregated_block s) current = Inr logs"
    "fetch_loop A F engine limit current logs [] = Some (proofs, b)" "s' = s\<lparr>last_aggregated_block := b\<rparr>"
  using assms by (auto simp: fetch_def or_panic_Ret_iff split: sum.splits if_splits)

lemma fetch_spec:
  assumes "fetch A F engine limit s = (Ret (Inr proofs), s')"
  shows "length proofs \<le> unat limit \<and> (\<forall>p \<in> set proofs. of_engine engine p \<and> checked_proof A p) \<and>
    (\<exists>current taken todo. get_block_number F = Inr current \<and> last_aggregated_block s \<le> current \<and>
       new_batch_logs F (last_aggregated_block s) current = Inr (taken @ todo) \<and>
       proofs = concat (map (log_proofs A F engine) taken) \<and>
       fetched_up_to A F engine limit current proofs todo (last_aggregated_block s'))"
proof -
  obtain current logs b where f: "get_block_number F = Inr current" "last_aggregated_block s \<le> current"
    "new_batch_logs F (last_aggregated_block s) current = Inr logs"
    "fetch_loop A F engine limit current logs [] = Some (proofs, b)" "s' = s\<lparr>last_aggregated_block := b\<rparr>"
    using fetch_Ret [OF assms] .
  from fetch_loop_spec [OF f(4)] obtain taken todo where
    l: "length proofs \<le> unat limit" "logs = taken @ todo" "proofs = concat (map (log_proofs A F engine) taken)"
      "fetched_up_to A F engine limit current proofs todo b" by auto
  moreover have "\<forall>p \<in> set proofs. of_engine engine p \<and> checked_proof A p"
    using l(3) log_proofs_checked by fastforce
  ultimately show ?thesis using f by auto
qed

text \<open>
  Claim C21. A successful fetch takes whole batches, in the order of the logs since the last aggregated block,
  as long as the limit on the number of proofs allows: every proof is of the engine and was verified with
  the key or image of its program, their number is within the limit, and the block stored for the next
  fetch is the current one when all logs were taken, otherwise that of the first log left out.
\<close>

theorem fetch_takes_whole_batches:
  assumes "fetch A F engine limit s = (Ret (Inr proofs), s')"
  shows "length proofs \<le> unat limit \<and> (\<forall>p \<in> set proofs. of_engine engine p \<and> checked_proof A p) \<and>
    (\<exists>current taken todo. get_block_number F = Inr current \<and> last_aggregated_block s \<le> current \<and>
       new_batch_logs F (last_aggregated_block s) current = Inr (taken @ todo) \<and>
       proofs = concat (map (log_proofs A F engine) taken) \<and>
       fetched_up_to A F engine limit current proofs todo (last_aggregated_block s'))"
  by (rule fetch_spec [OF assms])

section \<open>A block over the limit\<close>

text \<open>The logs of an environment begin with batches of block \<open>b\<close> that together exceed the limit.\<close>

definition stuck_at :: "'n agg_env \<Rightarrow> fetch_env \<Rightarrow> ZKVMEngine \<Rightarrow> u16 \<Rightarrow> u64 \<Rightarrow> bool" where
  "stuck_at A F engine limit b \<longleftrightarrow>
     (\<exists>current logs rest. get_block_number F = Inr current \<and> new_batch_logs F b current = Inr (logs @ rest) \<and>
        (\<forall>l \<in> set logs. snd l = Some b) \<and>
        unat limit < length (concat (map (log_proofs A F engine) logs)))"

text \<open>Runs of the service, one after the other, as the environment changes between them.\<close>

fun restarts ::
    "'n agg_env \<Rightarrow> blob_env \<Rightarrow> agg_config \<Rightarrow> ZKVMEngine \<Rightarrow> fetch_env list \<Rightarrow> aggregator \<Rightarrow> (unit, aggregator) res" where
  "restarts A V C engine [] s = (Ret (), s)"
| "restarts A V C engine (F # Fs) s = and_then (run_aggregator A F V C engine s) (\<lambda>_ s. restarts A V C engine Fs s)"

lemma fetch_loop_stuck:
  assumes "fetch_loop A F engine limit current (logs @ rest) acc = Some (proofs, b')"
    and "\<forall>l \<in> set logs. snd l = Some b" "length acc \<le> unat limit"
    and "unat limit < length acc + length (concat (map (log_proofs A F engine) logs))"
  shows "b' = b"
  using assms
proof (induction logs arbitrary: acc)
  case (Cons l logs)
  obtain pointer blk where l: "l = (pointer, blk)" by (cases l)
  show ?case
  proof (cases "get_aligned_batch_from_s3_with_multiple_urls F pointer")
    case (Inl e)
    then show ?thesis using Cons l by (auto simp: log_proofs_def)
  next
    case (Inr data)
    then obtain ps where ps: "compatible_proofs A F engine data = Some ps"
      using Cons.prems(1) l by (auto simp: bind_eq_Some_conv)
    then have lp: "log_proofs A F engine l = ps" using Inr l by (simp add: log_proofs_def)
    show ?thesis
    proof (cases "unat limit < length acc + length ps")
      case True
      then show ?thesis using Cons.prems(1,2) l Inr ps by auto
    next
      case False
      then show ?thesis using Cons.prems lp l Inr ps by (intro Cons.IH [of "acc @ ps"]) auto
    qed
  qed
qed simp

lemma send_proof_frame:
  "send_proof_to_verify_on_chain V sc h p s = (r, s') \<Longrightarrow>
   last_aggregated_block s' = last_aggregated_block s \<and> block_file s' = block_file s"
  by (auto simp: send_proof_to_verify_on_chain_def Let_def split: sum.splits)

lemma submit_frame:
  assumes "aggregate_and_submit_proofs_on_chain A F V C engine s = (r, s')"
  shows "block_file s' = block_file s \<and>
    (r = Ret (Inr ()) \<longrightarrow> (\<exists>proofs s1. fetch A F engine (total_proofs_limit C) s = (Ret (Inr proofs), s1) \<and>
       last_aggregated_block s' = last_aggregated_block s1))"
proof (cases "fetch A F engine (total_proofs_limit C) s")
  case (Pair q s1)
  have b: "block_file s1 = block_file s" using Pair
    by (auto simp: fetch_def or_panic_def split: sum.splits if_splits option.splits)
  show ?thesis
  proof (cases "\<exists>proofs. q = Ret (Inr proofs)")
    case False
    then have "s' = s1 \<and> r \<noteq> Ret (Inr ())" using assms Pair
      by (cases q) (auto simp: aggregate_and_submit_proofs_on_chain_def split: sum.splits)
    then show ?thesis using b by simp
  next
    case True
    then obtain proofs where q: "q = Ret (Inr proofs)" by blast
    have "block_file s' = block_file s1 \<and> last_aggregated_block s' = last_aggregated_block s1"
      using assms Pair q
      by (auto simp: aggregate_and_submit_proofs_on_chain_def or_panic_def dest: send_proof_frame
          split: if_splits option.splits sum.splits prod.splits)
    then show ?thesis using b Pair q by auto
  qed
qed

lemma run_stuck:
  assumes "stuck_at A F engine (total_proofs_limit C) b" "block_file s = Some b"
    and io: "open_block_file V = Inr ()" "\<And>b. write_block_file V b = Inr ()"
    and run: "run_aggregator A F V C engine s = (r, s')"
  shows "block_file s' = Some b"
proof -
  let ?s = "s\<lparr>last_aggregated_block := b\<rparr>"
  obtain q s1 where sub: "aggregate_and_submit_proofs_on_chain A F V C engine ?s = (q, s1)" by fastforce
  note frame = submit_frame [OF sub]
  show ?thesis
  proof (cases "q = Ret (Inr ())")
    case True
    then obtain proofs s2 where f: "fetch A F engine (total_proofs_limit C) ?s = (Ret (Inr proofs), s2)"
      and s1: "last_aggregated_block s1 = last_aggregated_block s2" using frame by auto
    obtain current logs b' where
      "get_block_number F = Inr current" "new_batch_logs F b current = Inr logs"
      "fetch_loop A F engine (total_proofs_limit C) current logs [] = Some (proofs, b')"
      "s2 = ?s\<lparr>last_aggregated_block := b'\<rparr>" by (rule fetch_Ret [OF f]) simp
    moreover from calculation have "b' = b" using assms(1) fetch_loop_stuck [of A F engine _ current _ _ "[]" proofs b' b]
      by (fastforce simp: stuck_at_def)
    ultimately show ?thesis using run sub True s1 assms(2) io
      by (auto simp: run_aggregator_def start_def update_last_aggregated_block_def)
  next
    case False
    then have "block_file s' = block_file s1" using run sub assms(2)
      by (cases q) (auto simp: run_aggregator_def start_def split: sum.splits)
    then show ?thesis using frame assms(2) by simp
  qed
qed

text \<open>
  Claim C40. The proofs of one block have to fit in the limit together. Once the stored block is one whose
  batches hold more proofs of the engine than the limit, no later run gets past it, however the chain
  grows and whatever the outcome of the runs: the block in the file stays the same, so neither the
  batch that did not fit nor any later one is ever aggregated.
\<close>

theorem block_over_limit_stalls:
  assumes "block_file s = Some b" "\<forall>F \<in> set Fs. stuck_at A F engine (total_proofs_limit C) b"
    and "open_block_file V = Inr ()" "\<And>b. write_block_file V b = Inr ()"
  shows "block_file (snd (restarts A V C engine Fs s)) = Some b"
  using assms(1,2)
proof (induction Fs arbitrary: s)
  case (Cons F Fs)
  obtain r s' where run: "run_aggregator A F V C engine s = (r, s')" by (cases "run_aggregator A F V C engine s")
  then have "block_file s' = Some b" using run_stuck [OF _ Cons.prems(1) assms(3,4) run] Cons.prems(2) by simp
  then show ?case using Cons run by (cases r) auto
qed simp

section \<open>Submission\<close>

text \<open>The root that a call publishes, and the blob it refers to.\<close>

fun call_root :: "contract_call \<Rightarrow> bytes" where
  "call_root (VerifySP1 h values pf) = take 32 values"
| "call_root (VerifyRisc0 h seal journal) = journal"

fun call_blob_hash :: "contract_call \<Rightarrow> bytes" where
  "call_blob_hash (VerifySP1 h values pf) = h"
| "call_blob_hash (VerifyRisc0 h seal journal) = h"

lemma contract_call_for_root:
  assumes "aggregate_proofs A engine proofs n = Some (Inr (agg, root))" "contract_call_for V h agg = Inr call"
  shows "call_root call = root \<and> call_blob_hash call = h"
proof (cases engine)
  case EngineSP1
  then show ?thesis using assms by (auto simp: aggregate_proofs_def Let_def split: if_splits option.splits sum.splits)
next
  case EngineRISC0
  then show ?thesis using assms by (auto simp: aggregate_proofs_def Let_def split: if_splits option.splits sum.splits)
qed

lemma construct_blob_Inr:
  assumes "construct_blob V leaves = Some (Inr (sc, h))"
  shows "blob_data_of leaves = Some (sidecar_blob sc) \<and>
    blob_to_kzg_commitment V (sidecar_blob sc) = Some (sidecar_commitment sc) \<and>
    versioned_hash_for_blob V (sidecar_commitment sc) = Some h"
  using assms by (cases "blob_data_of leaves") (auto simp: construct_blob_def split: option.split_asm)

lemma send_proof_cases:
  assumes "send_proof_to_verify_on_chain V sc h agg s = (r, s')"
  shows "s' = s \<or> (\<exists>call. contract_call_for V h agg = Inr call \<and>
    s' = s\<lparr>sent_transactions := sent_transactions s @ [(call, sc)]\<rparr>)"
  using assms by (auto simp: send_proof_to_verify_on_chain_def Let_def split: sum.splits)

text \<open>
  What is published by a call and its blob: the commitments of proofs that were verified in the
  virtual machine and their Merkle root, under the versioned hash of the blob.
\<close>

definition publishes ::
    "'n agg_env \<Rightarrow> blob_env \<Rightarrow> (bytes \<Rightarrow> bytes) \<Rightarrow> ((bytes \<times> bytes) list \<Rightarrow> 32 word list \<Rightarrow> bytes \<Rightarrow> bool)
     \<Rightarrow> (Receipt list \<Rightarrow> bytes \<Rightarrow> bytes \<Rightarrow> bool) \<Rightarrow> AlignedProof list \<Rightarrow> contract_call \<Rightarrow> blob_sidecar \<Rightarrow> bool" where
  "publishes A V sha256 vm1 vm0 proofs call sc \<longleftrightarrow>
     (\<forall>p \<in> set proofs. vm_verified A sha256 vm1 vm0 p) \<and>
     decoded_blob (sidecar_blob sc) = map (commitment A) proofs \<and>
     map_option (nt_root (agg_tree A) \<circ> fst) (compute_proofs_merkle_root A proofs) = Some (call_root call) \<and>
     blob_to_kzg_commitment V (sidecar_blob sc) = Some (sidecar_commitment sc) \<and>
     versioned_hash_for_blob V (sidecar_commitment sc) = Some (call_blob_hash call)"

lemma submit_publishes:
  assumes P: "sp1_prover A sha256 vm1" "risc0_prover A vm0" "merkle_nodes (agg_tree A)" "digests A"
    and nz: "\<And>bs. agg_keccak A bs \<noteq> zero32"
    and sub: "aggregate_and_submit_proofs_on_chain A F V C engine s = (r, s')"
    and fetched: "fetch A F engine (total_proofs_limit C) s = (Ret (Inr proofs), s1)" "proofs \<noteq> []"
  shows "r \<noteq> Ret (Inl MerkleRootMisMatch) \<and>
    (sent_transactions s' = sent_transactions s \<or>
     (\<exists>call sc. sent_transactions s' = sent_transactions s @ [(call, sc)] \<and> publishes A V sha256 vm1 vm0 proofs call sc))"
proof -
  have s1: "sent_transactions s1 = sent_transactions s"
    by (rule fetch_Ret [OF fetched(1)]) simp
  have eng: "\<forall>p \<in> set proofs. of_engine engine p" using fetch_spec [OF fetched(1)] by blast
  show ?thesis
  proof (cases "\<exists>t leaves agg root. compute_proofs_merkle_root A proofs = Some (t, leaves) \<and>
      aggregate_proofs A engine proofs (proofs_per_chunk C) = Some (Inr (agg, root))")
    case False
    then have "s' = s1 \<and> r \<noteq> Ret (Inl MerkleRootMisMatch)" using sub fetched
      by (auto simp: aggregate_and_submit_proofs_on_chain_def or_panic_def split: option.splits sum.splits)
    then show ?thesis using s1 by simp
  next
    case True
    then obtain t leaves agg root where t: "compute_proofs_merkle_root A proofs = Some (t, leaves)"
      and agg: "aggregate_proofs A engine proofs (proofs_per_chunk C) = Some (Inr (agg, root))" by blast
    have both: "map_option (nt_root (agg_tree A) \<circ> fst) (compute_proofs_merkle_root A proofs) = Some root"
      "\<forall>p \<in> set proofs. vm_verified A sha256 vm1 vm0 p"
      using aggregate_both [OF P eng agg] by blast+
    have leaves: "leaves = map (commitment A) proofs" using t by (auto simp: compute_proofs_merkle_root_def)
    have wf: "length l = 32 \<and> l \<noteq> zero32" if l: "l \<in> set leaves" for l
    proof -
      obtain p where "l = commitment A p" using l leaves by auto
      then show ?thesis using nz length_commitment [OF P(4), of p]
        by (cases p) (auto simp: hash_vk_and_pub_inputs_def hash_image_id_and_public_inputs_def)
    qed
    show ?thesis
    proof (cases "\<exists>sc h. construct_blob V leaves = Some (Inr (sc, h))")
      case False
      then have "s' = s1 \<and> r \<noteq> Ret (Inl MerkleRootMisMatch)" using sub fetched t agg both(1)
        by (auto simp: aggregate_and_submit_proofs_on_chain_def or_panic_def construct_blob_def
            split: option.splits sum.splits)
      then show ?thesis using s1 by simp
    next
      case True
      then obtain sc h where b: "construct_blob V leaves = Some (Inr (sc, h))" by blast
      obtain q s2 where send: "send_proof_to_verify_on_chain V sc h agg s1 = (q, s2)" by fastforce
      have r: "s' = s2" "r \<noteq> Ret (Inl MerkleRootMisMatch)" using sub fetched t agg both(1) b send
        by (auto simp: aggregate_and_submit_proofs_on_chain_def send_proof_to_verify_on_chain_def Let_def
            elim: contract_call_for.elims split: sum.splits)
      have "decoded_blob (sidecar_blob sc) = leaves"
        by (rule written_blob_decodes) (use wf construct_blob_Inr [OF b] in auto)
      then have "publishes A V sha256 vm1 vm0 proofs call sc" if "contract_call_for V h agg = Inr call" for call
        using contract_call_for_root [OF agg that] construct_blob_Inr [OF b] both leaves by (simp add: publishes_def)
      then show ?thesis using send_proof_cases [OF send] r s1 by auto
    qed
  qed
qed

text \<open>
  Claim C14. What the aggregator sends. A run whose fetch returned proofs never fails for mismatching roots, and
  sends nothing or exactly one transaction; that one carries a blob that decodes to the commitments of
  exactly the fetched proofs, in order, the versioned hash of this blob, and the Merkle root over the
  commitments; and each of the proofs was verified inside the virtual machine.
\<close>

theorem submission_publishes_fetched_proofs:
  assumes "sp1_prover A sha256 vm1" "risc0_prover A vm0" "merkle_nodes (agg_tree A)" "digests A"
    and "\<And>bs. agg_keccak A bs \<noteq> zero32"
    and "aggregate_and_submit_proofs_on_chain A F V C engine s = (r, s')"
    and "fetch A F engine (total_proofs_limit C) s = (Ret (Inr proofs), s1)" "proofs \<noteq> []"
  shows "r \<noteq> Ret (Inl MerkleRootMisMatch) \<and>
    (sent_transactions s' = sent_transactions s \<or>
     (\<exists>call sc. sent_transactions s' = sent_transactions s @ [(call, sc)] \<and> publishes A V sha256 vm1 vm0 proofs call sc))"
  by (rule submit_publishes [OF assms])

section \<open>A run on a chain with one batch\<close>

definition sample_vd :: VerificationData where
  "sample_vd = \<lparr> proving_system = SP1, proof_bytes = [7], pub_input = None, verification_key = None,
     vm_program_code = Some [3], proof_generator_addr = 0 \<rparr>"

definition sample_fetch :: "u64 \<Rightarrow> fetch_env" where
  "sample_fetch b =
     \<lparr> http_client = Inr (), http_get = (\<lambda>_ _. Inr \<lparr> http_status = 200, http_reason = [], http_body = Inr [] \<rparr>),
       cbor_batch = (\<lambda>_. Inr [sample_vd]), s3_driver = std_backon, debug_batch_error = (\<lambda>_. []),
       get_block_number = Inr 10, new_batch_logs = (\<lambda>_ _. Inr [(''u'', Some b)]),
       bincode_sp1 = (\<lambda>_. Some \<lparr> sp1_proof = SP1_Compressed [7], public_values = [1, 2] \<rparr>),
       bincode_receipt = (\<lambda>_. None) \<rparr>"

definition sample_fetched :: AlignedProof where
  "sample_fetched = AP_SP1 (sample_sp1_proof\<lparr>sp1_vkey := []\<rparr>)"

definition sample_aggregator :: aggregator where
  "sample_aggregator = \<lparr> last_aggregated_block = 5, block_file = Some 5, sent_transactions = [] \<rparr>"

definition sample_blob :: blob_env where
  "sample_blob =
     \<lparr> blob_to_kzg_commitment = (\<lambda>_. Some [9]), compute_blob_kzg_proof = (\<lambda>_ _. Some [8]),
       versioned_hash_for_blob = (\<lambda>_. Some (replicate 32 1)),
       sp1_proof_bytes = (\<lambda>_. [6]), encode_seal = (\<lambda>_. Inr [5]), tx_fill = (\<lambda>_ _. Inr [4]),
       tx_envelope = Inr, tx_pooled = Inr, tx_sidecar_7594 = Inr, send_raw_transaction = Inr, get_receipt = Inr,
       open_block_file = Inr (), write_block_file = (\<lambda>_. Inr ()) \<rparr>"

lemma sample_batch: "get_aligned_batch_from_s3_with_multiple_urls (sample_fetch b) ''u'' = Inr [sample_vd]"
  by (simp add: get_aligned_batch_from_s3_with_multiple_urls_def parse_batch_urls_def trim_def is_whitespace_def
      Let_def MAX_BATCH_URLS_def get_aligned_batch_from_s3_def agg_retry_function_def
      get_aligned_batch_from_s3_retryable_def sample_fetch_def is_success_def)

lemma sample_compatible: "compatible_proofs sample_agg (sample_fetch b) EngineSP1 [sample_vd] = Some [sample_fetched]"
  by (simp add: compatible_proofs_def sp1_candidate_def sample_vd_def sample_fetched_def
      sample_sp1_proof_def SP1ProofWithPubValuesAndElf_new_def Let_def sample_fetch_def sample_agg_def)

lemma sample_log_proofs: "log_proofs sample_agg (sample_fetch b) EngineSP1 (''u'', x) = [sample_fetched]"
  by (simp add: log_proofs_def sample_batch sample_compatible)

lemma sample_fetch_result:
  "fetch sample_agg (sample_fetch b) EngineSP1 2 sample_aggregator =
     (Ret (Inr [sample_fetched]), sample_aggregator\<lparr>last_aggregated_block := 10\<rparr>)"
proof -
  have "get_block_number (sample_fetch b) = Inr 10" "new_batch_logs (sample_fetch b) 5 10 = Inr [(''u'', Some b)]"
    "last_aggregated_block sample_aggregator = 5"
    by (simp_all add: sample_fetch_def sample_aggregator_def)
  then show ?thesis by (simp add: fetch_def sample_batch sample_compatible)
qed

theorem fetch_takes_whole_batches_witness:
  "of_engine EngineSP1 sample_fetched \<and> checked_proof sample_agg sample_fetched"
  using fetch_takes_whole_batches [OF sample_fetch_result] by simp

theorem block_over_limit_stalls_witness:
  "block_file (snd (restarts sample_agg sample_blob \<lparr> proofs_per_chunk = 2, total_proofs_limit = 0 \<rparr> EngineSP1
     [sample_fetch 5, sample_fetch 5, sample_fetch 5] sample_aggregator)) = Some 5"
proof (rule block_over_limit_stalls)
  have "stuck_at sample_agg (sample_fetch 5) EngineSP1 0 5"
    unfolding stuck_at_def
    by (rule exI [of _ 10], rule exI [of _ "[(''u'', Some 5)]"], rule exI [of _ "[]"])
      (simp add: sample_log_proofs, simp add: sample_fetch_def)
  then show "\<forall>F \<in> set [sample_fetch 5, sample_fetch 5, sample_fetch 5].
      stuck_at sample_agg F EngineSP1 (total_proofs_limit \<lparr> proofs_per_chunk = 2, total_proofs_limit = 0 \<rparr>) 5" by simp
qed (simp_all add: sample_aggregator_def sample_blob_def)

lemma sample_fetched_aggregation:
  "\<exists>agg. aggregate_proofs sample_agg EngineSP1 [sample_fetched] 2 =
     Some (Inr (AP_SP1 agg, commitment sample_agg sample_fetched))"
  by (simp add: aggregate_proofs_def sp1_run_user_proofs_aggregator_def sp1_run_chunk_aggregator_def sample_fetched_def
      sp1_prove_and_check_def sp1_user_proofs_main_def sp1_chunk_main_def run_as_proof_def Let_def
      sp1_statement_def sample_sp1_proof_def sp1_commitment_def hash_vk_and_pub_inputs_def id_bytes_def
      SP1_PROVING_SYSTEM_ID_def sample_digest_def sample_agg_def)

lemma sample_digest_nonzero: "agg_keccak sample_agg bs \<noteq> zero32"
proof -
  have "length bs mod 100 < 100" by simp
  then have "unat (of_nat (Suc (length bs mod 100)) :: byte) = Suc (length bs mod 100)"
    by (simp add: unat_of_nat del: of_nat_Suc)
  then have "(of_nat (Suc (length bs mod 100)) :: byte) \<noteq> 0" by (metis unat_0 nat.distinct(1))
  then have "last (agg_keccak sample_agg bs) \<noteq> 0" by (simp add: sample_digest_def)
  then show ?thesis by (auto simp: zero32_def)
qed

definition sample_config :: agg_config where
  "sample_config = \<lparr> proofs_per_chunk = 2, total_proofs_limit = 2 \<rparr>"

lemma sample_sends:
  "sent_transactions (snd (aggregate_and_submit_proofs_on_chain sample_agg (sample_fetch 7) sample_blob sample_config
     EngineSP1 sample_aggregator)) \<noteq> []"
proof -
  let ?c = "commitment sample_agg sample_fetched"
  obtain agg where agg: "aggregate_proofs sample_agg EngineSP1 [sample_fetched] 2 = Some (Inr (AP_SP1 agg, ?c))"
    using sample_fetched_aggregation by blast
  have root: "compute_proofs_merkle_root sample_agg [sample_fetched] =
      Some ((aligned_hash_new_parent sample_digest, 0, [?c]), [?c])"
    by (simp add: compute_proofs_merkle_root_def)
  have "length ?c = 32" by (rule length_commitment) simp
  then obtain blob where "blob_data_of [?c] = Some blob" using blob_fits_iff [of "[?c]"] by auto
  then have blob: "construct_blob sample_blob [?c] =
      Some (Inr (\<lparr> sidecar_blob = blob, sidecar_commitment = [9], sidecar_proof = [8] \<rparr>, replicate 32 1))"
    by (simp add: construct_blob_def sample_blob_def)
  have C: "total_proofs_limit sample_config = 2" "proofs_per_chunk sample_config = 2" by (simp_all add: sample_config_def)
  show ?thesis
    by (simp add: aggregate_and_submit_proofs_on_chain_def C sample_fetch_result root agg blob)
      (simp add: send_proof_to_verify_on_chain_def encoded_transaction_def sample_blob_def Let_def)
qed

theorem submission_publishes_fetched_proofs_witness:
  "\<exists>call sc. sent_transactions (snd (aggregate_and_submit_proofs_on_chain sample_agg (sample_fetch 7) sample_blob
       sample_config EngineSP1 sample_aggregator)) = [(call, sc)] \<and>
     publishes sample_agg sample_blob id (\<lambda>_ _ _. True) (\<lambda>_ _ _. True) [sample_fetched] call sc"
proof -
  have f: "fetch sample_agg (sample_fetch 7) EngineSP1 (total_proofs_limit sample_config) sample_aggregator =
      (Ret (Inr [sample_fetched]), sample_aggregator\<lparr>last_aggregated_block := 10\<rparr>)"
    by (simp add: sample_config_def sample_fetch_result)
  have "merkle_nodes (agg_tree sample_agg)" using binary.merkle_nodes_axioms by simp
  from submission_publishes_fetched_proofs [OF sample_sp1.sp1_prover_axioms sample_risc0.risc0_prover_axioms this
      sample_agg_sel(3) sample_digest_nonzero surjective_pairing f, where V = sample_blob]
  show ?thesis using sample_sends by (simp add: sample_aggregator_def)
qed

end
