(* ===== verification/Agg_Found.thy ===== *)
theory Agg_Found
  imports Agg_Service
begin

text \<open>
  From the aggregator to the SDK: a verification status is backed by an event and its blob, and every
  proof whose commitment the aggregator published is found by the SDK, with a Merkle path that verifies.
\<close>

section \<open>Searching\<close>

lemma position_Some: "position P xs = Some i \<Longrightarrow> i < length xs \<and> P (xs ! i)"
  by (induction xs arbitrary: i) (auto split: if_splits)

lemma position_None: "position P xs = None \<longleftrightarrow> (\<forall>x \<in> set xs. \<not> P x)"
  by (induction xs) auto

lemma check_logs_Verified:
  assumes "check_logs E rpc_url beacon_url h logs = Some (Inr (Verified root path))"
  shows "\<exists>l leaves pos. l \<in> set logs \<and>
    get_blob_data_from_verified_proof_event E rpc_url beacon_url l = Some (Inr (root, leaves)) \<and>
    pos < length leaves \<and> leaves ! pos = h \<and>
    nt_verify (ac_tree E) (hash32_new_parent (ac_keccak E)) path root pos h"
  using assms
proof (induction logs)
  case (Cons l logs)
  from Cons.prems obtain x where x: "get_blob_data_from_verified_proof_event E rpc_url beacon_url l = Some x"
    by (auto simp: bind_eq_Some_conv)
  then obtain r leaves where g: "get_blob_data_from_verified_proof_event E rpc_url beacon_url l = Some (Inr (r, leaves))"
    using Cons.prems by (cases x) auto
  show ?case
  proof (cases "check_logs E rpc_url beacon_url h logs = Some (Inr (Verified root path))")
    case True
    then show ?thesis using Cons.IH by auto
  next
    case False
    then obtain pos where "position (\<lambda>p. p = h) leaves = Some pos" "r = root"
        "nt_verify (ac_tree E) (hash32_new_parent (ac_keccak E)) path root pos h"
      using Cons.prems g by (auto split: option.splits if_splits)
    then show ?thesis using g position_Some by fastforce
  qed
qed simp

text \<open>
  Claim C20. A proof that the SDK reports as verified is backed by the chain: there is an event of the
  aggregation contract, among those fetched, whose root is the one reported, whose blob decodes to
  leaves that include the commitment of the proof, and the reported path leads from it to the root.
\<close>

theorem verified_status_sound:
  assumes "check_proof_verification E d network rpc_url beacon_url from_block = Some (Inr (Verified root path))"
  shows "\<exists>logs l leaves pos. fetch_verified_proofs_events E network rpc_url from_block = Some (Inr logs) \<and> l \<in> set logs \<and>
    get_blob_data_from_verified_proof_event E rpc_url beacon_url l = Some (Inr (root, leaves)) \<and>
    pos < length leaves \<and> leaves ! pos = am_commitment (ac_keccak E) d \<and>
    nt_verify (ac_tree E) (hash32_new_parent (ac_keccak E)) path root pos (am_commitment (ac_keccak E) d)"
proof -
  from assms obtain x where x: "fetch_verified_proofs_events E network rpc_url from_block = Some x"
    by (auto simp: check_proof_verification_def bind_eq_Some_conv)
  then obtain logs where logs: "fetch_verified_proofs_events E network rpc_url from_block = Some (Inr logs)"
    using assms by (cases x) (auto simp: check_proof_verification_def)
  then have "check_logs E rpc_url beacon_url (am_commitment (ac_keccak E) d) logs = Some (Inr (Verified root path))"
    using assms by (simp add: check_proof_verification_def)
  from check_logs_Verified [OF this] logs show ?thesis by blast
qed

section \<open>Text formats\<close>

text \<open>Hexadecimal text has no letter \<open>x\<close>, so that removing every \<open>0x\<close> removes the prefix only.\<close>

locale hex_text = hex_codec +
  assumes enc_no_x: "CHR ''x'' \<notin> set (hex_encode H bs)"
begin

lemma decode_prefixed: "hex_decode H (strip_0x (''0x'' @ hex_encode H bs)) = Some bs"
proof -
  have "CHR ''x'' \<notin> set s \<Longrightarrow> strip_0x s = s" for s by (induction s rule: strip_0x.induct) auto
  then show ?thesis using enc_no_x decode_enc by simp
qed

end

lemma hex_digit_not_x: "n < 16 \<Longrightarrow> hex_digit n \<noteq> CHR ''x''"
proof -
  have "\<forall>n \<in> {0..<16}. hex_digit n \<noteq> CHR ''x''" unfolding hex_digit_def by code_simp
  then show "n < 16 \<Longrightarrow> hex_digit n \<noteq> CHR ''x''" by simp
qed

interpretation std_hex: hex_text std_hex
proof unfold_locales
  fix bs
  have d: "unat (b :: byte) div 16 < 16" for b
  proof -
    have "unat b < 256" using unsigned_less [of b] by simp
    then show ?thesis by simp
  qed
  have "CHR ''x'' \<notin> set (hex_encode_bytes bs)"
    by (auto simp: hex_encode_bytes_def dest!: sym [of "CHR ''x''"] simp: hex_digit_not_x d)
  then show "CHR ''x'' \<notin> set (hex_encode std_hex bs)" by (simp add: std_hex_def)
qed

text \<open>A number that is printed in decimal and parsed again.\<close>

abbreviation digits_value :: "nat \<Rightarrow> string \<Rightarrow> nat" where
  "digits_value \<equiv> foldl (\<lambda>n c. 10 * n + (of_char c - 48))"

lemma digit_char: "(n :: nat) < 10 \<Longrightarrow> of_char (char_of (48 + n) :: char) = 48 + n"
  by (simp add: of_char_of)

lemma nat_display_digits:
  "nat_display n \<noteq> [] \<and> list_all is_digit (nat_display n) \<and> digits_value 0 (nat_display n) = n"
proof (induction n rule: nat_display.induct)
  case (1 n)
  show ?case
  proof (cases "n < 10")
    case True
    then show ?thesis by (subst (1 2 3) nat_display.simps) (simp add: is_digit_def digit_char)
  next
    case False
    have "is_digit (char_of (48 + n mod 10))" by (simp add: is_digit_def digit_char less_Suc_eq_le [symmetric])
    then show ?thesis using 1 False
      by (subst (1 2 3) nat_display.simps) (simp add: digit_char)
  qed
qed

lemma parse_u64_display: "parse_u64 (nat_display (unat w)) = Some w"
proof -
  note d = nat_display_digits [of "unat w"]
  then have "hd (nat_display (unat w)) \<noteq> CHR ''+''"
    by (cases "nat_display (unat w)") (auto simp: is_digit_def)
  then show ?thesis using d unsigned_less [of w] by (simp add: parse_u64_def Let_def not_le)
qed

section \<open>Publication\<close>

text \<open>
  The event of a call as the SDK sees it: the log carries the versioned hash and the root, its block is found on
  the beacon chain, and the sidecars of that slot, as hexadecimal text, include the one of the call, the only
  one with its hash.
\<close>

definition sidecar_json :: "'j beacon_env \<Rightarrow> bytes \<Rightarrow> bytes \<Rightarrow> BlobData \<Rightarrow> bool" where
  "sidecar_json B c blob d \<longleftrightarrow>
     kzg_commitment d = ''0x'' @ hex_encode (beacon_hex B) c \<and> blob_hex d = ''0x'' @ hex_encode (beacon_hex B) blob"

definition slot_of_block :: "('j, 'n) agg_client_env \<Rightarrow> string \<Rightarrow> event_log \<Rightarrow> u64 \<Rightarrow> bool" where
  "slot_of_block E beacon_url l slot_number \<longleftrightarrow>
     (\<exists>n parent blk. log_block_number l = Some n \<and> ac_block E n = Inr (Some (Some parent)) \<and>
        get_block_header_from_parent_hash (ac_beacon E beacon_url) parent = Inr (Some blk) \<and>
        slot (header_message blk) = nat_display (unat slot_number))"

definition event_of_call ::
    "('j, 'n) agg_client_env \<Rightarrow> string \<Rightarrow> string \<Rightarrow> contract_call \<Rightarrow> blob_sidecar \<Rightarrow> event_log \<Rightarrow> bool" where
  "event_of_call E rpc_url beacon_url call sc l \<longleftrightarrow>
     (let B = ac_beacon E beacon_url in
      ac_provider E rpc_url = Inr () \<and>
      32 \<le> length (log_data l) \<and> take 32 (log_data l) = call_blob_hash call \<and>
      2 \<le> length (log_topics l) \<and> log_topics l ! 1 = call_root call \<and>
      (\<exists>slot_number blobs. slot_of_block E beacon_url l slot_number \<and> get_blobs_from_slot B slot_number = Inr blobs \<and>
         (\<exists>d \<in> set blobs. sidecar_json B (sidecar_commitment sc) (sidecar_blob sc) d) \<and>
         (\<forall>d \<in> set blobs. \<exists>c blob. sidecar_json B c blob d \<and>
            (versioned_hash B c = call_blob_hash call \<longrightarrow> blob = sidecar_blob sc))))"

lemma find_blob_sidecar:
  assumes "hex_text (beacon_hex B)"
    and "\<forall>d \<in> set blobs. \<exists>c b. sidecar_json B c b d \<and> (versioned_hash B c = h \<longrightarrow> b = blob)"
    and "\<exists>d \<in> set blobs. \<exists>c b. sidecar_json B c b d \<and> versioned_hash B c = h"
  shows "\<exists>d. find_blob B h blobs = Some (Some d) \<and> hex_decode (beacon_hex B) (strip_0x (blob_hex d)) = Some blob"
  using assms(2,3)
proof (induction blobs)
  case (Cons d ds)
  note dec = hex_text.decode_prefixed [OF assms(1)]
  obtain c b where c: "sidecar_json B c b d" "versioned_hash B c = h \<longrightarrow> b = blob" using Cons.prems(1) by auto
  then have k: "hex_decode (beacon_hex B) (strip_0x (kzg_commitment d)) = Some c"
    and bl: "hex_decode (beacon_hex B) (strip_0x (blob_hex d)) = Some b"
    using dec unfolding sidecar_json_def by metis+
  show ?case
  proof (cases "versioned_hash B c = h")
    case True
    then show ?thesis using k bl c by simp
  next
    case False
    have "c' = c" if "sidecar_json B c' b' d" for c' b'
    proof -
      have "hex_decode (beacon_hex B) (strip_0x (kzg_commitment d)) = Some c'"
        using that dec unfolding sidecar_json_def by metis
      then show ?thesis using k by simp
    qed
    then have "\<exists>d \<in> set ds. \<exists>c b. sidecar_json B c b d \<and> versioned_hash B c = h" using Cons.prems(2) False by auto
    then show ?thesis using Cons False k by simp
  qed
qed simp

lemma event_of_call_resolves:
  assumes "hex_text (beacon_hex (ac_beacon E beacon_url))" "event_of_call E rpc_url beacon_url call sc l"
    and "versioned_hash (ac_beacon E beacon_url) (sidecar_commitment sc) = call_blob_hash call"
  shows "get_blob_data_from_verified_proof_event E rpc_url beacon_url l =
    Some (Inr (call_root call, decoded_blob (sidecar_blob sc)))"
proof -
  let ?B = "ac_beacon E beacon_url"
  from assms(2) obtain slot_number blobs where e:
      "ac_provider E rpc_url = Inr ()" "\<not> length (log_data l) < 32" "take 32 (log_data l) = call_blob_hash call"
      "\<not> length (log_topics l) < 2" "log_topics l ! 1 = call_root call" "slot_of_block E beacon_url l slot_number"
      "get_blobs_from_slot ?B slot_number = Inr blobs"
      "\<exists>d \<in> set blobs. sidecar_json ?B (sidecar_commitment sc) (sidecar_blob sc) d"
      "\<forall>d \<in> set blobs. \<exists>c blob. sidecar_json ?B c blob d \<and> (versioned_hash ?B c = call_blob_hash call \<longrightarrow> blob = sidecar_blob sc)"
    unfolding event_of_call_def Let_def by (meson not_le)
  from find_blob_sidecar [OF assms(1) e(9)] e(8) assms(3) obtain d where d:
      "find_blob ?B (call_blob_hash call) blobs = Some (Some d)"
      "hex_decode (beacon_hex ?B) (strip_0x (blob_hex d)) = Some (sidecar_blob sc)" by blast
  from e(6) obtain n parent blk where s: "log_block_number l = Some n" "ac_block E n = Inr (Some (Some parent))"
      "get_block_header_from_parent_hash ?B parent = Inr (Some blk)"
      "parse_u64 (slot (header_message blk)) = Some slot_number"
    by (auto simp: slot_of_block_def parse_u64_display)
  show ?thesis using e(1-5,7) d s
    by (simp add: get_blob_data_from_verified_proof_event_def get_blob_by_versioned_hash_def Let_def)
qed

section \<open>Finding an aggregated proof\<close>

lemma check_logs_finds:
  assumes tree: "merkle_nodes (ac_tree E)"
    and logs: "\<And>l. l \<in> set logs \<Longrightarrow> \<exists>root leaves t.
      get_blob_data_from_verified_proof_event E rpc_url beacon_url l = Some (Inr (root, leaves)) \<and>
      nt_build (ac_tree E) (hash32_new_parent (ac_keccak E)) leaves = Some t \<and> nt_root (ac_tree E) t = root"
    and l: "l \<in> set logs" "get_blob_data_from_verified_proof_event E rpc_url beacon_url l = Some (Inr (r, ls))" "h \<in> set ls"
  shows "\<exists>root path. check_logs E rpc_url beacon_url h logs = Some (Inr (Verified root path))"
  using logs l(1)
proof (induction logs)
  case (Cons k logs)
  let ?H = "hash32_new_parent (ac_keccak E)"
  obtain root leaves t where k: "get_blob_data_from_verified_proof_event E rpc_url beacon_url k = Some (Inr (root, leaves))"
    "nt_build (ac_tree E) ?H leaves = Some t" "nt_root (ac_tree E) t = root" using Cons.prems(1) by fastforce
  show ?case
  proof (cases "position (\<lambda>p. p = h) leaves")
    case None
    then have "h \<notin> set leaves" by (auto simp: position_None)
    then have "l \<noteq> k" using k l(2,3) by auto
    then show ?thesis using Cons k None by simp
  next
    case (Some pos)
    then have "pos < length leaves" "leaves ! pos = h" using position_Some [OF Some] by auto
    then obtain path where "nt_proof_by_pos (ac_tree E) t pos = Some path" "nt_verify (ac_tree E) ?H path root pos h"
      using merkle_nodes.nodes_inclusion [OF tree k(2)] k(3) by blast
    then show ?thesis using k Some by simp
  qed
qed simp

text \<open>The data with which a user asks for a proof: the key or image of the program, and the public inputs.\<close>

fun statement_of :: "'n agg_env \<Rightarrow> AlignedProof \<Rightarrow> AggregationModeVerificationData" where
  "statement_of A (AP_SP1 p) = SP1Data (vk_hash_bytes A (sp1_vkey p)) (public_values (proof_with_pub_values p))"
| "statement_of A (AP_Risc0 p) = Risc0Data (image_id p) (r_journal (receipt p))"

lemma statement_of_commitment: "am_commitment (agg_keccak A) (statement_of A p) = commitment A p"
  by (cases p) (simp_all add: hash_vk_and_pub_inputs_def hash_image_id_and_public_inputs_def public_inputs_def
      proving_system_id_bytes_def)

lemma published_proof_found:
  assumes "merkle_nodes (agg_tree A)" "hex_text (beacon_hex (ac_beacon E beacon_url))"
    and "ac_tree E = agg_tree A" "ac_keccak E = agg_keccak A"
    and "\<And>c. versioned_hash_for_blob V c = Some (versioned_hash (ac_beacon E beacon_url) c)"
    and "fetch_verified_proofs_events E network rpc_url from_block = Some (Inr logs)"
    and "\<And>l. l \<in> set logs \<Longrightarrow> \<exists>proofs call sc. publishes A V sha256 vm1 vm0 proofs call sc \<and>
           event_of_call E rpc_url beacon_url call sc l"
    and "l \<in> set logs" "publishes A V sha256 vm1 vm0 proofs call sc" "event_of_call E rpc_url beacon_url call sc l"
    and "p \<in> set proofs"
  shows "\<exists>root path. check_proof_verification E (statement_of A p) network rpc_url beacon_url from_block =
    Some (Inr (Verified root path))"
proof -
  have ev: "\<exists>t. get_blob_data_from_verified_proof_event E rpc_url beacon_url l =
        Some (Inr (call_root call, map (commitment A) proofs)) \<and>
      nt_build (ac_tree E) (hash32_new_parent (ac_keccak E)) (map (commitment A) proofs) = Some t \<and>
      nt_root (ac_tree E) t = call_root call"
    if "publishes A V sha256 vm1 vm0 proofs call sc" "event_of_call E rpc_url beacon_url call sc l" for proofs call sc l
  proof -
    have "versioned_hash (ac_beacon E beacon_url) (sidecar_commitment sc) = call_blob_hash call"
      using that(1) assms(5) by (simp add: publishes_def)
    from event_of_call_resolves [OF assms(2) that(2) this] that(1) assms(3,4)
    show ?thesis by (auto simp: publishes_def compute_proofs_merkle_root_def)
  qed
  have "\<exists>root path. check_logs E rpc_url beacon_url (commitment A p) logs = Some (Inr (Verified root path))"
  proof (rule check_logs_finds [where l = l])
    show "merkle_nodes (ac_tree E)" using assms(1,3) by simp
    show "\<exists>root leaves t. get_blob_data_from_verified_proof_event E rpc_url beacon_url k = Some (Inr (root, leaves)) \<and>
        nt_build (ac_tree E) (hash32_new_parent (ac_keccak E)) leaves = Some t \<and> nt_root (ac_tree E) t = root"
      if "k \<in> set logs" for k using assms(7) [OF that] ev by blast
  qed (use assms(8-11) ev in auto)
  then show ?thesis using assms(4,6) by (simp add: check_proof_verification_def statement_of_commitment)
qed

text \<open>
  Claim C16. Every aggregated proof is found. When the events that the SDK fetches are those of calls the aggregator
  published, with their blobs on the beacon chain, then for each proof of any of these aggregations the
  check with the proof's own statement answers \<open>Verified\<close>, whichever of several aggregations the proof is
  part of.
\<close>

theorem aggregated_proof_is_found:
  assumes "merkle_nodes (agg_tree A)" "hex_text (beacon_hex (ac_beacon E beacon_url))"
    and "ac_tree E = agg_tree A" "ac_keccak E = agg_keccak A"
    and "\<And>c. versioned_hash_for_blob V c = Some (versioned_hash (ac_beacon E beacon_url) c)"
    and "fetch_verified_proofs_events E network rpc_url from_block = Some (Inr logs)"
    and "\<And>l. l \<in> set logs \<Longrightarrow> \<exists>proofs call sc. publishes A V sha256 vm1 vm0 proofs call sc \<and>
           event_of_call E rpc_url beacon_url call sc l"
    and "l \<in> set logs" "publishes A V sha256 vm1 vm0 proofs call sc" "event_of_call E rpc_url beacon_url call sc l"
    and "p \<in> set proofs"
  shows "\<exists>root path. check_proof_verification E (statement_of A p) network rpc_url beacon_url from_block =
    Some (Inr (Verified root path))"
  by (rule published_proof_found [OF assms])

section \<open>A chain with one aggregation\<close>

definition sample_beacon :: "blob_sidecar \<Rightarrow> unit beacon_env" where
  "sample_beacon sc =
     \<lparr> beacon_client_url = [], url_from_str = (\<lambda>_. Inr ()), beacon_send = (\<lambda>_. Inr []),
       beacon_json = (\<lambda>_. Inr (BeaconSuccess ())),
       deserialize_blocks = (\<lambda>_. Inr [\<lparr> block_root = [], canonical = True,
          header_message = \<lparr> slot = nat_display (unat (3 :: u64)), proposer_index = [],
            parent_root = ''0x'' @ hex_encode std_hex [1], state_root = [], body_root = [] \<rparr> \<rparr>]),
       deserialize_blobs = (\<lambda>_. Inr [\<lparr> blob_index = [], blob_hex = ''0x'' @ hex_encode std_hex (sidecar_blob sc),
          kzg_commitment = ''0x'' @ hex_encode std_hex (sidecar_commitment sc), kzg_proof = [],
          kzg_commitment_inclusion_proof = [] \<rparr>]),
       beacon_hex = std_hex, beacon_sha256 = (\<lambda>_. replicate 32 1) \<rparr>"

definition sample_log :: "contract_call \<Rightarrow> event_log" where
  "sample_log call = \<lparr> log_data = replicate 32 1, log_topics = [[], call_root call], log_block_number = Some 4 \<rparr>"

definition sample_client :: "contract_call \<Rightarrow> blob_sidecar \<Rightarrow> (unit, binary_node) agg_client_env" where
  "sample_client call sc =
     \<lparr> ac_provider = (\<lambda>_. Inr ()), ac_block_number = Inr 4, ac_logs = (\<lambda>_ _. Inr [sample_log call]),
       ac_block = (\<lambda>_. Inr (Some (Some [1]))), ac_beacon = (\<lambda>_. sample_beacon sc), ac_parse_addr = (\<lambda>_. Some 0),
       ac_get_code = (\<lambda>_. Inr [1]), ac_display_addr = (\<lambda>_. []), ac_call_verify = (\<lambda>_ _ _ _. Inr True),
       ac_keccak = sample_digest, ac_tree = binary_tree \<rparr>"

abbreviation sample_publishes :: "contract_call \<Rightarrow> blob_sidecar \<Rightarrow> bool" where
  "sample_publishes \<equiv> publishes sample_agg sample_blob id (\<lambda>_ _ _. True) (\<lambda>_ _ _. True) [sample_fetched]"

lemma sample_publication: "\<exists>call sc. sample_publishes call sc"
proof -
  have f: "fetch sample_agg (sample_fetch 7) EngineSP1 (total_proofs_limit sample_config) sample_aggregator =
      (Ret (Inr [sample_fetched]), sample_aggregator\<lparr>last_aggregated_block := 10\<rparr>)"
    by (simp add: sample_config_def sample_fetch_result)
  have "merkle_nodes (agg_tree sample_agg)" using binary.merkle_nodes_axioms by simp
  from submit_publishes [OF sample_sp1.sp1_prover_axioms sample_risc0.risc0_prover_axioms this
      sample_agg_sel(3) sample_digest_nonzero surjective_pairing f, where V = sample_blob]
  show ?thesis using sample_sends by (auto simp: sample_aggregator_def)
qed

lemma sample_versioned_hash: "versioned_hash (sample_beacon sc) c = replicate 32 1"
  by (simp add: versioned_hash_def sample_beacon_def KZG_VERSIONED_HASH_def list_update_same_conv)

lemma sample_event:
  assumes "sample_publishes call sc"
  shows "event_of_call (sample_client call sc) [] [] call sc (sample_log call)"
proof -
  let ?E = "sample_client call sc"
  have B: "ac_beacon ?E [] = sample_beacon sc" "ac_provider ?E [] = Inr ()" by (simp_all add: sample_client_def)
  have h: "call_blob_hash call = replicate 32 1" using assms by (simp add: publishes_def sample_blob_def)
  have s: "slot_of_block ?E [] (sample_log call) 3"
    unfolding slot_of_block_def B get_block_header_from_parent_hash_def beacon_get_def
    by (simp add: sample_log_def sample_client_def sample_beacon_def Let_def)
  obtain d where d: "get_blobs_from_slot (sample_beacon sc) 3 = Inr [d]"
      "sidecar_json (sample_beacon sc) (sidecar_commitment sc) (sidecar_blob sc) d"
    by (simp add: get_blobs_from_slot_def beacon_get_def sample_beacon_def Let_def sidecar_json_def)
  show ?thesis unfolding event_of_call_def Let_def B
    using s d by (auto simp: h sample_log_def intro!: exI [of _ 3] exI [of _ "sidecar_commitment sc"]
        exI [of "\<lambda>b. sidecar_json _ _ b _ \<and> _ b" "sidecar_blob sc"])
qed

lemma sample_events_fetched:
  "fetch_verified_proofs_events (sample_client call sc) Devnet [] (Some 0) = Some (Inr [sample_log call])"
  by (simp add: fetch_verified_proofs_events_def sample_client_def get_aligned_proof_agg_service_address_def)

lemma sample_client_sel:
  "merkle_nodes (agg_tree sample_agg)" "hex_text (beacon_hex (ac_beacon (sample_client call sc) []))"
  "ac_tree (sample_client call sc) = agg_tree sample_agg" "ac_keccak (sample_client call sc) = agg_keccak sample_agg"
  "versioned_hash_for_blob sample_blob c = Some (versioned_hash (ac_beacon (sample_client call sc) []) c)"
  using binary.merkle_nodes_axioms std_hex.hex_text_axioms sample_versioned_hash
  by (simp_all add: sample_client_def sample_beacon_def sample_blob_def)

theorem aggregated_proof_is_found_witness:
  "\<exists>call sc root path. check_proof_verification (sample_client call sc) (statement_of sample_agg sample_fetched) Devnet [] [] (Some 0) =
     Some (Inr (Verified root path))"
proof -
  obtain call sc where p: "sample_publishes call sc" using sample_publication by blast
  note e = sample_event [OF p]
  have "\<exists>root path. check_proof_verification (sample_client call sc) (statement_of sample_agg sample_fetched) Devnet [] [] (Some 0) =
      Some (Inr (Verified root path))"
    by (rule aggregated_proof_is_found [OF sample_client_sel sample_events_fetched [of call sc] _ _ p e]) (use p e in auto)
  then show ?thesis by blast
qed

lemma sample_found:
  "\<exists>call sc root path. check_proof_verification (sample_client call sc) (statement_of sample_agg sample_fetched) Devnet [] [] (Some 0) =
     Some (Inr (Verified root path))"
proof -
  obtain call sc where p: "sample_publishes call sc" using sample_publication by blast
  note e = sample_event [OF p]
  have "\<exists>root path. check_proof_verification (sample_client call sc) (statement_of sample_agg sample_fetched) Devnet [] [] (Some 0) =
      Some (Inr (Verified root path))"
    by (rule published_proof_found [OF sample_client_sel sample_events_fetched [of call sc] _ _ p e]) (use p e in auto)
  then show ?thesis by blast
qed

theorem verified_status_sound_witness:
  "\<exists>call sc root leaves. get_blob_data_from_verified_proof_event (sample_client call sc) [] [] (sample_log call) = Some (Inr (root, leaves)) \<and>
     (\<exists>pos < length leaves. leaves ! pos = commitment sample_agg sample_fetched)"
proof -
  obtain call sc root path where
    "check_proof_verification (sample_client call sc) (statement_of sample_agg sample_fetched) Devnet [] [] (Some 0) =
     Some (Inr (Verified root path))" using sample_found by blast
  from verified_status_sound [OF this] show ?thesis
    using sample_client_sel(4) [of call sc] statement_of_commitment [of sample_agg sample_fetched]
    by (fastforce simp: sample_events_fetched)
qed

end
