(* ===== verification/Operator_Ffi.thy ===== *)
theory Operator_Ffi
  imports Zk_Utils Merkle_Tree
begin

unbundle bit_operations_syntax

text \<open>
  The verifiers of the operators: the Rust libraries behind a C interface (\<open>operator/merkle_tree/lib\<close>,
  \<open>operator/risc_zero/lib\<close>, \<open>operator/sp1/lib\<close>), the Go functions that call them, the Go verifiers for
  gnark and Circom proofs, which the operators (\<open>operator/pkg/operator.go\<close>) and the batcher
  (\<open>batcher/go_verifiers_lib\<close>) both have, and the dispatch on the proving system. A pointer is \<open>None\<close> when it is null and
  otherwise the bytes that may be read from it. What Rust leaves undefined, a slice made from a null pointer or
  reaching past the end, is an outcome of its own.
\<close>

section \<open>Outcomes\<close>

datatype 'a ffi = Returns 'a | Panics | Undefined

fun ffi_bind :: "'a ffi \<Rightarrow> ('a \<Rightarrow> 'b ffi) \<Rightarrow> 'b ffi" where
  "ffi_bind (Returns x) f = f x"
| "ffi_bind Panics f = Panics"
| "ffi_bind Undefined f = Undefined"

type_synonym ptr = "bytes option"

definition from_raw_parts :: "ptr \<Rightarrow> nat \<Rightarrow> bytes ffi" where
  "from_raw_parts p len =
     (case p of None \<Rightarrow> Undefined | Some m \<Rightarrow> if len \<le> length m then Returns (take len m) else Undefined)"

text \<open>\<open>catch_unwind\<close>, with the cast of the result to \<open>i32\<close>.\<close>

fun catch_unwind :: "bool ffi \<Rightarrow> int ffi" where
  "catch_unwind (Returns v) = Returns (if v then 1 else 0)"
| "catch_unwind Panics = Returns (- 1)"
| "catch_unwind Undefined = Undefined"

lemma ffi_bind_Returns [simp]: "ffi_bind m Returns = m"
  by (cases m) simp_all

section \<open>The Merkle tree of a batch\<close>

text \<open>The decoders of the batch (\<open>ciborium\<close>, \<open>serde_json\<close>) are parameters.\<close>

record 't merkle_lib =
  lib_cbor :: "bytes \<Rightarrow> VerificationData list option"
  lib_json :: "bytes \<Rightarrow> VerificationData list option"
  lib_merkle :: "'t merkle_ops"
  lib_keccak :: "bytes \<Rightarrow> bytes"

definition decode_batch :: "'t merkle_lib \<Rightarrow> bytes \<Rightarrow> VerificationData list option" where
  "decode_batch L b = (case lib_cbor L b of Some batch \<Rightarrow> Some batch | None \<Rightarrow> lib_json L b)"

definition inner_verify_merkle_tree_batch_ffi ::
    "'t merkle_lib \<Rightarrow> ptr \<Rightarrow> nat \<Rightarrow> bytes \<Rightarrow> bool ffi" where
  "inner_verify_merkle_tree_batch_ffi L batch_ptr batch_len merkle_root =
     (if batch_ptr = None then Returns False
      else if batch_len = 0 then Returns False
      else ffi_bind (from_raw_parts batch_ptr batch_len) (\<lambda>batch_bytes.
        case decode_batch L batch_bytes of
          None \<Rightarrow> Returns False
        | Some batch \<Rightarrow>
          if batch = [] then Returns False
          else (case mt_build (lib_merkle L) (map (verification_data_into_commitment (lib_keccak L)) batch) of
              None \<Rightarrow> Returns False
            | Some t \<Rightarrow> Returns (mt_root (lib_merkle L) t = merkle_root))))"

definition verify_merkle_tree_batch_ffi :: "'t merkle_lib \<Rightarrow> ptr \<Rightarrow> nat \<Rightarrow> bytes \<Rightarrow> int ffi" where
  "verify_merkle_tree_batch_ffi L batch_ptr batch_len merkle_root =
     catch_unwind (inner_verify_merkle_tree_batch_ffi L batch_ptr batch_len merkle_root)"

section \<open>RISC Zero receipts\<close>

text \<open>\<open>copy_from_slice\<close> into the array of 32 bytes panics on any other length.\<close>

definition inner_verify_risc_zero_receipt_ffi ::
    "zk_ops \<Rightarrow> ptr \<Rightarrow> u32 \<Rightarrow> ptr \<Rightarrow> u32 \<Rightarrow> ptr \<Rightarrow> u32 \<Rightarrow> bool ffi" where
  "inner_verify_risc_zero_receipt_ffi Z inner_receipt_bytes inner_receipt_len image_id image_id_len
     public_input public_input_len =
     (if inner_receipt_bytes = None \<or> image_id = None then Returns False
      else if inner_receipt_len = 0 \<or> image_id_len = 0 then Returns False
      else
        ffi_bind (if public_input \<noteq> None \<and> 0 < public_input_len
                  then from_raw_parts public_input (unat public_input_len) else Returns []) (\<lambda>public_input_slice.
        ffi_bind (from_raw_parts inner_receipt_bytes (unat inner_receipt_len)) (\<lambda>inner_receipt_bytes.
        ffi_bind (from_raw_parts image_id (unat image_id_len)) (\<lambda>image_id.
        if length image_id \<noteq> 32 then Panics
        else (case risc0_decode Z inner_receipt_bytes of
            Some inner_receipt \<Rightarrow> Returns (risc0_verify Z inner_receipt public_input_slice image_id)
          | None \<Rightarrow> Returns False)))))"

definition verify_risc_zero_receipt_ffi ::
    "zk_ops \<Rightarrow> ptr \<Rightarrow> u32 \<Rightarrow> ptr \<Rightarrow> u32 \<Rightarrow> ptr \<Rightarrow> u32 \<Rightarrow> int ffi" where
  "verify_risc_zero_receipt_ffi Z inner_receipt_bytes inner_receipt_len image_id image_id_len
     public_input public_input_len =
     catch_unwind (inner_verify_risc_zero_receipt_ffi Z inner_receipt_bytes inner_receipt_len
       image_id image_id_len public_input public_input_len)"

section \<open>SP1 proofs\<close>

text \<open>
  Unlike the function for receipts, this one makes a slice of the public inputs without looking at the
  pointer. A panic of the SDK in \<open>setup\<close> is \<open>None\<close> in \<open>sp1_setup\<close>.
\<close>

definition inner_verify_sp1_proof_ffi ::
    "zk_ops \<Rightarrow> ptr \<Rightarrow> u32 \<Rightarrow> ptr \<Rightarrow> u32 \<Rightarrow> ptr \<Rightarrow> u32 \<Rightarrow> bool ffi" where
  "inner_verify_sp1_proof_ffi Z proof_ptr proof_len public_inputs_bytes public_inputs_len elf_bytes elf_len =
     (if proof_ptr = None \<or> elf_bytes = None then Returns False
      else if proof_len = 0 \<or> elf_len = 0 then Returns False
      else
        ffi_bind (from_raw_parts proof_ptr (unat proof_len)) (\<lambda>proof_slice.
        ffi_bind (from_raw_parts public_inputs_bytes (unat public_inputs_len)) (\<lambda>public_inputs_bytes.
        ffi_bind (from_raw_parts elf_bytes (unat elf_len)) (\<lambda>elf_bytes.
        case sp1_decode Z proof_slice of
          Some p \<Rightarrow>
            if fst p \<noteq> public_inputs_bytes then Returns False
            else (case sp1_setup Z elf_bytes of
                None \<Rightarrow> Panics
              | Some vk \<Rightarrow> Returns (sp1_verify Z p vk))
        | None \<Rightarrow> Returns False))))"

definition verify_sp1_proof_ffi ::
    "zk_ops \<Rightarrow> ptr \<Rightarrow> u32 \<Rightarrow> ptr \<Rightarrow> u32 \<Rightarrow> ptr \<Rightarrow> u32 \<Rightarrow> int ffi" where
  "verify_sp1_proof_ffi Z proof_ptr proof_len public_inputs_bytes public_inputs_len elf_bytes elf_len =
     catch_unwind (inner_verify_sp1_proof_ffi Z proof_ptr proof_len public_inputs_bytes public_inputs_len
       elf_bytes elf_len)"

section \<open>The calls from Go\<close>

text \<open>
  A pointer to the first element of a slice, with its length as a C integer of 32 bits; a result of
  minus one is an error (\<open>Inl\<close>).
\<close>

definition ffi_verdict :: "string \<Rightarrow> int \<Rightarrow> string + bool" where
  "ffi_verdict e r = (if r = - 1 then Inl e else Inr (r = 1))"

abbreviation c_len :: "bytes \<Rightarrow> u32" where
  "c_len b \<equiv> word_of_nat (length b)"

definition VerifyMerkleTreeBatch :: "'t merkle_lib \<Rightarrow> bytes \<Rightarrow> bytes \<Rightarrow> (string + bool) ffi" where
  "VerifyMerkleTreeBatch L batchBuffer merkleRootBuffer =
     (if batchBuffer = [] then Returns (Inr False)
      else ffi_bind (verify_merkle_tree_batch_ffi L (Some batchBuffer) (unat (c_len batchBuffer)) merkleRootBuffer)
        (\<lambda>r. Returns (ffi_verdict ''panic happened on FFI while verifying merkle tree batch'' r)))"

definition VerifyRiscZeroReceipt :: "zk_ops \<Rightarrow> bytes \<Rightarrow> bytes \<Rightarrow> bytes \<Rightarrow> (string + bool) ffi" where
  "VerifyRiscZeroReceipt Z innerReceiptBuffer imageIdBuffer publicInputBuffer =
     (if innerReceiptBuffer = [] \<or> imageIdBuffer = [] then Returns (Inr False)
      else ffi_bind
        (if publicInputBuffer = []
         then verify_risc_zero_receipt_ffi Z (Some innerReceiptBuffer) (c_len innerReceiptBuffer)
                (Some imageIdBuffer) (c_len imageIdBuffer) None 0
         else verify_risc_zero_receipt_ffi Z (Some innerReceiptBuffer) (c_len innerReceiptBuffer)
                (Some imageIdBuffer) (c_len imageIdBuffer) (Some publicInputBuffer) (c_len publicInputBuffer))
        (\<lambda>r. Returns (ffi_verdict ''panic happened on FFI while verifying risc0 proof'' r)))"

definition VerifySp1Proof :: "zk_ops \<Rightarrow> bytes \<Rightarrow> bytes \<Rightarrow> bytes \<Rightarrow> (string + bool) ffi" where
  "VerifySp1Proof Z proofBuffer publicInputsBuffer elfBuffer =
     (if proofBuffer = [] \<or> elfBuffer = [] then Returns (Inr False)
      else ffi_bind
        (if publicInputsBuffer = []
         then verify_sp1_proof_ffi Z (Some proofBuffer) (c_len proofBuffer) None 0
                (Some elfBuffer) (c_len elfBuffer)
         else verify_sp1_proof_ffi Z (Some proofBuffer) (c_len proofBuffer) (Some publicInputsBuffer)
                (c_len publicInputsBuffer) (Some elfBuffer) (c_len elfBuffer))
        (\<lambda>r. Returns (ffi_verdict ''panic happened on FFI while verifying sp1 proof'' r)))"

section \<open>Gnark and Circom proofs\<close>

text \<open>The Go libraries: readers of proofs, witnesses and keys, and the verification itself.\<close>

datatype curve = BN254 | BLS12_381

record go_libs =
  plonk_read_proof :: "curve \<Rightarrow> bytes \<Rightarrow> bytes option"
  plonk_read_key :: "curve \<Rightarrow> bytes \<Rightarrow> bytes option"
  plonk_Verify :: "bytes \<Rightarrow> bytes \<Rightarrow> bytes \<Rightarrow> bool"
  groth16_read_proof :: "curve \<Rightarrow> bytes \<Rightarrow> bytes option"
  groth16_read_key :: "curve \<Rightarrow> bytes \<Rightarrow> bytes option"
  groth16_Verify :: "bytes \<Rightarrow> bytes \<Rightarrow> bytes \<Rightarrow> bool"
  read_witness :: "curve \<Rightarrow> bytes \<Rightarrow> bytes option"
  ParseProofData :: "bytes \<Rightarrow> bytes option"
  ParseVK :: "bytes \<Rightarrow> bytes option"
  VerifyRaw :: "bytes \<Rightarrow> bytes \<Rightarrow> nat list \<Rightarrow> bool"

definition verifyGnarkPlonkProof :: "go_libs \<Rightarrow> bytes \<Rightarrow> bytes \<Rightarrow> bytes \<Rightarrow> curve \<Rightarrow> bool" where
  "verifyGnarkPlonkProof L proofBytes pubInputBytes verificationKeyBytes c =
     (case plonk_read_proof L c proofBytes of
        None \<Rightarrow> False
      | Some p \<Rightarrow> (case read_witness L c pubInputBytes of
          None \<Rightarrow> False
        | Some pubInput \<Rightarrow> (case plonk_read_key L c verificationKeyBytes of
            None \<Rightarrow> False
          | Some verificationKey \<Rightarrow> plonk_Verify L p verificationKey pubInput)))"

definition verifyGnarkGroth16Proof :: "go_libs \<Rightarrow> bytes \<Rightarrow> bytes \<Rightarrow> bytes \<Rightarrow> curve \<Rightarrow> bool" where
  "verifyGnarkGroth16Proof L proofBytes pubInputBytes verificationKeyBytes c =
     (case groth16_read_proof L c proofBytes of
        None \<Rightarrow> False
      | Some p \<Rightarrow> (case read_witness L c pubInputBytes of
          None \<Rightarrow> False
        | Some pubInput \<Rightarrow> (case groth16_read_key L c verificationKeyBytes of
            None \<Rightarrow> False
          | Some verificationKey \<Rightarrow> groth16_Verify L p verificationKey pubInput)))"

text \<open>Public inputs of a Circom proof: big-endian numbers of 32 bytes each.\<close>

definition SetBytes :: "bytes \<Rightarrow> nat" where
  "SetBytes b = foldl (\<lambda>n x. 256 * n + unat x) 0 b"

fun chunks32 :: "bytes \<Rightarrow> bytes list" where
  "chunks32 b = (if b = [] then [] else take 32 b # chunks32 (drop 32 b))"

declare chunks32.simps [simp del]

definition bytesToBigInts32 :: "bytes \<Rightarrow> nat list option" where
  "bytesToBigInts32 b = (if length b mod 32 \<noteq> 0 then None else Some (map SetBytes (chunks32 b)))"

definition verifyCircomGroth16Bn256Proof :: "go_libs \<Rightarrow> bytes \<Rightarrow> bytes \<Rightarrow> bytes \<Rightarrow> bool" where
  "verifyCircomGroth16Bn256Proof L proofBytes pubInputBytes verificationKeyBytes =
     (case ParseProofData L proofBytes of
        None \<Rightarrow> False
      | Some parsedProofData \<Rightarrow> (case ParseVK L verificationKeyBytes of
          None \<Rightarrow> False
        | Some vk \<Rightarrow> (case bytesToBigInts32 pubInputBytes of
            None \<Rightarrow> False
          | Some inputs \<Rightarrow> VerifyRaw L vk parsedProofData inputs)))"

text \<open>
  The library of the batcher has the same verifiers behind references to Rust slices; the length
  becomes a C \<open>int\<close>, and \<open>GoBytes\<close> panics when that is negative (\<open>None\<close>).
\<close>

definition listRefToBytes :: "bytes \<Rightarrow> bytes option" where
  "listRefToBytes listRef =
     (if listRef = [] then Some []
      else let n = sint (c_len listRef) in if n < 0 then None else Some (take (nat n) listRef))"

definition on_list_refs :: "(bytes \<Rightarrow> bytes \<Rightarrow> bytes \<Rightarrow> bool) \<Rightarrow> bytes \<Rightarrow> bytes \<Rightarrow> bytes \<Rightarrow> bool option" where
  "on_list_refs f proofBytesRef pubInputBytesRef verificationKeyBytesRef =
     Option.bind (listRefToBytes proofBytesRef) (\<lambda>p.
     Option.bind (listRefToBytes pubInputBytesRef) (\<lambda>i.
     map_option (f p i) (listRefToBytes verificationKeyBytesRef)))"

text \<open>The foreign functions of the batcher are those of this library, wherever they return.\<close>

definition batcher_go_lib :: "go_libs \<Rightarrow> zk_ops \<Rightarrow> bool" where
  "batcher_go_lib L Z \<longleftrightarrow>
     (\<forall>p i k b. on_list_refs (\<lambda>p i k. verifyGnarkPlonkProof L p i k BLS12_381) p i k = Some b \<longrightarrow>
        VerifyGnarkPlonkProofBLS12_381 Z p i k = b) \<and>
     (\<forall>p i k b. on_list_refs (\<lambda>p i k. verifyGnarkPlonkProof L p i k BN254) p i k = Some b \<longrightarrow>
        VerifyGnarkPlonkProofBN254 Z p i k = b) \<and>
     (\<forall>p i k b. on_list_refs (\<lambda>p i k. verifyGnarkGroth16Proof L p i k BN254) p i k = Some b \<longrightarrow>
        VerifyGnarkGroth16ProofBN254 Z p i k = b) \<and>
     (\<forall>p i k b. on_list_refs (verifyCircomGroth16Bn256Proof L) p i k = Some b \<longrightarrow>
        VerifyCircomGroth16ProofBN256 Z p i k = b)"

section \<open>The operator's check of one proof\<close>

text \<open>The data of a proof as Go decodes it: an absent field is an empty slice.\<close>

record GoVerificationData =
  g_ProvingSystemId :: u16
  g_Proof :: bytes
  g_PubInput :: bytes
  g_VerificationKey :: bytes
  g_VmProgramCode :: bytes

definition IsVerifierDisabled :: "u256 \<Rightarrow> u16 \<Rightarrow> bool" where
  "IsVerifierDisabled disabledVerifiersBitmap verifierId =
     (let verifierIdInt = (ucast verifierId :: 8 word) in
      (ucast disabledVerifiersBitmap :: u64) AND push_bit (unat verifierIdInt) 1 \<noteq> 0)"

text \<open>The array behind \<open>String\<close> has four names; an index beyond them panics.\<close>

definition ProvingSystemId_String :: "u16 \<Rightarrow> string ffi" where
  "ProvingSystemId_String t =
     (let names = [''GnarkPlonkBls12_381'', ''GnarkPlonkBn254'', ''GnarkGroth16Bn254'', ''SP1''] in
      if unat t < length names then Returns (names ! unat t) else Panics)"

fun handleVerificationResult :: "string + bool \<Rightarrow> bool" where
  "handleVerificationResult (Inl err) = False"
| "handleVerificationResult (Inr isVerified) = isVerified"

definition operator_verify :: "zk_ops \<Rightarrow> go_libs \<Rightarrow> GoVerificationData \<Rightarrow> u256 \<Rightarrow> bool ffi" where
  "operator_verify Z L verificationData disabledVerifiersBitmap =
     (let t = g_ProvingSystemId verificationData; p = g_Proof verificationData;
          i = g_PubInput verificationData; k = g_VerificationKey verificationData;
          v = g_VmProgramCode verificationData in
      if IsVerifierDisabled disabledVerifiersBitmap t then
        ffi_bind (ProvingSystemId_String t) (\<lambda>_. Returns False)
      else if t = 0 then Returns (verifyGnarkPlonkProof L p i k BLS12_381)
      else if t = 1 then Returns (verifyGnarkPlonkProof L p i k BN254)
      else if t = 2 then Returns (verifyGnarkGroth16Proof L p i k BN254)
      else if t = 3 then ffi_bind (VerifySp1Proof Z p i v) (\<lambda>r. Returns (handleVerificationResult r))
      else if t = 4 then ffi_bind (VerifyRiscZeroReceipt Z p v i) (\<lambda>r. Returns (handleVerificationResult r))
      else if t = 5 then Returns (verifyCircomGroth16Bn256Proof L p i k)
      else Returns False)"

section \<open>Operators and batcher agree\<close>

definition into_go :: "VerificationData \<Rightarrow> GoVerificationData" where
  "into_go vd = \<lparr> g_ProvingSystemId = of_nat (proving_system_discr (proving_system vd)), g_Proof = proof_bytes vd,
     g_PubInput = unwrap_or_default (pub_input vd), g_VerificationKey = unwrap_or_default (verification_key vd),
     g_VmProgramCode = unwrap_or_default (vm_program_code vd) \<rparr>"

text \<open>Go does not tell an absent field from an empty one.\<close>

definition filled :: "VerificationData \<Rightarrow> VerificationData" where
  "filled vd = vd\<lparr>pub_input := Some (unwrap_or_default (pub_input vd)),
     verification_key := Some (unwrap_or_default (verification_key vd)),
     vm_program_code := Some (unwrap_or_default (vm_program_code vd))\<rparr>"

definition c_sized :: "VerificationData \<Rightarrow> bool" where
  "c_sized vd \<longleftrightarrow> length (proof_bytes vd) < 2 ^ 31 \<and> option_len (pub_input vd) < 2 ^ 31 \<and>
     option_len (verification_key vd) < 2 ^ 31 \<and> option_len (vm_program_code vd) < 2 ^ 31"

lemma length_unwrap [simp]: "length (unwrap_or_default x) = option_len x"
  by (cases x) (simp_all add: unwrap_or_default_def)

lemma unat_c_len: "length b < 2 ^ 32 \<Longrightarrow> unat (c_len b) = length b"
  by (simp add: unat_of_nat take_bit_eq_mod)

lemma from_raw_parts_whole [simp]: "length b < 2 ^ 32 \<Longrightarrow> from_raw_parts (Some b) (unat (c_len b)) = Returns b"
  by (simp only: from_raw_parts_def option.case unat_c_len) simp

lemma c_len_0 [simp]: "length b < 2 ^ 32 \<Longrightarrow> c_len b = 0 \<longleftrightarrow> b = []"
  using unat_c_len [of b] by (metis length_0_conv unat_eq_zero)

lemma listRefToBytes_small:
  assumes "length b < 2 ^ 31"
  shows "listRefToBytes b = Some b"
proof -
  have "sint (c_len b) = int (length b)"
    using assms by (simp add: signed_of_nat signed_take_bit_int_eq_self)
  then show ?thesis by (simp add: listRefToBytes_def Let_def)
qed

lemma on_list_refs_small:
  "length p < 2 ^ 31 \<Longrightarrow> length i < 2 ^ 31 \<Longrightarrow> length k < 2 ^ 31 \<Longrightarrow> on_list_refs f p i k = Some (f p i k)"
  by (simp add: on_list_refs_def listRefToBytes_small)

text \<open>The truncation to 64 bits does not reach the bits of the proving systems.\<close>

lemma IsVerifierDisabled_discr:
  "IsVerifierDisabled d (of_nat (proving_system_discr ps)) = is_verifier_disabled d ps"
proof -
  have id: "unat (ucast (of_nat (proving_system_discr ps) :: u16) :: 8 word) = proving_system_discr ps"
    by (cases ps) simp_all
  have "proving_system_discr ps < 64" by (cases ps) simp_all
  then have "(ucast d :: u64) AND push_bit n 1 \<noteq> 0 \<longleftrightarrow> bit d n" if "n = proving_system_discr ps" for n
    using that by (auto simp: bit_eq_iff [where 'a = u64] bit_simps)
  then show ?thesis by (simp add: IsVerifierDisabled_def id is_verifier_disabled_bit)
qed

lemma VerifyRiscZeroReceipt_eq:
  assumes "length p < 2 ^ 32" "length v < 2 ^ 32" "length i < 2 ^ 32"
  shows "ffi_bind (VerifyRiscZeroReceipt Z p v i) (\<lambda>r. Returns (handleVerificationResult r)) =
    Returns (length v = 32 \<and> verify_risc_zero_proof Z p v i)"
  using assms
  by (auto simp: VerifyRiscZeroReceipt_def verify_risc_zero_receipt_ffi_def inner_verify_risc_zero_receipt_ffi_def
      verify_risc_zero_proof_def ffi_verdict_def word_gt_0 split: option.splits)

lemma VerifySp1Proof_eq:
  assumes "length p < 2 ^ 32" "length v < 2 ^ 32" "length i < 2 ^ 32"
  shows "ffi_bind (VerifySp1Proof Z p i v) (\<lambda>r. Returns (handleVerificationResult r)) =
    (if i = [] \<and> p \<noteq> [] \<and> v \<noteq> [] then Undefined
     else Returns (verify_sp1_proof Z p i v = Some True))"
  using assms
  by (auto simp: VerifySp1Proof_def verify_sp1_proof_ffi_def inner_verify_sp1_proof_ffi_def from_raw_parts_def [of None]
      verify_sp1_proof_def ffi_verdict_def split: option.splits)

text \<open>A proof the batcher accepts has the fields its system needs, so filling in the others changes nothing.\<close>

lemma verify_filled: "verify Z vd \<Longrightarrow> verify Z (filled vd)"
  by (cases "proving_system vd")
    (auto simp: verify_def verify_internal_def filled_def unwrap_or_default_def Let_def split: option.splits if_splits)

lemma operator_verify_eq:
  assumes L: "batcher_go_lib L Z" and c: "c_sized vd"
  shows "operator_verify Z L (into_go vd) d =
    (if is_verifier_disabled d (proving_system vd)
     then if proving_system vd \<in> {Risc0, CircomGroth16Bn256} then Panics else Returns False
     else if proving_system vd = SP1 \<and> unwrap_or_default (pub_input vd) = [] \<and> proof_bytes vd \<noteq> [] \<and>
             unwrap_or_default (vm_program_code vd) \<noteq> [] then Undefined
     else Returns (verify Z (filled vd)))"
proof (cases "is_verifier_disabled d (proving_system vd)")
  case True
  then show ?thesis
    by (cases "proving_system vd")
      (auto simp: operator_verify_def into_go_def Let_def IsVerifierDisabled_discr [symmetric] ProvingSystemId_String_def)
next
  case False
  have refs: "on_list_refs f (proof_bytes vd) (unwrap_or_default (pub_input vd)) (unwrap_or_default (verification_key vd)) =
      Some (f (proof_bytes vd) (unwrap_or_default (pub_input vd)) (unwrap_or_default (verification_key vd)))" for f
    using c by (intro on_list_refs_small) (simp_all add: c_sized_def)
  note go = L [unfolded batcher_go_lib_def, THEN conjunct1, rule_format, OF refs]
    L [unfolded batcher_go_lib_def, THEN conjunct2, THEN conjunct1, rule_format, OF refs]
    L [unfolded batcher_go_lib_def, THEN conjunct2, THEN conjunct2, THEN conjunct1, rule_format, OF refs]
    L [unfolded batcher_go_lib_def, THEN conjunct2, THEN conjunct2, THEN conjunct2, rule_format, OF refs]
  have len: "length (proof_bytes vd) < 2 ^ 32" "length (unwrap_or_default (vm_program_code vd)) < 2 ^ 32"
    "length (unwrap_or_default (pub_input vd)) < 2 ^ 32"
    using c by (simp_all add: c_sized_def)
  note zkvm = VerifyRiscZeroReceipt_eq [OF len] VerifySp1Proof_eq [OF len]
  have "\<not> IsVerifierDisabled d (of_nat (proving_system_discr (proving_system vd)))"
    using False by (simp only: IsVerifierDisabled_discr) simp
  then show ?thesis
    using False go zkvm
    by (cases "proving_system vd")
      (auto simp: operator_verify_def into_go_def Let_def verify_def verify_internal_def filled_def
        unwrap_or_default_def [of "Some _"] split: option.splits if_splits)
qed

text \<open>
  Claim C11. The verdict of an operator on a proof, for every proof and every bitmap of disabled verifiers: it is
  the verdict of the batcher's own verification (an absent field read as an empty one), with two
  exceptions. A proof of a disabled system is rejected, but for RISC Zero and Circom the rejection panics,
  because the name of the system is looked up in an array that does not have it. And an SP1 proof without
  public input has no defined verdict: the Rust function makes a slice from the null pointer that Go passes.
\<close>

theorem operator_verdict:
  assumes "batcher_go_lib L Z" "c_sized vd"
  shows "operator_verify Z L (into_go vd) d =
    (if is_verifier_disabled d (proving_system vd)
     then if proving_system vd \<in> {Risc0, CircomGroth16Bn256} then Panics else Returns False
     else if proving_system vd = SP1 \<and> unwrap_or_default (pub_input vd) = [] \<and> proof_bytes vd \<noteq> [] \<and>
             unwrap_or_default (vm_program_code vd) \<noteq> [] then Undefined
     else Returns (verify Z (filled vd)))"
  by (rule operator_verify_eq [OF assms])

definition sample_go_libs :: go_libs where
  "sample_go_libs = \<lparr> plonk_read_proof = (\<lambda>_ _. None), plonk_read_key = (\<lambda>_ _. None), plonk_Verify = (\<lambda>_ _ _. False),
     groth16_read_proof = (\<lambda>_ _. None), groth16_read_key = (\<lambda>_ _. None), groth16_Verify = (\<lambda>_ _ _. False),
     read_witness = (\<lambda>_ _. None), ParseProofData = (\<lambda>_. None), ParseVK = (\<lambda>_. None), VerifyRaw = (\<lambda>_ _ _. False) \<rparr>"

lemma sample_batcher_go_lib: "batcher_go_lib sample_go_libs sample_zk"
proof -
  have refs: "on_list_refs f p i k = Some b \<Longrightarrow> (\<And>p i k. \<not> f p i k) \<Longrightarrow> b = False" for f p i k b
    by (auto simp: on_list_refs_def Option.bind_eq_Some_conv)
  show ?thesis
    unfolding batcher_go_lib_def
    by (intro conjI allI impI; drule refs; simp add: sample_go_libs_def sample_zk_def verifyGnarkPlonkProof_def
        verifyGnarkGroth16Proof_def verifyCircomGroth16Bn256Proof_def)
qed

definition operator_sample :: "ProvingSystemId \<Rightarrow> bytes \<Rightarrow> VerificationData" where
  "operator_sample ps i = \<lparr> proving_system = ps, proof_bytes = [1], pub_input = Some i, verification_key = None,
     vm_program_code = Some [7], proof_generator_addr = 9 \<rparr>"

theorem operator_verdict_witness:
  "operator_verify sample_zk sample_go_libs (into_go (operator_sample SP1 [4])) 16 = Returns True \<and>
   operator_verify sample_zk sample_go_libs (into_go (operator_sample SP1 [])) 16 = Undefined \<and>
   operator_verify sample_zk sample_go_libs (into_go (operator_sample Risc0 [4])) 16 = Panics"
proof -
  have c: "c_sized (operator_sample ps i)" if "length i < 2" for ps i
    using that by (simp add: c_sized_def operator_sample_def)
  have d: "is_verifier_disabled 16 SP1 = False" "is_verifier_disabled 16 Risc0 = True"
    by (simp_all add: is_verifier_disabled_bit bit_iff_odd)
  note v = operator_verdict [OF sample_batcher_go_lib c]
  show ?thesis
    using v [of "[4]" SP1 16] v [of "[]" SP1 16] v [of "[4]" Risc0 16]
    by (simp add: d operator_sample_def filled_def verify_def verify_internal_def verify_sp1_proof_def sample_zk_def
        unwrap_or_default_def)
qed

end
