(* ===== verification/Operator_Codec.thy ===== *)
theory Operator_Codec
  imports Operator_Ffi Cbor
begin

text \<open>
  How an operator decodes a batch: the decoder mode (\<open>operator/pkg/codec_mode.go\<close>), the struct it decodes into
  (\<open>operator/pkg/verification_data.go\<close>) and the proving systems (\<open>common/proving_systems.go\<close>). The CBOR and JSON libraries of Go
  are parameters, as the values they parse (\<open>go_decoder\<close>); the locales \<open>go_cbor\<close> and \<open>go_sizes\<close> state what
  their documentation promises. The result is that what the batcher writes is decoded to its own proofs.
\<close>

section \<open>The libraries\<close>

text \<open>
  What a decoder of Go makes of bytes and of the values in them: \<open>gd_elements\<close> for a slice, \<open>gd_fields\<close> for a struct with
  the given tags (the value assigned to each of them, if any), \<open>gd_bytes\<close> and \<open>gd_string\<close> for the fields. \<open>None\<close> is an error.
\<close>

record go_decoder =
  gd_parse :: "bytes \<Rightarrow> cbor_value option"
  gd_elements :: "cbor_value \<Rightarrow> cbor_value list option"
  gd_fields :: "string list \<Rightarrow> cbor_value \<Rightarrow> (string \<Rightarrow> cbor_value option) option"
  gd_bytes :: "cbor_value \<Rightarrow> bytes option"
  gd_string :: "cbor_value \<Rightarrow> string option"

text \<open>\<open>cbor.DecOptions{MaxArrayElements: n}.DecMode()\<close> is \<open>DecMode n\<close>.\<close>

definition createDecoderMode :: "(nat \<Rightarrow> go_decoder) \<Rightarrow> go_decoder" where
  "createDecoderMode DecMode = DecMode 2147483647"

section \<open>Proving systems\<close>

definition ProvingSystemIdFromString :: "string \<Rightarrow> u16 option" where
  "ProvingSystemIdFromString provingSystem =
     (if provingSystem = ''GnarkPlonkBls12_381'' then Some 0
      else if provingSystem = ''GnarkPlonkBn254'' then Some 1
      else if provingSystem = ''GnarkGroth16Bn254'' then Some 2
      else if provingSystem = ''SP1'' then Some 3
      else if provingSystem = ''Risc0'' then Some 4
      else if provingSystem = ''CircomGroth16Bn256'' then Some 5
      else None)"

text \<open>The receiver \<open>t\<close> is the value of the field before; a failed \<open>UnmarshalJSON\<close> reports the error.\<close>

definition ProvingSystemId_UnmarshalJSON :: "go_decoder \<Rightarrow> u16 \<Rightarrow> cbor_value \<Rightarrow> u16 option" where
  "ProvingSystemId_UnmarshalJSON D t b = Option.bind (gd_string D b) ProvingSystemIdFromString"

text \<open>
  The switch of \<open>UnmarshalCBOR\<close> has no default: an unknown name is no error and leaves the field as it was. (It reads the
  name in the default mode of the library, which decodes strings as every other mode does.)
\<close>

definition ProvingSystemId_UnmarshalCBOR :: "go_decoder \<Rightarrow> u16 \<Rightarrow> cbor_value \<Rightarrow> u16 option" where
  "ProvingSystemId_UnmarshalCBOR D s data =
     map_option (\<lambda>statusStr.
       if statusStr = ''GnarkPlonkBls12_381'' then 0
       else if statusStr = ''GnarkPlonkBn254'' then 1
       else if statusStr = ''GnarkGroth16Bn254'' then 2
       else if statusStr = ''SP1'' then 3
       else if statusStr = ''Risc0'' then 4
       else if statusStr = ''CircomGroth16Bn256'' then 5
       else s) (gd_string D data)"

section \<open>The batch\<close>

definition VerificationData_tags :: "string list" where
  "VerificationData_tags = [''proving_system'', ''proof'', ''pub_input'', ''verification_key'', ''vm_program_code'']"

text \<open>A field that the input does not mention keeps its zero value.\<close>

definition go_field :: "'a \<Rightarrow> (cbor_value \<Rightarrow> 'a option) \<Rightarrow> cbor_value option \<Rightarrow> 'a option" where
  "go_field zero unmarshal v = (case v of None \<Rightarrow> Some zero | Some x \<Rightarrow> unmarshal x)"

definition go_VerificationData ::
    "go_decoder \<Rightarrow> (go_decoder \<Rightarrow> u16 \<Rightarrow> cbor_value \<Rightarrow> u16 option) \<Rightarrow> cbor_value \<Rightarrow> GoVerificationData option" where
  "go_VerificationData D unmarshal_id v =
     Option.bind (gd_fields D VerificationData_tags v) (\<lambda>f.
     Option.bind (go_field 0 (unmarshal_id D 0) (f ''proving_system'')) (\<lambda>ps.
     Option.bind (go_field [] (gd_bytes D) (f ''proof'')) (\<lambda>pr.
     Option.bind (go_field [] (gd_bytes D) (f ''pub_input'')) (\<lambda>pub.
     Option.bind (go_field [] (gd_bytes D) (f ''verification_key'')) (\<lambda>vk.
     Option.bind (go_field [] (gd_bytes D) (f ''vm_program_code'')) (\<lambda>vm.
     Some \<lparr> g_ProvingSystemId = ps, g_Proof = pr, g_PubInput = pub, g_VerificationKey = vk, g_VmProgramCode = vm \<rparr>))))))"

definition go_batch ::
    "go_decoder \<Rightarrow> (go_decoder \<Rightarrow> u16 \<Rightarrow> cbor_value \<Rightarrow> u16 option) \<Rightarrow> bytes \<Rightarrow> GoVerificationData list option" where
  "go_batch D unmarshal_id b =
     Option.bind (gd_parse D b) (\<lambda>v. Option.bind (gd_elements D v) (\<lambda>vs. those (map (go_VerificationData D unmarshal_id) vs)))"

section \<open>The contracts of the libraries\<close>

text \<open>The limits of a decoder mode: on the elements of an array as given, 131072 pairs in a map and 32 levels by default.\<close>

fun go_limits :: "nat \<Rightarrow> nat \<Rightarrow> cbor_value \<Rightarrow> bool" where
  "go_limits n d (CArray vs) = (0 < d \<and> length vs \<le> n \<and> list_all (go_limits n (d - 1)) vs)"
| "go_limits n d (CMap kvs) = (0 < d \<and> length kvs \<le> 131072 \<and> list_all (\<lambda>p. go_limits n (d - 1) (snd p)) kvs)"
| "go_limits n d v = True"

text \<open>The tags of a struct are matched up to upper and lower case, so keys without upper case match exactly.\<close>

definition lower_case :: "string \<Rightarrow> bool" where
  "lower_case s \<longleftrightarrow> list_all (\<lambda>c. (of_char c :: nat) < 65 \<or> 90 < (of_char c :: nat)) s"

text \<open>Both CBOR libraries implement the same format: what the one of Rust writes, the one of Go parses to the same value.\<close>

locale go_cbor =
  fixes C :: cbor_codec and DecMode :: "nat \<Rightarrow> go_decoder"
  assumes same_value: "into_writer C v = Inr b \<Longrightarrow> go_limits n 32 v \<Longrightarrow> gd_parse (DecMode n) b = Some v"
    and elements: "gd_elements (DecMode n) (CArray vs) = Some vs"
    and fields: "distinct (map fst kvs) \<Longrightarrow> list_all lower_case (ks @ map fst kvs) \<Longrightarrow> distinct ks \<Longrightarrow>
      \<exists>f. gd_fields (DecMode n) ks (CMap kvs) = Some f \<and> (\<forall>k \<in> set ks. f k = map_of kvs k)"
    and field_bytes: "gd_bytes (DecMode n) (CBytes b) = Some b"
    and field_string: "gd_string (DecMode n) (CText s) = Some s"

text \<open>A byte field is never longer than the input it was decoded from.\<close>

locale go_sizes =
  fixes D :: go_decoder
  assumes decoded_size: "gd_parse D b = Some v \<Longrightarrow> gd_elements D v = Some vs \<Longrightarrow> v' \<in> set vs \<Longrightarrow>
    gd_fields D ks v' = Some f \<Longrightarrow> k \<in> set ks \<Longrightarrow> f k = Some x \<Longrightarrow> gd_bytes D x = Some y \<Longrightarrow> length y \<le> length b"

section \<open>What is decoded\<close>

text \<open>The id of a decoded proof is one of the six.\<close>

definition known_id :: "u16 \<Rightarrow> bool" where
  "known_id t \<longleftrightarrow> (\<exists>p. t = of_nat (proving_system_discr p))"

lemma known_ids: "known_id 0" "known_id 1" "known_id 2" "known_id 3" "known_id 4" "known_id 5"
  unfolding known_id_def
  by (rule exI [of _ GnarkPlonkBls12_381], simp) (rule exI [of _ GnarkPlonkBn254], simp, rule exI [of _ GnarkGroth16Bn254], simp,
      rule exI [of _ SP1], simp, rule exI [of _ Risc0], simp, rule exI [of _ CircomGroth16Bn256], simp)

lemma unmarshalled_ids:
  "ProvingSystemId_UnmarshalCBOR D s v = Some t \<Longrightarrow> known_id s \<Longrightarrow> known_id t"
  "ProvingSystemId_UnmarshalJSON D s v = Some t \<Longrightarrow> known_id t"
  using known_ids
  by (auto simp: ProvingSystemId_UnmarshalCBOR_def ProvingSystemId_UnmarshalJSON_def ProvingSystemIdFromString_def
      bind_eq_Some_conv split: if_splits)

lemma id_of_name:
  "ProvingSystemIdFromString (variant_name p) = Some (of_nat (proving_system_discr p))"
  "gd_string D v = Some (variant_name p) \<Longrightarrow>
     ProvingSystemId_UnmarshalCBOR D s v = Some (of_nat (proving_system_discr p))"
  by (cases p; simp add: ProvingSystemIdFromString_def ProvingSystemId_UnmarshalCBOR_def)+

text \<open>So every decoded proof is the Go form of some proof, and no longer than the batch.\<close>

lemma go_VerificationData_into:
  assumes "go_VerificationData D unmarshal_id v = Some g"
    and "\<And>x t. unmarshal_id D 0 x = Some t \<Longrightarrow> known_id t"
    and "\<And>f k x y. gd_fields D VerificationData_tags v = Some f \<Longrightarrow> k \<in> set VerificationData_tags \<Longrightarrow> f k = Some x \<Longrightarrow>
      gd_bytes D x = Some y \<Longrightarrow> length y < 2 ^ 31"
  obtains vd where "g = into_go vd" "c_sized vd"
proof -
  obtain f where f: "gd_fields D VerificationData_tags v = Some f"
    "go_field 0 (unmarshal_id D 0) (f ''proving_system'') = Some (g_ProvingSystemId g)"
    "go_field [] (gd_bytes D) (f ''proof'') = Some (g_Proof g)"
    "go_field [] (gd_bytes D) (f ''pub_input'') = Some (g_PubInput g)"
    "go_field [] (gd_bytes D) (f ''verification_key'') = Some (g_VerificationKey g)"
    "go_field [] (gd_bytes D) (f ''vm_program_code'') = Some (g_VmProgramCode g)"
    using assms(1) by (auto simp: go_VerificationData_def bind_eq_Some_conv)
  have "known_id (g_ProvingSystemId g)" using f(2) assms(2) known_ids(1) by (auto simp: go_field_def split: option.splits)
  then obtain p where p: "g_ProvingSystemId g = of_nat (proving_system_discr p)" by (auto simp: known_id_def)
  have sz: "length y < 2 ^ 31" if "go_field [] (gd_bytes D) (f k) = Some y" "k \<in> set VerificationData_tags" for k y
    using that assms(3) [OF f(1) that(2)] by (cases "f k") (auto simp: go_field_def)
  let ?vd = "\<lparr> proving_system = p, proof_bytes = g_Proof g, pub_input = Some (g_PubInput g),
    verification_key = Some (g_VerificationKey g), vm_program_code = Some (g_VmProgramCode g), proof_generator_addr = 0 \<rparr>"
  have "g = into_go ?vd" using p by (simp add: into_go_def unwrap_or_default_def)
  moreover have "c_sized ?vd"
    using sz [OF f(3)] sz [OF f(4)] sz [OF f(5)] sz [OF f(6)] by (simp add: c_sized_def VerificationData_tags_def)
  ultimately show ?thesis by (rule that)
qed

lemma go_batch_into:
  assumes "go_sizes D" "go_batch D unmarshal_id b = Some g" "x \<in> set g" "length b < 2 ^ 31"
    and "\<And>v t. unmarshal_id D 0 v = Some t \<Longrightarrow> known_id t"
  obtains vd where "x = into_go vd" "c_sized vd"
proof -
  obtain v vs where v: "gd_parse D b = Some v" "gd_elements D v = Some vs"
    "those (map (go_VerificationData D unmarshal_id) vs) = Some g"
    using assms(2) by (auto simp: go_batch_def bind_eq_Some_conv)
  have "\<exists>v' \<in> set vs. go_VerificationData D unmarshal_id v' = Some x"
    using v(3) assms(3) by (induction vs arbitrary: g) (auto split: option.splits)
  then obtain v' where v': "v' \<in> set vs" "go_VerificationData D unmarshal_id v' = Some x" by blast
  have sz: "length y < 2 ^ 31" if "gd_fields D VerificationData_tags v' = Some f" "k \<in> set VerificationData_tags"
    "f k = Some z" "gd_bytes D z = Some y" for f k z y
    using go_sizes.decoded_size [OF assms(1) v(1,2) v'(1) that] assms(4) by linarith
  show ?thesis
  proof (rule go_VerificationData_into [OF v'(2)])
    show "known_id t" if "unmarshal_id D 0 y = Some t" for y t using assms(5) that .
    show "length y < 2 ^ 31" if "gd_fields D VerificationData_tags v' = Some f" "k \<in> set VerificationData_tags"
      "f k = Some z" "gd_bytes D z = Some y" for f k z y
      using sz that .
  qed (rule that)
qed

section \<open>What the batcher wrote\<close>

context go_cbor
begin

lemma go_written:
  "go_VerificationData (DecMode n) ProvingSystemId_UnmarshalCBOR (serialize_VerificationData C vd) = Some (into_go vd)"
proof -
  let ?kvs = "[(''proving_system'', CText (variant_name (proving_system vd))), (''proof'', CBytes (proof_bytes vd))]
      @ optional_field ''pub_input'' (pub_input vd)
      @ optional_field ''verification_key'' (verification_key vd)
      @ optional_field ''vm_program_code'' (vm_program_code vd)
      @ [(''proof_generator_addr'', CText (ser_h160 C (proof_generator_addr vd)))]"
  have k: "distinct (map fst ?kvs)" "distinct VerificationData_tags"
    "list_all lower_case (VerificationData_tags @ map fst ?kvs)"
    by (auto simp: optional_field_def VerificationData_tags_def) (simp_all add: lower_case_def)
  obtain f where f: "gd_fields (DecMode n) VerificationData_tags (CMap ?kvs) = Some f"
    "\<forall>k \<in> set VerificationData_tags. f k = map_of ?kvs k"
    using fields [OF k(1,3,2), of n] by blast
  have "f ''proving_system'' = Some (CText (variant_name (proving_system vd)))" "f ''proof'' = Some (CBytes (proof_bytes vd))"
    "f ''pub_input'' = map_option CBytes (pub_input vd)" "f ''verification_key'' = map_option CBytes (verification_key vd)"
    "f ''vm_program_code'' = map_option CBytes (vm_program_code vd)"
    using f(2) by (cases "pub_input vd"; cases "verification_key vd"; cases "vm_program_code vd";
        simp add: VerificationData_tags_def optional_field_def)+
  moreover have "go_field [] (gd_bytes (DecMode n)) (map_option CBytes x) = Some (unwrap_or_default x)" for x
    by (cases x) (simp_all add: go_field_def field_bytes unwrap_or_default_def)
  ultimately show ?thesis
    using f(1) id_of_name(2) [OF field_string, of n]
    by (simp add: go_VerificationData_def serialize_VerificationData_def go_field_def [of 0] go_field_def [of "[]" _ "Some _"]
        field_bytes into_go_def)
qed

lemma go_batch_written:
  assumes "cbor_serialize C vds = Inr b" "length vds \<le> 2147483647"
  shows "go_batch (createDecoderMode DecMode) ProvingSystemId_UnmarshalCBOR b = Some (map into_go vds)"
proof -
  have "into_writer C (CArray (map (serialize_VerificationData C) vds)) = Inr b"
    using assms(1) by (auto simp: cbor_serialize_def split: sum.splits)
  moreover have "go_limits n 31 (serialize_VerificationData C vd)" for n vd
    by (auto simp: serialize_VerificationData_def optional_field_def)
  then have "go_limits 2147483647 32 (CArray (map (serialize_VerificationData C) vds))"
    using assms(2) by (simp add: list_all_iff)
  ultimately have "gd_parse (createDecoderMode DecMode) b = Some (CArray (map (serialize_VerificationData C) vds))"
    unfolding createDecoderMode_def by (rule same_value)
  moreover have "those (map (\<lambda>vd. go_VerificationData (createDecoderMode DecMode) ProvingSystemId_UnmarshalCBOR
      (serialize_VerificationData C vd)) vds) = Some (map into_go vds)"
    by (induction vds) (simp_all add: createDecoderMode_def go_written)
  ultimately show ?thesis by (simp add: go_batch_def createDecoderMode_def elements comp_def)
qed

end

section \<open>The libraries as their documentation describes them\<close>

text \<open>
  The decoder of RFC 8949 with the limits of Go: nothing may follow the value, a null is no value, the keys of a struct
  match exactly or else up to case. There is no JSON in \<open>no_json\<close>.
\<close>

definition to_lower :: "string \<Rightarrow> string" where
  "to_lower s = map (\<lambda>c. if 65 \<le> (of_char c :: nat) \<and> (of_char c :: nat) \<le> 90 then char_of ((of_char c :: nat) + 32) else c) s"

definition match_key :: "(string \<times> cbor_value) list \<Rightarrow> string \<Rightarrow> cbor_value option" where
  "match_key kvs k =
     (case map_of kvs k of Some x \<Rightarrow> Some x | None \<Rightarrow> map_of (map (\<lambda>p. (to_lower (fst p), snd p)) kvs) (to_lower k))"

definition rfc8949_go :: "nat \<Rightarrow> go_decoder" where
  "rfc8949_go n = \<lparr>
     gd_parse = (\<lambda>b. case read_value (length b) b of Some (v, []) \<Rightarrow> if go_limits n 32 v then Some v else None | _ \<Rightarrow> None),
     gd_elements = (\<lambda>v. case v of CArray vs \<Rightarrow> Some vs | CNull \<Rightarrow> Some [] | _ \<Rightarrow> None),
     gd_fields = (\<lambda>ks v. case v of CMap kvs \<Rightarrow> Some (match_key kvs) | CNull \<Rightarrow> Some (\<lambda>_. None) | _ \<Rightarrow> None),
     gd_bytes = (\<lambda>v. case v of CNull \<Rightarrow> Some [] | _ \<Rightarrow> buffer_of_value v),
     gd_string = (\<lambda>v. case v of CText s \<Rightarrow> Some s | CNull \<Rightarrow> Some [] | _ \<Rightarrow> None) \<rparr>"

definition no_json :: go_decoder where
  "no_json = (rfc8949_go 0)\<lparr>gd_parse := (\<lambda>_. None)\<rparr>"

lemma to_lower_id: "lower_case s \<Longrightarrow> to_lower s = s"
  by (induction s) (auto simp: to_lower_def lower_case_def)

lemma match_key_exact:
  assumes "lower_case k" "list_all lower_case (map fst kvs)"
  shows "match_key kvs k = map_of kvs k"
proof -
  have "map (\<lambda>p. (to_lower (fst p), snd p)) kvs = kvs"
    using assms(2) by (intro map_idI) (auto simp: list_all_iff to_lower_id prod_eq_iff)
  then show ?thesis by (simp add: match_key_def to_lower_id [OF assms(1)] split: option.split)
qed

lemma match_key_in: "match_key kvs k = Some x \<Longrightarrow> \<exists>k'. (k', x) \<in> set kvs"
  by (auto simp: match_key_def dest!: map_of_SomeD split: option.splits) blast+

interpretation rfc8949_go: go_cbor rfc8949 rfc8949_go
proof unfold_locales
  fix v b n assume a: "into_writer rfc8949 v = Inr b" "go_limits n 32 v"
  then have "write_value v = Some b" by (simp add: rfc8949_def split: option.splits)
  then show "gd_parse (rfc8949_go n) b = Some v"
    using read_value_written [of v b "length b" "[]"] a(2) by (simp add: rfc8949_go_def)
next
  fix kvs :: "(string \<times> cbor_value) list" and ks n
  assume "list_all lower_case (ks @ map fst kvs)"
  then have "\<forall>k \<in> set ks. match_key kvs k = map_of kvs k" using match_key_exact by (auto simp: list_all_iff)
  then show "\<exists>f. gd_fields (rfc8949_go n) ks (CMap kvs) = Some f \<and> (\<forall>k \<in> set ks. f k = map_of kvs k)"
    by (simp add: rfc8949_go_def)
qed (simp_all add: rfc8949_go_def buffer_of_value_def)

interpretation rfc8949_go: go_sizes "rfc8949_go n" for n
proof unfold_locales
  fix b v vs v' ks f k x y
  assume p: "gd_parse (rfc8949_go n) b = Some v" and e: "gd_elements (rfc8949_go n) v = Some vs" "v' \<in> set vs"
    and f: "gd_fields (rfc8949_go n) ks v' = Some f" "f k = Some x" and y: "gd_bytes (rfc8949_go n) x = Some y"
  have "length y \<le> contents x"
    using y buffer_contents [of x y] by (cases x) (auto simp: rfc8949_go_def)
  also have "contents x \<le> contents v'"
  proof -
    obtain kvs where kvs: "v' = CMap kvs" "match_key kvs k = Some x"
      using f by (cases v') (auto simp: rfc8949_go_def)
    then obtain k' where k': "(k', x) \<in> set kvs" using match_key_in by blast
    have "length k' + contents x \<le> sum_list (map (\<lambda>p. length (fst p) + contents (snd p)) kvs)"
      using member_le_sum_list [of "length k' + contents x" "map (\<lambda>p. length (fst p) + contents (snd p)) kvs"] k' by force
    then show ?thesis using kvs(1) by simp
  qed
  also have "contents v' \<le> contents v"
    using e by (cases v) (auto simp: rfc8949_go_def member_le_sum_list)
  also have "contents v \<le> length b"
    using p read_value_contents by (auto simp: rfc8949_go_def split: option.splits list.splits if_splits prod.splits) fastforce
  finally show "length y \<le> length b" .
qed

interpretation no_json: go_sizes no_json
  by unfold_locales (simp add: no_json_def)

end
