(* ===== verification/Operator.thy ===== *)
theory Operator
  imports Operator_Codec Agg_Backend Vetted
begin

text \<open>
  An operator (\<open>operator/pkg/operator.go\<close>, \<open>operator/pkg/s3.go\<close>): it reads the log of a new batch, downloads the
  batch, checks its Merkle root with the Rust library, verifies every proof and answers with a signature.
  The HTTP client, the CBOR and JSON libraries of Go, the contract and the BLS key are the fields of \<open>operator_env\<close>.
\<close>

section \<open>The environment\<close>

record http_response =
  http_status :: nat
  http_length :: int
  http_body :: "bytes option"
  body_closes :: bool

record 't operator_env =
  op_zk :: zk_ops
  op_libs :: go_libs
  op_lib :: "'t merkle_lib"
  http_request_ok :: "string \<Rightarrow> bool"
  http_do :: "string \<Rightarrow> nat \<Rightarrow> string + http_response"
  ctx_done :: "string \<Rightarrow> nat \<Rightarrow> bool"
  MaxBatchSize :: int
  cbor_DecMode :: "nat \<Rightarrow> go_decoder"
  json_handle :: go_decoder
  DisabledVerifiers :: "string + u256"
  op_keccak :: "bytes \<Rightarrow> bytes"
  SignMessage :: "bytes \<Rightarrow> bytes"
  OperatorId :: bytes

record NewBatchV3 =
  BatchMerkleRoot :: bytes
  SenderAddress :: bytes
  BatchDataPointer :: string

record SignedTaskResponse =
  r_BatchIdentifierHash :: bytes
  r_BatchMerkleRoot :: bytes
  r_SenderAddress :: bytes
  r_BlsSignature :: bytes
  r_OperatorId :: bytes

definition MaxBatchURLs :: nat where
  "MaxBatchURLs = 5"

definition BatchDownloadMaxRetries :: nat where
  "BatchDownloadMaxRetries = 4"

section \<open>The download of a batch\<close>

fun parseBatchURLs_loop :: "string list \<Rightarrow> string list \<Rightarrow> string list" where
  "parseBatchURLs_loop [] urls = urls"
| "parseBatchURLs_loop (url # rest) urls =
     (let trimmedURL = trim url in
      if trimmedURL \<noteq> [] then
        let urls = urls @ [trimmedURL] in
        if MaxBatchURLs < length urls then urls else parseBatchURLs_loop rest urls
      else parseBatchURLs_loop rest urls)"

definition parseBatchURLs :: "string \<Rightarrow> string list" where
  "parseBatchURLs batchURLs = parseBatchURLs_loop (split_on (CHR '','') batchURLs) []"

text \<open>
  The attempts, with the number of those that are left after this one. The wait before a repetition
  ends early when the context is done. The result \<open>Inr\<close> is the last response, whatever its status.
\<close>

fun fetch_loop :: "'t operator_env \<Rightarrow> string \<Rightarrow> nat \<Rightarrow> nat \<Rightarrow> string + http_response" where
  "fetch_loop A batchURL attempt left =
     (if 0 < attempt \<and> ctx_done A batchURL attempt then Inl ''context done''
      else if \<not> http_request_ok A batchURL then Inl ''invalid request''
      else case http_do A batchURL attempt of
        Inl e \<Rightarrow> (case left of 0 \<Rightarrow> Inl e | Suc n \<Rightarrow> fetch_loop A batchURL (attempt + 1) n)
      | Inr resp \<Rightarrow>
        if http_status resp = 200 then Inr resp
        else if \<not> body_closes resp then Inl ''body not closed''
        else (case left of 0 \<Rightarrow> Inr resp | Suc n \<Rightarrow> fetch_loop A batchURL (attempt + 1) n))"

declare fetch_loop.simps [simp del]

text \<open>
  First as CBOR, then as JSON. Nothing is left of the first attempt in the second: the bracket that opens a JSON array,
  and white space before it, are heads of a string or a number in CBOR, so the CBOR decoder of such bytes has set no field.
\<close>

definition decode_go :: "'t operator_env \<Rightarrow> bytes \<Rightarrow> string + GoVerificationData list" where
  "decode_go A batchBytes =
     (case go_batch (createDecoderMode (cbor_DecMode A)) ProvingSystemId_UnmarshalCBOR batchBytes of
        Some batch \<Rightarrow> Inr batch
      | None \<Rightarrow>
        (case go_batch (json_handle A) ProvingSystemId_UnmarshalJSON batchBytes of
           Some batch \<Rightarrow> Inr batch
         | None \<Rightarrow> Inl ''error decoding batch''))"

text \<open>
  The reader is limited to one byte more than the announced length; when it is used up, the body was
  longer than announced. An unknown length is \<open>-1\<close>.
\<close>

definition getBatchFromDataService ::
    "'t operator_env \<Rightarrow> string \<Rightarrow> bytes \<Rightarrow> (string + GoVerificationData list) ffi" where
  "getBatchFromDataService A batchURL expectedMerkleRoot =
     (case fetch_loop A batchURL 0 (BatchDownloadMaxRetries - 1) of
        Inl e \<Rightarrow> Returns (Inl e)
      | Inr resp \<Rightarrow>
        if http_status resp \<noteq> 200 then Returns (Inl ''error getting batch from data service'')
        else if MaxBatchSize A < http_length resp then Returns (Inl ''proof size exceeds max batch size'')
        else (case http_body resp of
            None \<Rightarrow> Returns (Inl ''read error'')
          | Some body \<Rightarrow>
            let batchBytes = take (nat (http_length resp + 1)) body in
            if http_length resp + 1 - int (length batchBytes) \<le> 0
            then Returns (Inl ''batch size exceeds max batch size'')
            else ffi_bind (VerifyMerkleTreeBatch (op_lib A) batchBytes expectedMerkleRoot) (\<lambda>merkle_root_check.
              if merkle_root_check \<noteq> Inr True then Returns (Inl ''error while verifying merkle tree batch'')
              else Returns (decode_go A batchBytes))))"

fun try_batch_urls ::
    "'t operator_env \<Rightarrow> bytes \<Rightarrow> string list \<Rightarrow> (string + GoVerificationData list) ffi" where
  "try_batch_urls A expectedMerkleRoot [] = Returns (Inl ''failed to get batch from all URLs'')"
| "try_batch_urls A expectedMerkleRoot (batchURL # urls) =
     ffi_bind (getBatchFromDataService A batchURL expectedMerkleRoot) (\<lambda>r.
       case r of Inl _ \<Rightarrow> try_batch_urls A expectedMerkleRoot urls | Inr batch \<Rightarrow> Returns (Inr batch))"

definition getBatchFromDataServiceWithMultipleURLs ::
    "'t operator_env \<Rightarrow> string \<Rightarrow> bytes \<Rightarrow> (string + GoVerificationData list) ffi" where
  "getBatchFromDataServiceWithMultipleURLs A batchURLs expectedMerkleRoot =
     try_batch_urls A expectedMerkleRoot (parseBatchURLs batchURLs)"

section \<open>The answer to a batch\<close>

text \<open>
  The workers verify the proofs in some order, and the first rejection ends the wait; a worker that panics
  ends the process, whatever the others found. With an empty batch the channel of the results has no
  room, and the attempt to report that the bitmap is unavailable blocks.
\<close>

datatype process_result = AllVerified | ProcessError string | ProcessCrash | ProcessBlocks

definition ProcessNewBatchLogV3 :: "'t operator_env \<Rightarrow> NewBatchV3 \<Rightarrow> process_result" where
  "ProcessNewBatchLogV3 A newBatchLog =
     (case getBatchFromDataServiceWithMultipleURLs A (BatchDataPointer newBatchLog) (BatchMerkleRoot newBatchLog) of
        Returns (Inl e) \<Rightarrow> ProcessError e
      | Returns (Inr verificationDataBatch) \<Rightarrow>
        (case DisabledVerifiers A of
           Inl e \<Rightarrow> if verificationDataBatch = [] then ProcessBlocks else ProcessError e
         | Inr disabledVerifiersBitmap \<Rightarrow>
           let results = map (\<lambda>data. operator_verify (op_zk A) (op_libs A) data disabledVerifiersBitmap)
                           verificationDataBatch in
           if Panics \<in> set results \<or> Undefined \<in> set results then ProcessCrash
           else if Returns False \<in> set results then ProcessError ''invalid proof''
           else AllVerified)
      | _ \<Rightarrow> ProcessCrash)"

definition signed_response :: "'t operator_env \<Rightarrow> NewBatchV3 \<Rightarrow> SignedTaskResponse" where
  "signed_response A newBatchLog =
     (let batchIdentifier = BatchMerkleRoot newBatchLog @ SenderAddress newBatchLog;
          batchIdentifierHash = op_keccak A batchIdentifier in
      \<lparr> r_BatchIdentifierHash = batchIdentifierHash, r_BatchMerkleRoot = BatchMerkleRoot newBatchLog,
        r_SenderAddress = SenderAddress newBatchLog, r_BlsSignature = SignMessage A batchIdentifierHash,
        r_OperatorId = OperatorId A \<rparr>)"

datatype handled = Responded SignedTaskResponse | NotVerified string | Crashed | Blocked

definition handleNewBatchLogV3 :: "'t operator_env \<Rightarrow> NewBatchV3 \<Rightarrow> handled" where
  "handleNewBatchLogV3 A newBatchLog =
     (case ProcessNewBatchLogV3 A newBatchLog of
        ProcessError e \<Rightarrow> NotVerified e
      | ProcessCrash \<Rightarrow> Crashed
      | ProcessBlocks \<Rightarrow> Blocked
      | AllVerified \<Rightarrow> Responded (signed_response A newBatchLog))"

end
