(* ===== verification/Wire_Fits.thy ===== *)
theory Wire_Fits
  imports Vetted Cbor
begin

text \<open>
  What the batcher uploads fits. The batcher never measures the bytes of a batch: it adds up estimates while it
  chooses the proofs. With the contract of the CBOR library (\<open>Cbor\<close>) the estimates are shown to be enough: in every
  state it reaches, the batch in flight is written in no more bytes than the configured limit.
\<close>

section \<open>The batch in flight\<close>

text \<open>
  A batch in flight was chosen by one of the environments, within its limits on bytes and proofs, and is not changed;
  this holds in every run, whatever happened to the queue.
\<close>

definition within_limits :: "('q, 't) batcher_env \<Rightarrow> BatchQueueEntry list \<Rightarrow> bool" where
  "within_limits N batch \<longleftrightarrow> batch \<noteq> [] \<and>
     CBOR_ARRAY_MAX_OVERHEAD + sum_list (map entry_size batch) \<le> max_batch_byte_size (cfg N) \<and>
     length batch \<le> max_batch_proof_qty (cfg N)"

context batcher_queue
begin

lemma extracted_within_limits:
  assumes "extract_batch_if_ready N b gp s = (Ret (Some batch), t)"
  shows "within_limits N batch"
  by (cases rule: extract_if_ready_any [of b gp s]) (use assms in \<open>auto simp: within_limits_def sizes_sum_def comp_def\<close>)

end

lemma step_flight:
  assumes st: "batcher_step Ns (s, fl) (t, Some batch)" and q: "\<And>N. N \<in> Ns \<Longrightarrow> pq N = Q" "batch_pq Q"
  shows "fl = Some batch \<or> (\<exists>N \<in> Ns. within_limits N batch)"
  using st
proof cases
  case (take_batch N b gp taken)
  have loc: "batcher_queue N" using q(1) [OF take_batch(2)] q(2) by (intro batcher_queue.intro) simp
  then show ?thesis
    using take_batch batcher_queue.extracted_within_limits [OF loc, of b gp s batch t] by (cases taken) auto
qed simp_all

lemma flight_within_limits:
  assumes "\<And>N. N \<in> Ns \<Longrightarrow> pq N = Q" "batch_pq Q" "batcher_reachable Ns Q (s, Some batch)"
  shows "\<exists>N \<in> Ns. within_limits N batch"
proof -
  have "snd p = Some batch \<Longrightarrow> \<exists>N \<in> Ns. within_limits N batch" if "batcher_reachable Ns Q p" for p
    using that
  proof (induction rule: reachable_induct)
    case (initial p)
    then show ?case by (simp add: initial_def)
  next
    case (step p p')
    have "snd p = Some batch \<or> (\<exists>N \<in> Ns. within_limits N batch)"
      by (rule step_flight [of Ns "fst p" "snd p" "fst p'" batch Q]) (use step assms(1,2) in \<open>cases p', simp_all\<close>)
    then show ?case using step.IH by blast
  qed
  from this [OF assms(3)] show ?thesis by simp
qed

lemma flight_size:
  assumes "\<And>N. N \<in> Ns \<Longrightarrow> pq N = Q \<and> max_batch_byte_size (cfg N) \<le> B" "batch_pq Q"
    and "batcher_reachable Ns Q (s, Some batch)"
  shows "batch \<noteq> []" "CBOR_ARRAY_MAX_OVERHEAD + sum_list (map entry_size batch) \<le> B"
  using flight_within_limits [of Ns Q s batch] assms by (fastforce simp: within_limits_def)+

lemma written_batch_fits:
  assumes "cbor_format C" "\<And>N. N \<in> Ns \<Longrightarrow> pq N = Q \<and> max_batch_byte_size (cfg N) \<le> B \<and> cbor_serialize_batch N = cbor_serialize C"
    and "batch_pq Q" "batcher_reachable Ns Q (s, Some batch)" "N \<in> Ns"
    and "cbor_serialize_batch N (map (verification_data \<circ> nonced_verification_data) batch) = Inr b"
  shows "length b + 767 * length batch \<le> CBOR_ARRAY_MAX_OVERHEAD + sum_list (map entry_size batch)"
    and "length b \<le> B" "b \<noteq> []" "cbor_deserialize C b = Some (map (verification_data \<circ> nonced_verification_data) batch)"
proof -
  have w: "cbor_serialize C (map (verification_data \<circ> nonced_verification_data) batch) = Inr b" using assms(2,5,6) by simp
  have "CBOR_ARRAY_MAX_OVERHEAD + sum_list (map entry_size batch) \<le> B"
    by (rule flight_size(2) [of Ns Q B s batch]) (use assms(2-4) in auto)
  moreover show "length b + 767 * length batch \<le> CBOR_ARRAY_MAX_OVERHEAD + sum_list (map entry_size batch)"
    using cbor_format.batch_bound [OF assms(1) w] by (simp add: comp_def)
  ultimately show "length b \<le> B" by linarith
  show "b \<noteq> []" "cbor_deserialize C b = Some (map (verification_data \<circ> nonced_verification_data) batch)"
    using cbor_format.batch_read [OF assms(1) w] by simp_all
qed

text \<open>
  Claim C10. Every batch the batcher uploads fits: in every state it reaches with a batch in flight, the bytes written
  for the batch stay within the configured limit, and the library reads them back as the proofs of the batch. The
  estimate the proofs were chosen by is an upper bound whatever their fields are, and exceeds what is written by at
  least 767 bytes for each proof (the comment in \<open>calculate_batch_size\<close> speaks of 8 bytes for the batch).
\<close>

theorem uploaded_batch_fits:
  assumes "cbor_format C" "\<forall>N \<in> Ns. pq N = Q \<and> max_batch_byte_size (cfg N) \<le> B \<and> cbor_serialize_batch N = cbor_serialize C"
    and "batch_pq Q" "batcher_reachable Ns Q (s, Some batch)" "N \<in> Ns"
    and "cbor_serialize_batch N (map (verification_data \<circ> nonced_verification_data) batch) = Inr b"
  shows "length b + 767 * length batch \<le> CBOR_ARRAY_MAX_OVERHEAD + sum_list (map entry_size batch) \<and>
    length b \<le> B \<and> b \<noteq> [] \<and>
    cbor_deserialize C b = Some (map (verification_data \<circ> nonced_verification_data) batch)"
  using written_batch_fits [OF assms(1) _ assms(3-6), of B] assms(2) by blast

theorem uploaded_batch_fits_witness:
  "length sample_bytes + 767 \<le> CBOR_ARRAY_MAX_OVERHEAD + entry_size (sample_entry 1 0 600000) \<and>
   length sample_bytes \<le> max_batch_byte_size (cfg sample_env) \<and> cbor_deserialize rfc8949 sample_bytes = Some [sample_vd]"
  using uploaded_batch_fits [OF rfc8949.cbor_format_axioms _ _ sample_reach_in_flight, of "max_batch_byte_size (cfg sample_env)"
      sample_env sample_bytes] sample_batch_pq
  by simp

end
