(* ===== verification/Operator_Correct.thy ===== *)
theory Operator_Correct
  imports Operator Wire_Fits
begin

text \<open>
  What the answer of an operator means, and that it comes: an operator signs only batches whose Merkle root it
  has recomputed and whose proofs have all been verified, and it signs every batch the batcher posts.
\<close>

section \<open>The decoders\<close>

text \<open>
  The batch is decoded twice, in Rust for the Merkle tree and in Go for the verification. What the Go libraries give
  is the Go form of some proofs, each no longer than the batch.
\<close>

definition go_decoders :: "'t operator_env \<Rightarrow> bool" where
  "go_decoders A \<longleftrightarrow> go_sizes (createDecoderMode (cbor_DecMode A)) \<and> go_sizes (json_handle A)"

lemma decoded_into:
  assumes "go_decoders A" "decode_go A b = Inr g" "x \<in> set g" "length b < 2 ^ 31"
  obtains vd where "x = into_go vd" "c_sized vd"
proof (cases "go_batch (createDecoderMode (cbor_DecMode A)) ProvingSystemId_UnmarshalCBOR b")
  case (Some g')
  then have g: "go_batch (createDecoderMode (cbor_DecMode A)) ProvingSystemId_UnmarshalCBOR b = Some g"
    using assms(2) by (simp add: decode_go_def)
  show ?thesis
    by (rule go_batch_into [OF _ g assms(3,4) unmarshalled_ids(1) [OF _ known_ids(1)]])
      (use assms(1) that in \<open>auto simp: go_decoders_def\<close>)
next
  case None
  then have g: "go_batch (json_handle A) ProvingSystemId_UnmarshalJSON b = Some g"
    using assms(2) by (auto simp: decode_go_def split: option.splits)
  show ?thesis
    by (rule go_batch_into [OF _ g assms(3,4) unmarshalled_ids(2)]) (use assms(1) that in \<open>auto simp: go_decoders_def\<close>)
qed

lemma c_sized_into_go:
  assumes "into_go vd = into_go vd'" "c_sized vd'"
  shows "c_sized vd"
proof -
  have "option_len x = length (unwrap_or_default x)" for x by (cases x) (simp_all add: unwrap_or_default_def)
  then have "c_sized vd \<longleftrightarrow> (\<forall>b \<in> {g_Proof (into_go vd), g_PubInput (into_go vd), g_VerificationKey (into_go vd),
      g_VmProgramCode (into_go vd)}. length b < 2 ^ 31)" for vd
    by (simp add: c_sized_def into_go_def)
  then show ?thesis using assms by simp
qed

lemma decode_go_written:
  assumes "go_cbor C (cbor_DecMode A)" "cbor_serialize C vds = Inr b" "length vds \<le> 2147483647"
  shows "decode_go A b = Inr (map into_go vds)"
  using go_cbor.go_batch_written [OF assms] by (simp add: decode_go_def)

section \<open>A batch that was downloaded\<close>

text \<open>The bytes decode to a batch whose Merkle tree has the given root.\<close>

definition has_root :: "'t merkle_lib \<Rightarrow> bytes \<Rightarrow> VerificationData list \<Rightarrow> bytes \<Rightarrow> bool" where
  "has_root L b vds root \<longleftrightarrow> b \<noteq> [] \<and> decode_batch L b = Some vds \<and> vds \<noteq> [] \<and>
     (\<exists>t. mt_build (lib_merkle L) (map (verification_data_into_commitment (lib_keccak L)) vds) = Some t \<and>
          mt_root (lib_merkle L) t = root)"

lemma VerifyMerkleTreeBatch_eq:
  assumes "length b < 2 ^ 32"
  shows "VerifyMerkleTreeBatch L b root = Returns (Inr (\<exists>vds. has_root L b vds root))"
  using assms unat_c_len [OF assms]
  by (auto simp: VerifyMerkleTreeBatch_def verify_merkle_tree_batch_ffi_def inner_verify_merkle_tree_batch_ffi_def
      from_raw_parts_def has_root_def ffi_verdict_def split: option.splits)

lemma downloaded:
  assumes "getBatchFromDataService A u root = Returns (Inr g)" "MaxBatchSize A < 2 ^ 31"
  obtains b vds where "length b < 2 ^ 31" "has_root (op_lib A) b vds root" "decode_go A b = Inr g"
proof -
  obtain resp body where r: "fetch_loop A u 0 (BatchDownloadMaxRetries - 1) = Inr resp" "http_status resp = 200"
    "http_length resp \<le> MaxBatchSize A" "http_body resp = Some body"
    using assms(1) by (auto simp: getBatchFromDataService_def not_less split: sum.splits if_splits option.splits)
  let ?b = "take (nat (http_length resp + 1)) body"
  have n: "int (length ?b) < http_length resp + 1"
    using assms(1) r by (auto simp: getBatchFromDataService_def Let_def split: if_splits)
  then have "int (length ?b) < 2147483648" using r(3) assms(2) by simp
  then have "length ?b < 2 ^ 31" by simp
  moreover from this have "VerifyMerkleTreeBatch (op_lib A) ?b root = Returns (Inr (\<exists>vds. has_root (op_lib A) ?b vds root))"
    by (intro VerifyMerkleTreeBatch_eq) simp
  then have "\<exists>vds. has_root (op_lib A) ?b vds root" "decode_go A ?b = Inr g"
    using assms(1) r n by (auto simp: getBatchFromDataService_def Let_def split: if_splits)
  ultimately show ?thesis using that by blast
qed

lemma try_batch_urls_Inr:
  assumes "try_batch_urls A root urls = Returns (Inr g)"
  obtains u where "u \<in> set urls" "getBatchFromDataService A u root = Returns (Inr g)"
  using assms
proof (induction urls arbitrary: thesis)
  case (Cons u urls)
  show ?case
  proof (cases "getBatchFromDataService A u root = Returns (Inr g)")
    case True
    then show ?thesis by (rule Cons.prems(1) [rotated]) simp
  next
    case False
    then have "try_batch_urls A root urls = Returns (Inr g)"
      using Cons.prems(2) by (cases "getBatchFromDataService A u root") (auto split: sum.splits)
    then show ?thesis using Cons.IH Cons.prems(1) by (metis list.set_intros(2))
  qed
qed simp

lemma process_AllVerified:
  assumes "ProcessNewBatchLogV3 A l = AllVerified"
  obtains g d where "getBatchFromDataServiceWithMultipleURLs A (BatchDataPointer l) (BatchMerkleRoot l) = Returns (Inr g)"
    "DisabledVerifiers A = Inr d" "\<And>v. v \<in> set g \<Longrightarrow> operator_verify (op_zk A) (op_libs A) v d = Returns True"
proof -
  obtain g d where g: "getBatchFromDataServiceWithMultipleURLs A (BatchDataPointer l) (BatchMerkleRoot l) = Returns (Inr g)"
    "DisabledVerifiers A = Inr d"
    using assms by (auto simp: ProcessNewBatchLogV3_def split: ffi.splits sum.splits if_splits)
  have "r = Returns True" if "r \<in> set (map (\<lambda>v. operator_verify (op_zk A) (op_libs A) v d) g)" for r
    using assms g that by (cases r) (auto simp: ProcessNewBatchLogV3_def Let_def split: if_splits)
  then show ?thesis using that g by auto
qed

section \<open>Data services\<close>

text \<open>
  A service delivers a batch within four attempts, after responses that are worth a repetition and before the context is
  done; an unavailable one never answers with success.
\<close>

definition worth_retrying :: "string + http_response \<Rightarrow> bool" where
  "worth_retrying x = (case x of Inl _ \<Rightarrow> True | Inr resp \<Rightarrow> http_status resp \<noteq> 200 \<and> body_closes resp)"

definition serves :: "'t operator_env \<Rightarrow> string \<Rightarrow> bytes \<Rightarrow> bool" where
  "serves A u b \<longleftrightarrow> http_request_ok A u \<and>
     (\<exists>k < BatchDownloadMaxRetries. \<exists>resp. (\<forall>j \<le> k. \<not> ctx_done A u j) \<and> (\<forall>j < k. worth_retrying (http_do A u j)) \<and>
        http_do A u k = Inr resp \<and> http_status resp = 200 \<and> http_length resp = int (length b) \<and> http_body resp = Some b)"

definition unavailable :: "'t operator_env \<Rightarrow> string \<Rightarrow> bool" where
  "unavailable A u \<longleftrightarrow> (\<forall>j resp. http_do A u j = Inr resp \<longrightarrow> http_status resp \<noteq> 200)"

lemma fetch_loop_success:
  assumes "http_request_ok A u" "http_do A u (a + k) = Inr resp" "http_status resp = 200" "k \<le> left"
    and "\<forall>j \<le> a + k. \<not> ctx_done A u j" "\<forall>j. a \<le> j \<and> j < a + k \<longrightarrow> worth_retrying (http_do A u j)"
  shows "fetch_loop A u a left = Inr resp"
  using assms
proof (induction k arbitrary: a left)
  case 0
  then show ?case by (simp add: fetch_loop.simps [of A u a])
next
  case (Suc k)
  obtain n where n: "left = Suc n" "k \<le> n" using Suc.prems(4) by (cases left) auto
  have "fetch_loop A u (Suc a) n = Inr resp"
    using Suc.prems n by (intro Suc.IH) auto
  moreover have "worth_retrying (http_do A u a)" "\<not> ctx_done A u a" using Suc.prems(5,6) by auto
  ultimately show ?case
    using n Suc.prems(1) by (auto simp: fetch_loop.simps [of A u a] worth_retrying_def split: sum.splits)
qed

lemma fetch_loop_unavailable:
  "unavailable A u \<Longrightarrow> fetch_loop A u a left = Inr resp \<Longrightarrow> http_status resp \<noteq> 200"
proof (induction left arbitrary: a)
  case 0
  then show ?case by (auto simp: fetch_loop.simps [of A u a] unavailable_def split: sum.splits if_splits)
next
  case (Suc n)
  then show ?case by (auto simp: fetch_loop.simps [of A u a] unavailable_def split: sum.splits if_splits)
qed

lemma unavailable_fails:
  assumes "unavailable A u"
  shows "\<exists>e. getBatchFromDataService A u root = Returns (Inl e)"
  using fetch_loop_unavailable [OF assms, of 0 "BatchDownloadMaxRetries - 1"]
  by (auto simp: getBatchFromDataService_def split: sum.splits)

lemma served_batch:
  assumes "serves A u b" "int (length b) \<le> MaxBatchSize A" "length b < 2 ^ 31"
    and "has_root (op_lib A) b vds root" "decode_go A b = Inr g"
  shows "getBatchFromDataService A u root = Returns (Inr g)"
proof -
  obtain resp where r: "fetch_loop A u 0 (BatchDownloadMaxRetries - 1) = Inr resp" "http_status resp = 200"
    "http_length resp = int (length b)" "http_body resp = Some b"
    using assms(1) fetch_loop_success [of A u 0 _ _ "BatchDownloadMaxRetries - 1"] unfolding serves_def by fastforce
  have "take (nat (int (length b) + 1)) b = b" by simp
  moreover have "VerifyMerkleTreeBatch (op_lib A) b root = Returns (Inr True)"
    using VerifyMerkleTreeBatch_eq [of b "op_lib A" root] assms(3,4) by auto
  ultimately show ?thesis using r assms(2,5) by (simp add: getBatchFromDataService_def Let_def)
qed

lemma served_from_urls:
  assumes "\<And>u. u \<in> set urls \<Longrightarrow> serves A u b \<or> unavailable A u" "\<exists>u \<in> set urls. serves A u b"
    and "\<And>u. serves A u b \<Longrightarrow> getBatchFromDataService A u root = Returns (Inr g)"
  shows "try_batch_urls A root urls = Returns (Inr g)"
  using assms(1,2)
proof (induction urls)
  case (Cons u urls)
  show ?case
  proof (cases "serves A u b")
    case True
    then show ?thesis using assms(3) by simp
  next
    case False
    then have "unavailable A u" using Cons.prems(1) [of u] by simp
    then obtain e where "getBatchFromDataService A u root = Returns (Inl e)" using unavailable_fails by blast
    moreover have "try_batch_urls A root urls = Returns (Inr g)" using Cons False by auto
    ultimately show ?thesis by simp
  qed
qed simp

text \<open>A list of URLs survives being joined by the batcher and split by the operator.\<close>

definition clean_url :: "string \<Rightarrow> bool" where
  "clean_url u \<longleftrightarrow> u \<noteq> [] \<and> CHR '','' \<notin> set u \<and> trim u = u"

lemma split_on_no_sep: "c \<notin> set u \<Longrightarrow> split_on c u = [u]"
  by (induction u) auto

lemma split_on_sep: "c \<notin> set u \<Longrightarrow> split_on c (u @ c # rest) = u # split_on c rest"
  by (induction u) auto

lemma split_join: "urls \<noteq> [] \<Longrightarrow> \<forall>u \<in> set urls. clean_url u \<Longrightarrow> split_on (CHR '','') (join_urls urls) = urls"
  by (induction urls rule: join_urls.induct) (auto simp: clean_url_def split_on_no_sep split_on_sep)

lemma parse_loop_clean:
  "\<forall>u \<in> set urls. clean_url u \<Longrightarrow> length acc + length urls \<le> MaxBatchURLs \<Longrightarrow>
   parseBatchURLs_loop urls acc = acc @ urls"
  by (induction urls arbitrary: acc) (auto simp: clean_url_def Let_def)

lemma parse_joined:
  "urls \<noteq> [] \<Longrightarrow> \<forall>u \<in> set urls. clean_url u \<Longrightarrow> length urls \<le> MaxBatchURLs \<Longrightarrow>
   parseBatchURLs (join_urls urls) = urls"
  by (simp add: parseBatchURLs_def split_join parse_loop_clean)

lemma length_uploaded_urls: "length (uploaded_urls N b f) \<le> MaxBatchURLs"
  by (auto simp: uploaded_urls_def MaxBatchURLs_def split: sum.splits option.splits)

section \<open>Properties\<close>

text \<open>
  Claim C9. An operator signs only what it has verified: when it answers the log of a batch with a signed response, the
  response is for the root and the sender of the log, and from one of the URLs of the log it has downloaded bytes whose
  Rust decoding has that Merkle root over the commitments of its proofs; every proof in the Go decoding of the same bytes
  is of a proving system that is not disabled and passes the verification the batcher does (an absent field
  read as an empty one). Where the two decodings agree, so does every proof under the root; they do
  agree on every batch that the batcher's encoder wrote. On other bytes nothing in the code makes them agree.
\<close>

theorem signs_only_verified_batches:
  assumes "go_decoders A" "cbor_format C" "go_cbor C (cbor_DecMode A)" "lib_cbor (op_lib A) = cbor_deserialize C"
    and "batcher_go_lib (op_libs A) (op_zk A)" "MaxBatchSize A < 2 ^ 31"
    and "handleNewBatchLogV3 A l = Responded r"
  shows "r = signed_response A l \<and>
    (\<exists>b vds g d. has_root (op_lib A) b vds (BatchMerkleRoot l) \<and> decode_go A b = Inr g \<and> DisabledVerifiers A = Inr d \<and>
       (\<forall>x \<in> set g. \<exists>vd. x = into_go vd \<and> \<not> is_verifier_disabled d (proving_system vd) \<and> verify (op_zk A) (filled vd)) \<and>
       (g = map into_go vds \<longrightarrow>
          (\<forall>vd \<in> set vds. \<not> is_verifier_disabled d (proving_system vd) \<and> verify (op_zk A) (filled vd))) \<and>
       (\<forall>ws. cbor_serialize C ws = Inr b \<longrightarrow> length ws \<le> 2147483647 \<longrightarrow> vds = ws \<and> g = map into_go ws))"
proof -
  have "ProcessNewBatchLogV3 A l = AllVerified" and r: "r = signed_response A l"
    using assms(7) by (auto simp: handleNewBatchLogV3_def split: process_result.splits)
  then obtain g d where g: "getBatchFromDataServiceWithMultipleURLs A (BatchDataPointer l) (BatchMerkleRoot l) = Returns (Inr g)"
    "DisabledVerifiers A = Inr d" "\<And>v. v \<in> set g \<Longrightarrow> operator_verify (op_zk A) (op_libs A) v d = Returns True"
    using process_AllVerified by blast
  obtain u where u: "getBatchFromDataService A u (BatchMerkleRoot l) = Returns (Inr g)"
    using g(1) try_batch_urls_Inr unfolding getBatchFromDataServiceWithMultipleURLs_def by blast
  obtain b vds where b: "length b < 2 ^ 31" "has_root (op_lib A) b vds (BatchMerkleRoot l)" "decode_go A b = Inr g"
    by (rule downloaded [OF u assms(6)])
  have ok: "c_sized vd \<and> \<not> is_verifier_disabled d (proving_system vd) \<and> verify (op_zk A) (filled vd)"
    if x: "into_go vd \<in> set g" for vd
  proof -
    obtain vd' where "into_go vd = into_go vd'" "c_sized vd'" by (rule decoded_into [OF assms(1) b(3) x b(1)])
    then have "c_sized vd" by (rule c_sized_into_go)
    then show ?thesis
      using g(3) [OF x] operator_verify_eq [OF assms(5), of vd d] by (simp split: if_splits)
  qed
  have "\<exists>vd. x = into_go vd \<and> \<not> is_verifier_disabled d (proving_system vd) \<and> verify (op_zk A) (filled vd)" if "x \<in> set g" for x
    using decoded_into [OF assms(1) b(3) that b(1)] ok that by metis
  moreover have "vds = ws \<and> g = map into_go ws" if ws: "cbor_serialize C ws = Inr b" "length ws \<le> 2147483647" for ws
    using b(2,3) decode_go_written [OF assms(3) ws] cbor_format.batch_read(1) [OF assms(2) ws(1)] assms(4)
    by (simp add: has_root_def decode_batch_def)
  ultimately show ?thesis using r b(2,3) g(2) ok by (intro conjI exI [of _ b] exI [of _ vds] exI [of _ g] exI [of _ d]) auto
qed

text \<open>
  The operator \<open>A\<close> reads what the batcher \<open>N\<close> wrote for a batch: it uses the same hash, tree and verifiers, its CBOR
  libraries implement the format of the batcher's, and of the services that took the upload at
  least one delivers the bytes, while the others deliver them too or are unavailable.
\<close>

definition reads_batch :: "cbor_codec \<Rightarrow> 't operator_env \<Rightarrow> ('q, 't) batcher_env \<Rightarrow> BatchQueueEntry list \<Rightarrow> bool" where
  "reads_batch C A N batch \<longleftrightarrow>
     op_zk A = zk N \<and> batcher_go_lib (op_libs A) (zk N) \<and> lib_merkle (op_lib A) = merkle N \<and>
     lib_keccak (op_lib A) = keccak N \<and> lib_cbor (op_lib A) = cbor_deserialize C \<and> go_cbor C (cbor_DecMode A) \<and>
     (\<forall>b t. cbor_serialize_batch N (map (verification_data \<circ> nonced_verification_data) batch) = Inr b \<longrightarrow>
        mt_build (merkle N) (map verification_data_commitment batch) = Some t \<longrightarrow>
        (let urls = set (uploaded_urls N b (hex_encode (hex (eth N)) (mt_root (merkle N) t) @ ''.json'')) in
         (\<forall>u \<in> urls. clean_url u \<and> (serves A u b \<or> unavailable A u)) \<and>
         (urls \<noteq> {} \<longrightarrow> (\<exists>u \<in> urls. serves A u b))))"

lemma vetted_verdict:
  assumes "vetted K Z limit e" "enabled d e" "limit < 2 ^ 31" "batcher_go_lib L Z"
    and "proving_system (verification_data (nonced_verification_data e)) = SP1 \<Longrightarrow>
      unwrap_or_default (pub_input (verification_data (nonced_verification_data e))) \<noteq> []"
  shows "operator_verify Z L (into_go (verification_data (nonced_verification_data e))) d = Returns True"
proof -
  let ?vd = "verification_data (nonced_verification_data e)"
  have "c_sized ?vd" using assms(1,3) by (simp add: vetted_def c_sized_def cbor_size_upper_bound_def Let_def)
  then show ?thesis
    using assms(1,2,5) operator_verify_eq [OF assms(4), of ?vd d] verify_filled [of Z ?vd]
    by (auto simp: vetted_def enabled_def Let_def)
qed

lemma posted_batch_verified:
  assumes A: "reads_batch C A N batch" and tc: "task_created N gp batch tr" and d: "DisabledVerifiers A = Inr d"
    and v: "\<And>e. e \<in> set batch \<Longrightarrow> vetted (keccak N) (zk N) limit e" "\<And>e. e \<in> set batch \<Longrightarrow> enabled d e" "limit < 2 ^ 31"
    and sp1: "\<And>e. e \<in> set batch \<Longrightarrow> proving_system (verification_data (nonced_verification_data e)) = SP1 \<Longrightarrow>
      unwrap_or_default (pub_input (verification_data (nonced_verification_data e))) \<noteq> []"
    and ne: "batch \<noteq> []"
    and fits: "\<And>b. cbor_serialize_batch N (map (verification_data \<circ> nonced_verification_data) batch) = Inr b \<Longrightarrow>
      length b \<le> B \<and> b \<noteq> [] \<and> cbor_deserialize C b = Some (map (verification_data \<circ> nonced_verification_data) batch)"
    and ser: "cbor_serialize_batch N = cbor_serialize C" and len: "length batch \<le> 2147483647"
    and B: "B < 2 ^ 31" "int B \<le> MaxBatchSize A"
  shows "\<exists>a n receipt. create_new_task_retryable (eth N) a n = Inr receipt \<and> ta_merkle_root a = mt_root (merkle N) tr \<and>
    (\<forall>l. BatchMerkleRoot l = ta_merkle_root a \<longrightarrow> BatchDataPointer l = ta_data_pointer a \<longrightarrow>
       ProcessNewBatchLogV3 A l = AllVerified)"
proof -
  let ?vds = "map (verification_data \<circ> nonced_verification_data) batch"
  let ?f = "hex_encode (hex (eth N)) (mt_root (merkle N) tr) @ ''.json''"
  obtain b a n receipt where t: "mt_build (merkle N) (map verification_data_commitment batch) = Some tr"
    "cbor_serialize_batch N ?vds = Inr b" "uploaded_urls N b ?f \<noteq> []" "ta_data_pointer a = join_urls (uploaded_urls N b ?f)"
    "ta_merkle_root a = mt_root (merkle N) tr" "create_new_task_retryable (eth N) a n = Inr receipt"
    using tc unfolding task_created_def by blast
  have fit: "length b \<le> B" "b \<noteq> []" "cbor_deserialize C b = Some ?vds" using fits [OF t(2)] by simp_all
  have "decode_go A b = Inr (map into_go ?vds)"
    by (rule decode_go_written) (use A t(2) ser len in \<open>simp_all add: reads_batch_def\<close>)
  moreover have "\<forall>u \<in> set (uploaded_urls N b ?f). clean_url u \<and> (serves A u b \<or> unavailable A u)"
    "\<exists>u \<in> set (uploaded_urls N b ?f). serves A u b"
    using A t(1-3) unfolding reads_batch_def Let_def by blast+
  moreover have "decode_batch (op_lib A) b = Some ?vds" using A fit(3) by (simp add: reads_batch_def decode_batch_def)
  ultimately have r: "b \<noteq> []" "length b < 2 ^ 31" "int (length b) \<le> MaxBatchSize A" "decode_batch (op_lib A) b = Some ?vds"
    "decode_go A b = Inr (map into_go ?vds)" "\<forall>u \<in> set (uploaded_urls N b ?f). clean_url u \<and> (serves A u b \<or> unavailable A u)"
    "\<exists>u \<in> set (uploaded_urls N b ?f). serves A u b"
    using fit(1,2) B by (auto simp: less_le_trans)
  have lib: "op_zk A = zk N" "batcher_go_lib (op_libs A) (zk N)" "lib_merkle (op_lib A) = merkle N" "lib_keccak (op_lib A) = keccak N"
    using A by (simp_all add: reads_batch_def)
  have com: "map (verification_data_into_commitment (keccak N)) ?vds = map verification_data_commitment batch"
    using v(1) by (auto simp: vetted_def Let_def)
  have root: "has_root (op_lib A) b ?vds (ta_merkle_root a)"
    unfolding has_root_def lib com using r(1,4) t(1,5) ne by simp
  have urls: "parseBatchURLs (ta_data_pointer a) = uploaded_urls N b ?f"
    unfolding t(4) by (rule parse_joined) (use t(3) r(6) length_uploaded_urls in auto)
  have batch: "getBatchFromDataServiceWithMultipleURLs A (ta_data_pointer a) (ta_merkle_root a) = Returns (Inr (map into_go ?vds))"
    unfolding getBatchFromDataServiceWithMultipleURLs_def urls
    by (rule served_from_urls [of _ A b]) (use r(6,7) served_batch [OF _ r(3,2) root r(5)] in auto)
  have "operator_verify (op_zk A) (op_libs A) g d = Returns True" if "g \<in> set (map into_go ?vds)" for g
    using that vetted_verdict [OF v lib(2) sp1] lib(1) by auto
  then have "set (map (\<lambda>g. operator_verify (op_zk A) (op_libs A) g d) (map into_go ?vds)) \<subseteq> {Returns True}" by auto
  then have "ProcessNewBatchLogV3 A l = AllVerified" if "BatchMerkleRoot l = ta_merkle_root a" "BatchDataPointer l = ta_data_pointer a" for l
    using that batch d by (auto simp: ProcessNewBatchLogV3_def Let_def)
  then show ?thesis using t(5,6) by blast
qed

text \<open>
  Claim C7. A batch the batcher posts is signed by the operators: from any state of any run with a batch in
  flight, when the finalization succeeds, the task it created on chain is one to whose log an operator
  that can read the batch answers with its signature, provided that the operator sees no proving system of
  the batch disabled. The Merkle root it recomputes is the one of the task, no proof of the batch is rejected, and neither
  is the batch for its size. It is assumed that pre-verification is on, that the limits on proofs and batches are below
  \<open>2 ^ 31\<close> bytes, that the limit of the operator is at least that of the batcher, and that every SP1 proof of the batch
  has public input (without one the operator's verdict is undefined). A verifier disabled while the
  batch is in flight is the case the proviso leaves out: there the operator rejects.
\<close>

theorem posted_batch_is_signed:
  assumes "\<forall>N \<in> Ns. pq N = Q \<and> checks_proofs K Z limit N \<and> max_batch_byte_size (cfg N) \<le> B \<and>
      cbor_serialize_batch N = cbor_serialize C"
    and "cbor_format C" "limit < 2 ^ 31" "B < 2 ^ 31" "int B \<le> MaxBatchSize A" "batch_pq Q"
    and "batcher_reachable Ns Q (s, Some batch)" "N \<in> Ns" "finalize_batch N b batch gp s = (Ret (Inr ()), t)"
    and "reads_batch C A N batch" "DisabledVerifiers A = Inr d" "\<forall>e \<in> set batch. enabled d e"
    and "\<forall>e \<in> set batch. proving_system (verification_data (nonced_verification_data e)) = SP1 \<longrightarrow>
      unwrap_or_default (pub_input (verification_data (nonced_verification_data e))) \<noteq> []"
  shows "\<exists>a n receipt. create_new_task_retryable (eth N) a n = Inr receipt \<and>
    (\<forall>l. BatchMerkleRoot l = ta_merkle_root a \<longrightarrow> BatchDataPointer l = ta_data_pointer a \<longrightarrow>
       handleNewBatchLogV3 A l = Responded (signed_response A l))"
proof -
  have N: "pq N = Q" "keccak N = K" "zk N = Z" "cbor_serialize_batch N = cbor_serialize C"
    using assms(1,8) by (auto simp: checks_proofs_def)
  obtain tr where tc: "task_created N gp batch tr" by (rule finalize_posted [OF assms(9)])
  have v: "vetted (keccak N) (zk N) limit e" if "e \<in> set batch" for e
    using reachable_vetted [of Ns Q K Z limit "(s, Some batch)" e] assms(1,6,7) that N by (auto simp: held_entries_def)
  note flight = flight_size [of Ns Q B s batch]
  have ne: "batch \<noteq> []" using flight(1) assms(1,6,7) by auto
  have fits: "length c \<le> B \<and> c \<noteq> [] \<and> cbor_deserialize C c = Some (map (verification_data \<circ> nonced_verification_data) batch)"
    if "cbor_serialize_batch N (map (verification_data \<circ> nonced_verification_data) batch) = Inr c" for c
    using written_batch_fits [OF assms(2) _ assms(6,7,8) that, of B] assms(1) by auto
  have "length batch \<le> sum_list (map entry_size batch)"
    by (induction batch) (auto simp: cbor_size_upper_bound_def CBOR_OVERHEAD_BYTES_def Let_def)
  moreover have "CBOR_ARRAY_MAX_OVERHEAD + sum_list (map entry_size batch) \<le> B" by (rule flight(2)) (use assms(1,6,7) in auto)
  ultimately have len: "length batch \<le> 2147483647" using assms(4) by simp
  show ?thesis
  proof -
    have "\<exists>a n receipt. create_new_task_retryable (eth N) a n = Inr receipt \<and> ta_merkle_root a = mt_root (merkle N) tr \<and>
      (\<forall>l. BatchMerkleRoot l = ta_merkle_root a \<longrightarrow> BatchDataPointer l = ta_data_pointer a \<longrightarrow>
         ProcessNewBatchLogV3 A l = AllVerified)"
      by (rule posted_batch_verified [OF assms(10) tc assms(11) v _ assms(3) _ ne fits N(4) len assms(4,5)])
        (use assms(12,13) in auto)
    then obtain a n receipt where a: "create_new_task_retryable (eth N) a n = Inr receipt"
      "\<And>l. BatchMerkleRoot l = ta_merkle_root a \<Longrightarrow> BatchDataPointer l = ta_data_pointer a \<Longrightarrow>
         ProcessNewBatchLogV3 A l = AllVerified" by blast
    show ?thesis
      by (rule exI [of _ a], rule exI [of _ n], rule exI [of _ receipt]) (simp add: a handleNewBatchLogV3_def)
  qed
qed

section \<open>An operator for the sample batch\<close>

definition sample_operator :: "VerificationDataCommitment list operator_env" where
  "sample_operator = \<lparr> op_zk = sample_zk, op_libs = sample_go_libs,
     op_lib = \<lparr> lib_cbor = cbor_deserialize rfc8949, lib_json = (\<lambda>_. None),
       lib_merkle = sample_merkle, lib_keccak = id \<rparr>,
     http_request_ok = (\<lambda>_. True),
     http_do = (\<lambda>_ j. if j = 0 then Inl ''timeout'' else
       Inr \<lparr> http_status = 200, http_length = int (length sample_bytes), http_body = Some sample_bytes, body_closes = True \<rparr>),
     ctx_done = (\<lambda>_ _. False), MaxBatchSize = 100000,
     cbor_DecMode = rfc8949_go, json_handle = no_json,
     DisabledVerifiers = Inr 0, op_keccak = id, SignMessage = id, OperatorId = [1] \<rparr>"

lemma sample_operator_decodes: "decode_batch (op_lib sample_operator) b = cbor_deserialize rfc8949 b"
  by (auto simp: sample_operator_def decode_batch_def split: option.splits)

lemma sample_bytes_read:
  "cbor_deserialize rfc8949 sample_bytes = Some [sample_vd]" "decode_go sample_operator sample_bytes = Inr [into_go sample_vd]"
  using rfc8949.batch_read(1) [OF sample_written] decode_go_written [OF _ sample_written, of sample_operator]
    rfc8949_go.go_cbor_axioms by (simp_all add: sample_operator_def)

lemma sample_decoders: "go_decoders sample_operator"
  using rfc8949_go.go_sizes_axioms no_json.go_sizes_axioms
  by (simp add: go_decoders_def sample_operator_def createDecoderMode_def)

lemma sample_serves: "serves sample_operator u sample_bytes"
  unfolding serves_def by (auto simp: sample_operator_def BatchDownloadMaxRetries_def worth_retrying_def intro!: exI [of _ 1])

definition sample_new_batch :: NewBatchV3 where
  "sample_new_batch = \<lparr> BatchMerkleRoot = [0], SenderAddress = [5], BatchDataPointer = ''s3/00.json'' \<rparr>"

lemma sample_url:
  "uploaded_urls sample_env b (hex_encode (hex (eth sample_env)) [0] @ ''.json'') = [''s3/00.json'']"
  "clean_url ''s3/00.json''"
proof -
  have "hex_encode std_hex [0] = ''00''" by code_simp
  then show "uploaded_urls sample_env b (hex_encode (hex (eth sample_env)) [0] @ ''.json'') = [''s3/00.json'']"
    by (simp add: uploaded_urls_def upload_batch_to_s3_def upload_batch_to_s3_retryable_def retry_first_try
        sample_env_def sample_eth_def sample_cfg_def)
  show "clean_url ''s3/00.json''" by code_simp
qed

lemma sample_operator_sel:
  "op_zk sample_operator = sample_zk" "op_libs sample_operator = sample_go_libs"
  "lib_merkle (op_lib sample_operator) = sample_merkle" "lib_keccak (op_lib sample_operator) = id"
  "MaxBatchSize sample_operator = 100000" "DisabledVerifiers sample_operator = Inr 0"
  "lib_cbor (op_lib sample_operator) = cbor_deserialize rfc8949" "go_cbor rfc8949 (cbor_DecMode sample_operator)"
  using rfc8949_go.go_cbor_axioms by (simp_all add: sample_operator_def)

lemma sample_reads_batch: "reads_batch rfc8949 sample_operator sample_env [sample_entry 1 0 600000]"
proof -
  have "mt_root sample_merkle t = [0]" for t by (simp add: sample_merkle_def)
  then show ?thesis
    using sample_serves sample_url sample_batcher_go_lib sample_bytes_read
    by (simp add: reads_batch_def Let_def sample_operator_sel)
qed

lemma sample_operator_signs:
  "handleNewBatchLogV3 sample_operator sample_new_batch = Responded (signed_response sample_operator sample_new_batch)"
proof -
  have "parseBatchURLs ''s3/00.json'' = [''s3/00.json'']" by code_simp
  moreover have "has_root (op_lib sample_operator) sample_bytes [sample_vd] [0]"
    using rfc8949.batch_read(2) [OF sample_written]
    by (simp add: has_root_def sample_operator_decodes sample_operator_sel sample_bytes_read) (simp add: sample_merkle_def)
  then have "getBatchFromDataService sample_operator u [0] = Returns (Inr [into_go sample_vd])" for u
    by (intro served_batch [OF sample_serves])
      (simp_all add: sample_operator_sel sample_operator_decodes sample_bytes_read length_sample_bytes)
  moreover have "operator_verify sample_zk sample_go_libs (into_go sample_vd) 0 = Returns True"
    using operator_verify_eq [OF sample_batcher_go_lib, of sample_vd 0] verify_filled [OF sample_vd_verifies]
    by (simp add: c_sized_def sample_vd_def unwrap_or_default_def is_verifier_disabled_bit)
  ultimately show ?thesis
    by (simp add: handleNewBatchLogV3_def ProcessNewBatchLogV3_def getBatchFromDataServiceWithMultipleURLs_def
        sample_new_batch_def sample_operator_sel Let_def)
qed

theorem signs_only_verified_batches_witness:
  "\<exists>b vds g. has_root (op_lib sample_operator) b vds (BatchMerkleRoot sample_new_batch) \<and> decode_go sample_operator b = Inr g \<and>
     (g = map into_go vds \<longrightarrow> (\<forall>vd \<in> set vds. \<not> is_verifier_disabled 0 (proving_system vd) \<and> verify sample_zk (filled vd)))"
  using signs_only_verified_batches [OF sample_decoders rfc8949.cbor_format_axioms sample_operator_sel(8,7) _ _ sample_operator_signs]
    sample_batcher_go_lib by (auto simp: sample_operator_sel)

abbreviation sample_flying :: "item list batcher" where
  "sample_flying \<equiv> snd (extract_batch_if_ready sample_env 5 1 (snd (handle_submit_proof_msg sample_env (sample_msg 1 0 600000) 1
     (sample_state [] 10 (\<lambda>_. None)))))"

lemma sample_finalizes:
  "\<exists>t. finalize_batch sample_env 5 [sample_entry 1 0 600000] 1 sample_flying = (Ret (Inr ()), t)"
  unfolding sample_submit snd_conv sample_extract_submitted
  by (simp add: block_defs Let_def)

theorem posted_batch_is_signed_witness:
  "\<exists>a n receipt. create_new_task_retryable (eth sample_env) a n = Inr receipt \<and>
     handleNewBatchLogV3 sample_operator
       \<lparr> BatchMerkleRoot = ta_merkle_root a, SenderAddress = [5], BatchDataPointer = ta_data_pointer a \<rparr> =
     Responded (signed_response sample_operator
       \<lparr> BatchMerkleRoot = ta_merkle_root a, SenderAddress = [5], BatchDataPointer = ta_data_pointer a \<rparr>)"
proof -
  obtain t where t: "finalize_batch sample_env 5 [sample_entry 1 0 600000] 1 sample_flying = (Ret (Inr ()), t)"
    using sample_finalizes by blast
  have sp1: "unwrap_or_default (pub_input sample_vd) \<noteq> []" by (simp add: sample_vd_def unwrap_or_default_def)
  have enabled: "\<forall>e \<in> set [sample_entry 1 0 600000]. enabled 0 e"
    by (simp add: enabled_def is_verifier_disabled_bit sample_vd_def)
  have "\<exists>a n receipt. create_new_task_retryable (eth sample_env) a n = Inr receipt \<and>
    (\<forall>l. BatchMerkleRoot l = ta_merkle_root a \<longrightarrow> BatchDataPointer l = ta_data_pointer a \<longrightarrow>
       handleNewBatchLogV3 sample_operator l = Responded (signed_response sample_operator l))"
    by (rule posted_batch_is_signed [of "{sample_env}" _ id sample_zk "max_proof_size (cfg sample_env)"
          "max_batch_byte_size (cfg sample_env)", OF _ rfc8949.cbor_format_axioms _ _ _ _ sample_reach_in_flight _ t
          sample_reads_batch sample_operator_sel(6) enabled])
      (use sample_batch_pq sample_checks_proofs sp1 in \<open>simp_all add: sample_operator_sel sample_cfg_def\<close>)
  then show ?thesis by fastforce
qed

end
