(* ===== verification/Batch_Delivery.thy ===== *)
theory Batch_Delivery
  imports Agg_Service Operator_Correct
begin

text \<open>
  From the batcher to the aggregator: the aggregator downloads what the batcher uploaded and reads the proofs
  of the batch, so every proof of a posted batch that its engine can aggregate is collected, in this run or in a
  later one.
\<close>

section \<open>Downloading\<close>

text \<open>A service delivers a batch within the attempts the aggregator makes, after failures that are worth a repetition.\<close>

definition delivers :: "fetch_env \<Rightarrow> string \<Rightarrow> bytes \<Rightarrow> bool" where
  "delivers F u b \<longleftrightarrow> http_client F = Inr () \<and>
     (\<exists>k \<le> RETRY_MAX_TIMES. (\<forall>j < k. is_transient (get_aligned_batch_from_s3_retryable F u j)) \<and>
        (\<exists>resp. http_get F k u = Inr resp \<and> is_success (Agg_Backend.http_status resp) \<and> Agg_Backend.http_body resp = Inr b))"

definition never_delivers :: "fetch_env \<Rightarrow> string \<Rightarrow> bool" where
  "never_delivers F u \<longleftrightarrow> (\<forall>j. isl (get_aligned_batch_from_s3_retryable F u j))"

lemma delivered:
  assumes "backon (s3_driver F)" "delivers F u b" "cbor_batch F b = Inr data"
  shows "get_aligned_batch_from_s3 F u = Inr data"
proof -
  let ?f = "get_aligned_batch_from_s3_retryable F u"
  obtain k resp where k: "k \<le> RETRY_MAX_TIMES" "\<forall>j < k. is_transient (?f j)" "http_client F = Inr ()" "http_get F k u = Inr resp"
    "is_success (Agg_Backend.http_status resp)" "Agg_Backend.http_body resp = Inr b"
    using assms(2) unfolding delivers_def by blast
  then have f: "?f k = Inr data" using assms(3) by (simp add: get_aligned_batch_from_s3_retryable_def)
  then have "last_attempt (s3_driver F) RETRY_MAX_TIMES (\<lambda>i. is_transient (?f i)) = k"
    using backon.last_attempt_first [OF assms(1), of "\<lambda>i. is_transient (?f i)" k] k by simp
  then show ?thesis using f by (simp add: get_aligned_batch_from_s3_def agg_retry_function_def)
qed

lemma never_delivered: "never_delivers F u \<Longrightarrow> \<exists>e. get_aligned_batch_from_s3 F u = Inl e"
  by (simp add: never_delivers_def get_aligned_batch_from_s3_def agg_retry_function_def isl_def) (metis map_sum.simps(1))

lemma delivered_from_urls:
  assumes "\<And>u. u \<in> set urls \<Longrightarrow> get_aligned_batch_from_s3 F u = Inr data \<or> never_delivers F u"
    and "\<exists>u \<in> set urls. get_aligned_batch_from_s3 F u = Inr data"
  shows "try_urls F urls errors = Inr data"
  using assms
proof (induction urls arbitrary: errors)
  case (Cons u urls)
  show ?case
  proof (cases "get_aligned_batch_from_s3 F u = Inr data")
    case False
    then obtain e where "get_aligned_batch_from_s3 F u = Inl e"
      using Cons.prems(1) [of u] never_delivered by auto
    then show ?thesis using Cons False by auto
  qed simp
qed simp

lemma parse_joined_batch_urls:
  assumes "urls \<noteq> []" "\<forall>u \<in> set urls. clean_url u" "length urls \<le> 6"
  shows "parse_batch_urls (join_urls urls) = urls"
proof -
  have "map trim urls = urls" by (rule map_idI) (use assms(2) in \<open>simp add: clean_url_def\<close>)
  then have "filter (\<lambda>u. u \<noteq> []) (map trim urls) = urls" using assms(2) by (simp add: clean_url_def)
  then show ?thesis using assms(3) by (simp add: parse_batch_urls_first_six split_join [OF assms(1,2)])
qed

section \<open>Collecting\<close>

text \<open>The proof of the engine that an entry of a batch gives, if any.\<close>

definition candidate :: "'n agg_env \<Rightarrow> fetch_env \<Rightarrow> ZKVMEngine \<Rightarrow> VerificationData \<Rightarrow> AlignedProof option" where
  "candidate A F engine vd =
     (case engine of
        EngineSP1 \<Rightarrow> (case sp1_candidate A F vd of None \<Rightarrow> None | Some c \<Rightarrow> c)
      | EngineRISC0 \<Rightarrow> (case risc0_candidate A F vd of None \<Rightarrow> None | Some c \<Rightarrow> c))"

lemma filter_candidates_in:
  "filter_candidates f data = Some ps \<Longrightarrow> d \<in> set data \<Longrightarrow> f d = Some (Some p) \<Longrightarrow> p \<in> set ps"
  by (induction data arbitrary: ps) (auto simp: bind_eq_Some_conv split: option.splits)

lemma compatible_candidate:
  assumes "compatible_proofs A F engine data = Some ps" "vd \<in> set data" "candidate A F engine vd = Some p"
  shows "p \<in> set ps"
  using assms filter_candidates_in [of _ data ps vd p]
  by (cases engine) (auto simp: compatible_proofs_def candidate_def split: option.splits)

lemma fetch_loop_keeps: "Agg_Backend.fetch_loop A F engine limit current logs acc = Some (proofs, b) \<Longrightarrow> set acc \<subseteq> set proofs"
  by (induction A F engine limit current logs acc rule: Agg_Backend.fetch_loop.induct)
    (auto simp: bind_eq_Some_conv split: sum.splits if_splits)

text \<open>A log is taken, or the next run starts at its block or before.\<close>

lemma fetch_loop_takes:
  assumes "Agg_Backend.fetch_loop A F engine limit current (map (\<lambda>(p, b). (p, Some b)) ls) acc = Some (proofs, b)"
    and "sorted (map snd ls)" "(pointer, blk) \<in> set ls"
    and "get_aligned_batch_from_s3_with_multiple_urls F pointer = Inr data"
  shows "(\<exists>ps. compatible_proofs A F engine data = Some ps \<and> set ps \<subseteq> set proofs) \<or> b \<le> blk"
  using assms
proof (induction ls arbitrary: acc)
  case (Cons l ls)
  obtain p0 b0 where l: "l = (p0, b0)" by fastforce
  show ?case
  proof (cases "get_aligned_batch_from_s3_with_multiple_urls F p0")
    case (Inl e)
    then have "Agg_Backend.fetch_loop A F engine limit current (map (\<lambda>(p, b). (p, Some b)) ls) acc = Some (proofs, b)"
      "(pointer, blk) \<in> set ls"
      using Cons.prems l by auto
    then show ?thesis using Cons.IH Cons.prems(2,4) by simp
  next
    case (Inr d0)
    then obtain ps where ps: "compatible_proofs A F engine d0 = Some ps"
      using Cons.prems(1) l by (auto simp: bind_eq_Some_conv)
    show ?thesis
    proof (cases "unat limit < length acc + length ps")
      case True
      then have "b = b0" using Cons.prems(1) l Inr ps by simp
      moreover have "b0 \<le> blk" using Cons.prems(2,3) l by (auto simp: image_iff)
      ultimately show ?thesis by simp
    next
      case False
      then have f: "Agg_Backend.fetch_loop A F engine limit current (map (\<lambda>(p, b). (p, Some b)) ls) (acc @ ps) = Some (proofs, b)"
        using Cons.prems(1) l Inr ps by simp
      show ?thesis
      proof (cases "(pointer, blk) = l")
        case True
        then show ?thesis using fetch_loop_keeps [OF f] l Inr ps Cons.prems(4) by auto
      next
        case False
        then show ?thesis using Cons.IH [OF f] Cons.prems(2-4) by simp
      qed
    qed
  qed
qed simp

section \<open>From a posted batch to the aggregator\<close>

text \<open>
  The aggregator can download what the batcher uploads for a batch: it has the same CBOR library, and of the services
  that took the upload at least one delivers the bytes, while the others deliver them too or never answer.
\<close>

definition downloads_batch :: "cbor_codec \<Rightarrow> fetch_env \<Rightarrow> ('q, 't) batcher_env \<Rightarrow> BatchQueueEntry list \<Rightarrow> bool" where
  "downloads_batch C F N batch \<longleftrightarrow>
     backon (s3_driver F) \<and> (\<forall>b vds. cbor_deserialize C b = Some vds \<longrightarrow> cbor_batch F b = Inr vds) \<and>
     (\<forall>b t. cbor_serialize_batch N (map (verification_data \<circ> nonced_verification_data) batch) = Inr b \<longrightarrow>
        mt_build (merkle N) (map verification_data_commitment batch) = Some t \<longrightarrow>
        (let urls = set (uploaded_urls N b (hex_encode (hex (eth N)) (mt_root (merkle N) t) @ ''.json'')) in
         (\<forall>u \<in> urls. clean_url u \<and> (delivers F u b \<or> never_delivers F u)) \<and>
         (urls \<noteq> {} \<longrightarrow> (\<exists>u \<in> urls. delivers F u b))))"

lemma posted_batch_downloaded:
  assumes "cbor_format C" "cbor_serialize_batch N = cbor_serialize C" "downloads_batch C F N batch" "task_created N gp batch tr"
  shows "\<exists>a n receipt. create_new_task_retryable (eth N) a n = Inr receipt \<and>
    get_aligned_batch_from_s3_with_multiple_urls F (ta_data_pointer a)
      = Inr (map (verification_data \<circ> nonced_verification_data) batch)"
proof -
  let ?vds = "map (verification_data \<circ> nonced_verification_data) batch"
  let ?f = "hex_encode (hex (eth N)) (mt_root (merkle N) tr) @ ''.json''"
  obtain b a n receipt where t: "mt_build (merkle N) (map verification_data_commitment batch) = Some tr"
    "cbor_serialize_batch N ?vds = Inr b" "uploaded_urls N b ?f \<noteq> []" "ta_data_pointer a = join_urls (uploaded_urls N b ?f)"
    "create_new_task_retryable (eth N) a n = Inr receipt"
    using assms(4) unfolding task_created_def by blast
  have d: "backon (s3_driver F)" "\<forall>u \<in> set (uploaded_urls N b ?f). clean_url u \<and> (delivers F u b \<or> never_delivers F u)"
    "\<exists>u \<in> set (uploaded_urls N b ?f). delivers F u b"
    using assms(3) t(1-3) unfolding downloads_batch_def Let_def by blast+
  have c: "cbor_batch F b = Inr ?vds"
    using assms(3) cbor_format.batch_read(1) [OF assms(1)] t(2) assms(2) unfolding downloads_batch_def by simp
  have "parse_batch_urls (ta_data_pointer a) = uploaded_urls N b ?f"
    unfolding t(4) by (rule parse_joined_batch_urls)
      (use t(3) d(2) length_uploaded_urls [of N b ?f] in \<open>auto simp: MaxBatchURLs_def\<close>)
  moreover have "try_urls F (uploaded_urls N b ?f) [] = Inr ?vds"
    by (rule delivered_from_urls) (use d(2,3) delivered [OF d(1) _ c] in blast)+
  ultimately have "get_aligned_batch_from_s3_with_multiple_urls F (ta_data_pointer a) = Inr ?vds"
    unfolding get_aligned_batch_from_s3_with_multiple_urls_def by simp
  then show ?thesis using t(5) by blast
qed

text \<open>
  Claim C15. Every batch the batcher posts reaches the aggregator: from any state the batcher reaches with a batch in
  flight, when the finalization succeeds, an aggregator that can download the batch reads from the data pointer of the
  task exactly its proofs, and when it finds the log of the task it collects every proof of the batch that is one of its engine, unless the limit on the number of
  proofs ends the run before, and then the next run starts at the block of the log or an earlier one.
\<close>

theorem posted_batch_is_collected:
  assumes "\<forall>N \<in> Ns. pq N = Q \<and> cbor_serialize_batch N = cbor_serialize C" "cbor_format C" "batch_pq Q"
    and "batcher_reachable Ns Q (s, Some batch)" "N \<in> Ns" "finalize_batch N b batch gp s = (Ret (Inr ()), t)"
    and "downloads_batch C F N batch"
  shows "\<exists>a n receipt. create_new_task_retryable (eth N) a n = Inr receipt \<and>
    get_aligned_batch_from_s3_with_multiple_urls F (ta_data_pointer a)
      = Inr (map (verification_data \<circ> nonced_verification_data) batch) \<and>
    (\<forall>A engine limit g proofs g' current ls blk.
       fetch A F engine limit g = (Ret (Inr proofs), g') \<longrightarrow> Agg_Backend.get_block_number F = Inr current \<longrightarrow>
       new_batch_logs F (last_aggregated_block g) current = Inr (map (\<lambda>(p, b). (p, Some b)) ls) \<longrightarrow>
       sorted (map snd ls) \<longrightarrow> (ta_data_pointer a, blk) \<in> set ls \<longrightarrow>
       (\<forall>e \<in> set batch. \<forall>p. candidate A F engine (verification_data (nonced_verification_data e)) = Some p \<longrightarrow> p \<in> set proofs)
       \<or> last_aggregated_block g' \<le> blk)"
proof -
  obtain tr where tc: "task_created N gp batch tr" by (rule finalize_posted [OF assms(6)])
  obtain a n receipt where a: "create_new_task_retryable (eth N) a n = Inr receipt"
    and d: "get_aligned_batch_from_s3_with_multiple_urls F (ta_data_pointer a)
      = Inr (map (verification_data \<circ> nonced_verification_data) batch)"
    using posted_batch_downloaded [OF assms(2) _ assms(7) tc] assms(1,5) by blast
  show ?thesis
  proof (intro exI conjI allI impI, rule a, rule d)
    fix A engine limit g proofs g' current ls blk
    assume f: "fetch A F engine limit g = (Ret (Inr proofs), g')" and c: "Agg_Backend.get_block_number F = Inr current"
      and l: "new_batch_logs F (last_aggregated_block g) current = Inr (map (\<lambda>(p, b). (p, Some b)) ls)" "sorted (map snd ls)"
        "(ta_data_pointer a, blk) \<in> set ls"
    obtain b' where "Agg_Backend.fetch_loop A F engine limit current (map (\<lambda>(p, b). (p, Some b)) ls) [] = Some (proofs, b')"
      "g' = g\<lparr>last_aggregated_block := b'\<rparr>"
      by (rule fetch_Ret [OF f]) (use c l(1) that in simp)
    with fetch_loop_takes [OF _ l(2,3) d]
    show "(\<forall>e \<in> set batch. \<forall>p. candidate A F engine (verification_data (nonced_verification_data e)) = Some p \<longrightarrow> p \<in> set proofs)
       \<or> last_aggregated_block g' \<le> blk"
      using compatible_candidate by fastforce
  qed
qed

section \<open>An aggregator for the sample batch\<close>

definition sample_download :: fetch_env where
  "sample_download = (sample_fetch 7)
     \<lparr>http_get := (\<lambda>j _. if j = 0 then Inl ''timeout'' else
          Inr \<lparr> Agg_Backend.http_response.http_status = 200, http_reason = [], Agg_Backend.http_response.http_body = Inr sample_bytes \<rparr>),
      cbor_batch := (\<lambda>b. case cbor_deserialize rfc8949 b of Some vds \<Rightarrow> Inr vds | None \<Rightarrow> Inl ''cbor'')\<rparr>"

lemma sample_delivers: "delivers sample_download u sample_bytes"
  unfolding delivers_def
  by (rule conjI, simp add: sample_download_def sample_fetch_def, rule exI [of _ 1])
    (simp add: sample_download_def sample_fetch_def RETRY_MAX_TIMES_def is_success_def get_aligned_batch_from_s3_retryable_def)

lemma sample_downloads: "downloads_batch rfc8949 sample_download sample_env [sample_entry 1 0 600000]"
proof -
  have "mt_root sample_merkle t = [0]" for t by (simp add: sample_merkle_def)
  moreover have "cbor_batch sample_download b = Inr vds" if "cbor_deserialize rfc8949 b = Some vds" for b vds
    using that by (simp add: sample_download_def)
  moreover have "backon (s3_driver sample_download)"
    using std_backon.backon_axioms by (simp add: sample_download_def sample_fetch_def)
  ultimately show ?thesis
    using sample_delivers sample_url by (simp add: downloads_batch_def Let_def)
qed

theorem posted_batch_is_collected_witness:
  "\<exists>a n receipt. create_new_task_retryable (eth sample_env) a n = Inr receipt \<and>
     get_aligned_batch_from_s3_with_multiple_urls sample_download (ta_data_pointer a) = Inr [Batch_Queue.sample_vd]"
proof -
  obtain t where t: "finalize_batch sample_env 5 [sample_entry 1 0 600000] 1 sample_flying = (Ret (Inr ()), t)"
    using sample_finalizes by blast
  show ?thesis
    using posted_batch_is_collected [of "{sample_env}", OF _ rfc8949.cbor_format_axioms _ sample_reach_in_flight _ t sample_downloads]
      sample_batch_pq by auto
qed

end
