(* ===== verification/Task_Sender.thy ===== *)
theory Task_Sender
  imports Sdk_Account Agg_Backend
begin

text \<open>
  The load generator (\<open>task-sender\<close>): creation and funding of wallets, loading of proofs from files, and the senders that
  submit bursts of proofs without end. Files, wallets, Ethereum and random numbers are the parameters of
  \<open>sender_env\<close>. A result \<open>None\<close> or \<open>Panicked\<close> is a panic.
\<close>

section \<open>Arguments\<close>

datatype NetworkNameArg = TS_Devnet | TS_Holesky | TS_HoleskyStage | TS_Mainnet

definition network_name_from_str :: "string \<Rightarrow> string + NetworkNameArg" where
  "network_name_from_str s =
     (if s = ''devnet'' then Inr TS_Devnet
      else if s = ''holesky'' then Inr TS_Holesky
      else if s = ''holesky-stage'' then Inr TS_HoleskyStage
      else if s = ''mainnet'' then Inr TS_Mainnet
      else Inl ''Unknown network. Possible values: devnet, holesky, holesky-stage, mainnet'')"

record NetworkArg =
  network :: "NetworkNameArg option"
  aligned_service_manager_address :: "string option"
  batcher_payment_service_address :: "string option"
  batcher_url :: "string option"

definition network_from_arg :: "NetworkArg \<Rightarrow> Network option" where
  "network_from_arg network_arg =
     (let processed =
        (if batcher_url network_arg \<noteq> None \<or> aligned_service_manager_address network_arg \<noteq> None \<or>
            batcher_payment_service_address network_arg \<noteq> None
         then None else network network_arg) in
      case processed of
        None \<Rightarrow>
          Option.bind (aligned_service_manager_address network_arg) (\<lambda>manager.
          Option.bind (batcher_payment_service_address network_arg) (\<lambda>payment.
          map_option (CustomNet manager payment) (batcher_url network_arg)))
      | Some TS_Devnet \<Rightarrow> Some Devnet
      | Some TS_Holesky \<Rightarrow> Some Holesky
      | Some TS_HoleskyStage \<Rightarrow> Some HoleskyStage
      | Some TS_Mainnet \<Rightarrow> Some Mainnet)"

record GenerateAndFundWalletsArgs =
  gw_eth_rpc_url :: string
  funding_wallet_private_key :: string
  number_of_wallets :: nat
  amount_to_deposit :: string
  amount_to_deposit_to_aligned :: string
  gw_private_keys_filepath :: string
  gw_network :: NetworkArg

datatype InfiniteProofType =
    Inf_GnarkGroth16 string
  | Inf_Risc0 string string "string option"
  | Inf_SP1 string string "string option"

record SendInfiniteProofsArgs =
  si_eth_rpc_url :: string
  burst_size :: nat
  burst_time_secs :: u64
  si_max_fee :: string
  si_network :: NetworkArg
  si_private_keys_filepath :: string
  si_random_address :: bool
  proof_type :: InfiniteProofType

section \<open>Environment\<close>

text \<open>
  \<open>choose_multiple\<close> draws from a slice with the generator, whose draws are numbered, as are random
  addresses. The lines of a file are read one by one, each possibly with an error; the entries of a directory are those that could be
  read. The order of a set of names is that of the library.
\<close>

record ('t, 'r, 'w) sender_env =
  rpc_provider :: "string \<Rightarrow> string + unit"
  get_chainid :: "string + u256"
  parse_ether_str :: "string \<Rightarrow> u256 option"
  dec_str :: "string \<Rightarrow> u256 option"
  open_lines :: "string \<Rightarrow> string + (string + string) list"
  create_key_file :: "string \<Rightarrow> string + unit"
  write_key_line :: "nat \<Rightarrow> string + unit"
  wallet_from_str :: "string \<Rightarrow> 'w option"
  new_wallet :: "nat \<Rightarrow> 'w"
  secret_key_hex :: "'w \<Rightarrow> string"
  address_of :: "'w \<Rightarrow> address"
  transfer :: "'w \<Rightarrow> address \<Rightarrow> u256 \<Rightarrow> string + (string + unit)"
  wallet_sdk :: "'w \<Rightarrow> u64 \<Rightarrow> 't sdk_env"
  wallet_account :: "'w \<Rightarrow> u64 \<Rightarrow> 'r account_env"
  choose_multiple :: "nat \<Rightarrow> nat \<Rightarrow> VerificationData list \<Rightarrow> VerificationData list"
  random_addr :: "nat \<Rightarrow> address"
  fs_read_file :: "string \<Rightarrow> string + bytes"
  read_dir :: "string \<Rightarrow> string + string list"
  is_dir :: "string \<Rightarrow> bool"
  is_file :: "string \<Rightarrow> bool"
  to_str :: "string \<Rightarrow> string option"
  file_stem :: "string \<Rightarrow> string option"
  extension :: "string \<Rightarrow> string option"
  dir_join :: "string \<Rightarrow> string \<Rightarrow> string"
  set_order :: "string list \<Rightarrow> string list"

text \<open>What the funding of wallets leaves behind: transfers, deposits, and the file of the keys.\<close>

record funds =
  transfers :: "(address \<times> u256) list"
  deposits :: "(address \<times> u256) list"
  key_file :: "string list"

section \<open>Wallets\<close>

definition deposit_for ::
    "('t, 'r, 'w) sender_env \<Rightarrow> 'w \<Rightarrow> u64 \<Rightarrow> u256 \<Rightarrow> Network \<Rightarrow> funds \<Rightarrow> (PaymentError + 'r, funds) res" where
  "deposit_for X w chain amount net s =
     or_panic (deposit_to_aligned (wallet_sdk X w chain) (wallet_account X w chain) amount net) s (\<lambda>r.
       (Ret r, case r of Inl _ \<Rightarrow> s | Inr _ \<Rightarrow> s\<lparr>deposits := deposits s @ [(address_of X w, amount)]\<rparr>))"

text \<open>
  On the development network: a task per line of the file deposits for the wallet of that line; the tasks are awaited at
  the end, and one that panicked then panics the command. A line that is no key panics at once.
\<close>

fun deposit_lines ::
    "('t, 'r, 'w) sender_env \<Rightarrow> u64 \<Rightarrow> u256 \<Rightarrow> Network \<Rightarrow> (string + string) list \<Rightarrow> bool \<Rightarrow> funds \<Rightarrow> (unit, funds) res" where
  "deposit_lines X chain amount net [] failed s = (if failed then Panicked else Ret (), s)"
| "deposit_lines X chain amount net (line # rest) failed s =
     (case line of
        Inl _ \<Rightarrow> (Panicked, s)
      | Inr private_key_str \<Rightarrow>
        or_panic (wallet_from_str X (trim private_key_str)) s (\<lambda>w.
          case deposit_for X w chain amount net s of
            (Ret _, s) \<Rightarrow> deposit_lines X chain amount net rest failed s
          | (_, s) \<Rightarrow> deposit_lines X chain amount net rest True s))"

definition fund_devnet ::
    "('t, 'r, 'w) sender_env \<Rightarrow> GenerateAndFundWalletsArgs \<Rightarrow> Network \<Rightarrow> funds \<Rightarrow> (unit, funds) res" where
  "fund_devnet X args net s =
     (case rpc_provider X (gw_eth_rpc_url args) of
        Inl _ \<Rightarrow> (Ret (), s)
      | Inr _ \<Rightarrow>
        (case get_chainid X of
           Inl _ \<Rightarrow> (Ret (), s)
         | Inr chain \<Rightarrow>
           or_panic (parse_ether_str X (amount_to_deposit_to_aligned args)) s (\<lambda>amount.
             case open_lines X (gw_private_keys_filepath args) of
               Inl _ \<Rightarrow> (Ret (), s)
             | Inr lines \<Rightarrow>
               if lines = [] then (Ret (), s)
               else or_panic (as_u64 chain) s (\<lambda>chain. deposit_lines X chain amount net lines False s))))"

text \<open>
  On the other networks: \<open>i\<close> counts the wallets that are left, so the wallet of a round is that of \<open>k\<close>. A transfer that
  was sent but is not confirmed is reported and the round goes on.
\<close>

fun fund_new_wallets ::
    "('t, 'r, 'w) sender_env \<Rightarrow> GenerateAndFundWalletsArgs \<Rightarrow> Network \<Rightarrow> 'w \<Rightarrow> u64 \<Rightarrow> nat \<Rightarrow> nat \<Rightarrow> funds \<Rightarrow> (unit, funds) res" where
  "fund_new_wallets X args net funding_wallet chain k 0 s = (Ret (), s)"
| "fund_new_wallets X args net funding_wallet chain k (Suc i) s =
     (let w = new_wallet X k in
      or_panic (parse_ether_str X (amount_to_deposit args)) s (\<lambda>amount.
      case transfer X funding_wallet (address_of X w) amount of
        Inl _ \<Rightarrow> (Ret (), s)
      | Inr pending \<Rightarrow>
        let s = (case pending of Inl _ \<Rightarrow> s | Inr _ \<Rightarrow> s\<lparr>transfers := transfers s @ [(address_of X w, amount)]\<rparr>) in
        or_panic (parse_ether_str X (amount_to_deposit_to_aligned args)) s (\<lambda>amount.
        and_then (deposit_for X w chain amount net s) (\<lambda>r s.
          case r of
            Inl _ \<Rightarrow> (Ret (), s)
          | Inr _ \<Rightarrow>
            let s = (case write_key_line X k of
                       Inl _ \<Rightarrow> s | Inr _ \<Rightarrow> s\<lparr>key_file := key_file s @ [secret_key_hex X w]\<rparr>) in
            fund_new_wallets X args net funding_wallet chain (k + 1) i s))))"

definition generate_and_fund_wallets ::
    "('t, 'r, 'w) sender_env \<Rightarrow> GenerateAndFundWalletsArgs \<Rightarrow> funds \<Rightarrow> (unit, funds) res" where
  "generate_and_fund_wallets X args s =
     or_panic (network_from_arg (gw_network args)) s (\<lambda>net.
     if net = Devnet then fund_devnet X args net s
     else case rpc_provider X (gw_eth_rpc_url args) of
        Inl _ \<Rightarrow> (Ret (), s)
      | Inr _ \<Rightarrow>
        (case get_chainid X of
           Inl _ \<Rightarrow> (Ret (), s)
         | Inr chain \<Rightarrow>
           (case create_key_file X (gw_private_keys_filepath args) of
              Inl _ \<Rightarrow> (Ret (), s)
            | Inr _ \<Rightarrow>
              let s = s\<lparr>key_file := []\<rparr> in
              or_panic (wallet_from_str X (funding_wallet_private_key args)) s (\<lambda>funding_wallet.
              or_panic (as_u64 chain) s (\<lambda>chain.
              fund_new_wallets X args net funding_wallet chain 0 (number_of_wallets args) s)))))"

section \<open>Senders\<close>

fun load_lines :: "('t, 'r, 'w) sender_env \<Rightarrow> u256 \<Rightarrow> (string + string) list \<Rightarrow> 'w list \<Rightarrow> (string + ('w \<times> u64) list) option" where
  "load_lines X chain [] senders =
     (if senders = [] then Some (Inl ''No wallets in file'')
      else map_option (\<lambda>c. Inr (map (\<lambda>w. (w, c)) senders)) (as_u64 chain))"
| "load_lines X chain (line # rest) senders =
     (case line of
        Inl _ \<Rightarrow> Some (Inl ''Could not read line from private keys file'')
      | Inr private_key_str \<Rightarrow>
        (case wallet_from_str X (trim private_key_str) of
           None \<Rightarrow> Some (Inl ''Invalid private key'')
         | Some w \<Rightarrow> if as_u64 chain = None then None else load_lines X chain rest (senders @ [w])))"

definition load_senders_from_file ::
    "('t, 'r, 'w) sender_env \<Rightarrow> string \<Rightarrow> string \<Rightarrow> (string + ('w \<times> u64) list) option" where
  "load_senders_from_file X eth_rpc_url private_keys_filepath =
     (case rpc_provider X eth_rpc_url of
        Inl _ \<Rightarrow> Some (Inl ''Could not connect to eth rpc'')
      | Inr _ \<Rightarrow>
        (case get_chainid X of
           Inl _ \<Rightarrow> Some (Inl ''Could not get chain id'')
         | Inr chain \<Rightarrow>
           (case open_lines X private_keys_filepath of
              Inl e \<Rightarrow> Some (Inl (''Could not open private keys file: '' @ e))
            | Inr lines \<Rightarrow> load_lines X chain lines [])))"

section \<open>Proofs from files\<close>

definition load_groth16_proof_files ::
    "('t, 'r, 'w) sender_env \<Rightarrow> string \<Rightarrow> string \<Rightarrow> VerificationData option" where
  "load_groth16_proof_files X dir_path base_name =
     (case (fs_read_file X (dir_join X dir_path (base_name @ ''.proof'')),
            fs_read_file X (dir_join X dir_path (base_name @ ''.pub'')),
            fs_read_file X (dir_join X dir_path (base_name @ ''.vk''))) of
        (Inr p, Inr public_input, Inr vk) \<Rightarrow>
          Some \<lparr> proving_system = GnarkGroth16Bn254, proof_bytes = p, pub_input = Some public_input,
                 verification_key = Some vk, vm_program_code = None, proof_generator_addr = 0 \<rparr>
      | _ \<Rightarrow> None)"

definition contains :: "string \<Rightarrow> string \<Rightarrow> bool" where
  "contains s t = (\<exists>i \<in> {0..length s}. take (length t) (drop i s) = t)"

text \<open>A directory whose path names it a Groth16 one; a path that is no text panics.\<close>

definition groth16_dir :: "('t, 'r, 'w) sender_env \<Rightarrow> string \<Rightarrow> bool option" where
  "groth16_dir X path =
     (if is_dir X path then map_option (\<lambda>s. contains s ''groth16'') (to_str X path) else Some False)"

definition load_subdirectory :: "('t, 'r, 'w) sender_env \<Rightarrow> string \<Rightarrow> VerificationData list" where
  "load_subdirectory X proof_folder_dir =
     (case read_dir X proof_folder_dir of
        Inl _ \<Rightarrow> []
      | Inr paths \<Rightarrow>
        (case filter (is_file X) paths of
           [] \<Rightarrow> []
         | first_file # _ \<Rightarrow>
           (case file_stem X first_file of
              None \<Rightarrow> []
            | Some base_name \<Rightarrow>
              (case load_groth16_proof_files X proof_folder_dir base_name of None \<Rightarrow> [] | Some vd \<Rightarrow> [vd]))))"

fun load_entries :: "('t, 'r, 'w) sender_env \<Rightarrow> string list \<Rightarrow> VerificationData list option" where
  "load_entries X [] = Some []"
| "load_entries X (path # rest) =
     Option.bind (groth16_dir X path) (\<lambda>is_groth16.
     map_option (\<lambda>vds. (if is_groth16 then load_subdirectory X path else []) @ vds) (load_entries X rest))"

definition load_from_subdirectories :: "('t, 'r, 'w) sender_env \<Rightarrow> string \<Rightarrow> VerificationData list option" where
  "load_from_subdirectories X dir_path =
     (case read_dir X dir_path of Inl _ \<Rightarrow> None | Inr paths \<Rightarrow> load_entries X paths)"

definition load_from_flat_directory :: "('t, 'r, 'w) sender_env \<Rightarrow> string \<Rightarrow> VerificationData list" where
  "load_from_flat_directory X dir_path =
     (let base_names =
        (case read_dir X dir_path of
           Inl _ \<Rightarrow> []
         | Inr paths \<Rightarrow>
           remdups (List.map_filter (file_stem X)
             (filter (\<lambda>path. is_file X path \<and> extension X path = Some ''proof'') paths))) in
      List.map_filter (load_groth16_proof_files X dir_path) (set_order X base_names))"

fun any_groth16 :: "('t, 'r, 'w) sender_env \<Rightarrow> string list \<Rightarrow> bool option" where
  "any_groth16 X [] = Some False"
| "any_groth16 X (path # rest) =
     Option.bind (groth16_dir X path) (\<lambda>found. if found then Some True else any_groth16 X rest)"

definition get_verification_data_from_proofs_folder ::
    "('t, 'r, 'w) sender_env \<Rightarrow> string \<Rightarrow> address \<Rightarrow> VerificationData list option" where
  "get_verification_data_from_proofs_folder X dir_path default_addr =
     Option.bind (case read_dir X dir_path of Inl _ \<Rightarrow> Some False | Inr paths \<Rightarrow> any_groth16 X paths) (\<lambda>has_groth16_subdirs.
     map_option (map (\<lambda>data. data\<lparr>proof_generator_addr := default_addr\<rparr>))
       (if has_groth16_subdirs then load_from_subdirectories X dir_path
        else Some (load_from_flat_directory X dir_path)))"

definition load_zkvm_verification_data ::
    "('t, 'r, 'w) sender_env \<Rightarrow> ProvingSystemId \<Rightarrow> string \<Rightarrow> string \<Rightarrow> string option \<Rightarrow> string + VerificationData list" where
  "load_zkvm_verification_data X ps proof_path program_path pub_path =
     (case fs_read_file X proof_path of
        Inl e \<Rightarrow> Inl e
      | Inr p \<Rightarrow>
        (case fs_read_file X program_path of
           Inl e \<Rightarrow> Inl e
         | Inr vm_program \<Rightarrow>
           Inr [\<lparr> proving_system = ps, proof_bytes = p,
                  pub_input = (case pub_path of
                      None \<Rightarrow> None
                    | Some f \<Rightarrow> (case fs_read_file X f of Inl _ \<Rightarrow> None | Inr i \<Rightarrow> Some i)),
                  verification_key = None, vm_program_code = Some vm_program, proof_generator_addr = 0 \<rparr>]))"

definition load_risc0_verification_data ::
    "('t, 'r, 'w) sender_env \<Rightarrow> string \<Rightarrow> string \<Rightarrow> string option \<Rightarrow> string + VerificationData list" where
  "load_risc0_verification_data X proof_path bin_path pub_path =
     load_zkvm_verification_data X Risc0 proof_path bin_path pub_path"

definition load_sp1_verification_data ::
    "('t, 'r, 'w) sender_env \<Rightarrow> string \<Rightarrow> string \<Rightarrow> string option \<Rightarrow> string + VerificationData list" where
  "load_sp1_verification_data X proof_path elf_path pub_path =
     load_zkvm_verification_data X SP1 proof_path elf_path pub_path"

section \<open>Bursts\<close>

definition addressed ::
    "('t, 'r, 'w) sender_env \<Rightarrow> 'w \<Rightarrow> bool \<Rightarrow> nat \<Rightarrow> VerificationData \<Rightarrow> VerificationData" where
  "addressed X wallet random_address pos sample =
     (if random_address then sample\<lparr>proof_generator_addr := random_addr X pos\<rparr>
      else if proof_generator_addr sample = 0 then sample\<lparr>proof_generator_addr := address_of X wallet\<rparr>
      else sample)"

text \<open>
  The loop that fills a burst need not end: it draws until the burst is full. \<open>k\<close> numbers the draws of the generator.
\<close>

partial_function (option) fill_burst ::
    "('t, 'r, 'w) sender_env \<Rightarrow> 'w \<Rightarrow> VerificationData list \<Rightarrow> nat \<Rightarrow> bool \<Rightarrow> nat \<Rightarrow> VerificationData list
     \<Rightarrow> VerificationData list option" where
  "fill_burst X wallet proofs amount random_address k result =
     (if length result < amount then
        let samples = choose_multiple X k (amount - length result) proofs in
        fill_burst X wallet proofs amount random_address (k + 1)
          (result @ map (\<lambda>(i, sample). addressed X wallet random_address i sample)
                      (enumerate (length result) samples))
      else Some result)"

text \<open>One round of a sender, up to the pause before the next; \<open>None\<close> is the panic that ends the sender's task.\<close>

definition sender_round ::
    "('t, 'r, 'w) sender_env \<Rightarrow> 'w \<times> u64 \<Rightarrow> VerificationData list \<Rightarrow> Network \<Rightarrow> nat \<Rightarrow> u256 \<Rightarrow> bool \<Rightarrow> nat
     \<Rightarrow> (SubmitError + AlignedVerificationData) list option" where
  "sender_round X sender proofs net amount fee random_address k =
     (case get_nonce_from_batcher (wallet_sdk X (fst sender) (snd sender)) net (address_of X (fst sender)) of
        Inl _ \<Rightarrow> None
      | Inr n \<Rightarrow>
        Option.bind (fill_burst X (fst sender) proofs amount random_address k []) (\<lambda>verification_data_to_send.
        submit_multiple (wallet_sdk X (fst sender) (snd sender)) net verification_data_to_send fee n))"

datatype 'w sending =
    NotSending string
  | Sending "('w \<times> u64) list" "VerificationData list" Network nat u64 u256 bool

definition load_proofs ::
    "('t, 'r, 'w) sender_env \<Rightarrow> InfiniteProofType \<Rightarrow> ('w \<times> u64) list \<Rightarrow> (string + VerificationData list) option" where
  "load_proofs X pt senders =
     (case pt of
        Inf_GnarkGroth16 proofs_dir \<Rightarrow>
          map_option (\<lambda>data. if data = [] then Inl ''Verification data empty, not continuing'' else Inr data)
            (get_verification_data_from_proofs_folder X proofs_dir (address_of X (fst (hd senders))))
      | Inf_Risc0 proof_path bin_path pub_path \<Rightarrow> Some (load_risc0_verification_data X proof_path bin_path pub_path)
      | Inf_SP1 proof_path elf_path pub_path \<Rightarrow> Some (load_sp1_verification_data X proof_path elf_path pub_path))"

definition send_infinite_proofs :: "('t, 'r, 'w) sender_env \<Rightarrow> SendInfiniteProofsArgs \<Rightarrow> 'w sending option" where
  "send_infinite_proofs X args =
     Option.bind (network_from_arg (si_network args)) (\<lambda>net.
     if net = Holesky then Some (NotSending ''Network not supported this infinite proof sender'')
     else Option.bind (load_senders_from_file X (si_eth_rpc_url args) (si_private_keys_filepath args)) (\<lambda>r.
       case r of
         Inl e \<Rightarrow> Some (NotSending e)
       | Inr senders \<Rightarrow>
         Option.bind (load_proofs X (proof_type args) senders) (\<lambda>d.
         case d of
           Inl e \<Rightarrow> Some (NotSending e)
         | Inr proofs \<Rightarrow>
           map_option (\<lambda>fee. Sending senders proofs net (burst_size args) (burst_time_secs args) fee
                               (si_random_address args))
             (dec_str X (si_max_fee args)))))"

end
