(* ===== verification/Task_Sender_Correct.thy ===== *)
theory Task_Sender_Correct
  imports Task_Sender Client_Correct
begin

text \<open>
  The load generator keeps the keys of the wallets it deposits for, and its senders fill every burst.
\<close>

section \<open>Properties of the funding\<close>

text \<open>
  The rounds that deposited are the first ones, and their keys are in the file when they could be written. A round
  that was cut short by a failed deposit has sent its transfer, but its key is in no file.
\<close>

lemma fund_round:
  assumes "fund_new_wallets X args net fw chain k (Suc i) s = (Ret (), t)"
  obtains (stop) "deposits t = deposits s" "key_file t = key_file s"
  | (again) u where "fund_new_wallets X args net fw chain (k + 1) i u = (Ret (), t)"
      "map fst (deposits u) = map fst (deposits s) @ [address_of X (new_wallet X k)]"
      "key_file u = key_file s @ (if isl (write_key_line X k) then [] else [secret_key_hex X (new_wallet X k)])"
proof -
  let ?w = "new_wallet X k"
  obtain a where a: "parse_ether_str X (amount_to_deposit args) = Some a"
    using assms by (auto simp: Let_def or_panic_Ret_iff)
  show ?thesis
  proof (cases "transfer X fw (address_of X ?w) a")
    case (Inl e)
    then show ?thesis using assms a stop by (simp add: Let_def)
  next
    case (Inr pending)
    let ?s = "case pending of Inl _ \<Rightarrow> s | Inr _ \<Rightarrow> s\<lparr>transfers := transfers s @ [(address_of X ?w, a)]\<rparr>"
    have same: "deposits ?s = deposits s" "key_file ?s = key_file s" by (simp_all split: sum.splits)
    obtain d where d: "parse_ether_str X (amount_to_deposit_to_aligned args) = Some d"
      using assms a Inr by (auto simp: Let_def or_panic_Ret_iff)
    obtain r where r: "deposit_to_aligned (wallet_sdk X ?w chain) (wallet_account X ?w chain) d net = Some r"
      using assms a Inr d
      by (cases "deposit_to_aligned (wallet_sdk X ?w chain) (wallet_account X ?w chain) d net")
        (simp_all add: Let_def deposit_for_def)
    show ?thesis
    proof (cases r)
      case (Inl e)
      then show ?thesis using assms a \<open>transfer X fw _ a = _\<close> d r same stop by (simp add: Let_def deposit_for_def)
    next
      case (Inr v)
      let ?u = "?s\<lparr>deposits := deposits ?s @ [(address_of X ?w, d)]\<rparr>"
      show ?thesis
        by (rule again [of "case write_key_line X k of Inl _ \<Rightarrow> ?u
              | Inr _ \<Rightarrow> ?u\<lparr>key_file := key_file ?u @ [secret_key_hex X ?w]\<rparr>"])
          (use assms a \<open>transfer X fw _ a = _\<close> d r Inr same in
            \<open>cases "write_key_line X k"; simp add: Let_def deposit_for_def\<close>)+
    qed
  qed
qed

lemma fund_new_wallets_keys:
  assumes "fund_new_wallets X args net fw chain k i s = (Ret (), t)"
  shows "\<exists>m \<le> i. map fst (deposits t) = map fst (deposits s) @ map (address_of X \<circ> new_wallet X) [k..<k + m] \<and>
    key_file t = key_file s @ map (secret_key_hex X \<circ> new_wallet X)
      (filter (\<lambda>j. \<not> isl (write_key_line X j)) [k..<k + m])"
  using assms
proof (induction i arbitrary: k s)
  case (Suc i)
  from Suc.prems show ?case
  proof (cases rule: fund_round)
    case stop
    then show ?thesis by (intro exI [of _ 0]) simp
  next
    case (again u)
    obtain m where m: "m \<le> i" "map fst (deposits t) = map fst (deposits u) @ map (address_of X \<circ> new_wallet X) [k + 1..<k + 1 + m]"
      "key_file t = key_file u @ map (secret_key_hex X \<circ> new_wallet X)
        (filter (\<lambda>j. \<not> isl (write_key_line X j)) [k + 1..<k + 1 + m])"
      using Suc.IH [OF again(1)] by blast
    have "[k..<k + Suc m] = k # [k + 1..<k + 1 + m]" by (simp add: upt_conv_Cons)
    then show ?thesis using m again by (intro exI [of _ "Suc m"]) simp
  qed
qed simp

section \<open>Properties of the senders\<close>

text \<open>What \<open>choose_multiple\<close> promises: as many elements as asked for, or all of them.\<close>

locale slice_choice =
  fixes X :: "('t, 'r, 'w) sender_env"
  assumes choose_length: "length (choose_multiple X k n xs) = min n (length xs)"
    and choose_subset: "set (choose_multiple X k n xs) \<subseteq> set xs"
begin

text \<open>With something to draw from, the loop ends with a burst of exactly the size asked for.\<close>

lemma fill_burst_returns:
  assumes "data \<noteq> []" "length result \<le> amount"
    and "\<And>i. i < length result \<Longrightarrow> \<exists>v \<in> set data. result ! i = addressed X w rnd i v"
  shows "\<exists>b. fill_burst X w data amount rnd k result = Some b \<and> length b = amount \<and>
    (\<forall>i < amount. \<exists>v \<in> set data. b ! i = addressed X w rnd i v)"
  using assms
proof (induction "amount - length result" arbitrary: result k rule: less_induct)
  case less
  let ?s = "choose_multiple X k (amount - length result) data"
  let ?r = "result @ map (\<lambda>(i, sample). addressed X w rnd i sample) (enumerate (length result) ?s)"
  show ?case
  proof (cases "length result < amount")
    case False
    then show ?thesis using less.prems by (subst fill_burst.simps) auto
  next
    case True
    have len: "length ?s = min (amount - length result) (length data)" by (rule choose_length)
    have "0 < length data" using less.prems(1) by simp
    then have l: "length result < length ?r" "length ?r \<le> amount" using True len by simp_all
    have "\<exists>v \<in> set data. ?r ! i = addressed X w rnd i v" if "i < length ?r" for i
    proof (cases "i < length result")
      case True
      then show ?thesis using less.prems(3) by (simp add: nth_append)
    next
      case False
      then have "i - length result < length ?s" using that by simp
      then have "?s ! (i - length result) \<in> set data" using choose_subset nth_mem by blast
      then show ?thesis using False \<open>i - length result < length ?s\<close> by (auto simp: nth_append nth_enumerate_eq)
    qed
    then have "\<exists>b. fill_burst X w data amount rnd (k + 1) ?r = Some b \<and> length b = amount \<and>
      (\<forall>i < amount. \<exists>v \<in> set data. b ! i = addressed X w rnd i v)"
      using less.hyps [of ?r "k + 1"] less.prems(1) l by (metis diff_less_mono2 True)
    then show ?thesis using True by (subst fill_burst.simps) (simp add: Let_def)
  qed
qed

end

lemma load_lines_nonempty: "load_lines X chain lines senders = Some (Inr r) \<Longrightarrow> r \<noteq> []"
  by (induction lines arbitrary: senders) (auto split: sum.splits option.splits if_splits)

lemma load_proofs_nonempty: "load_proofs X pt senders = Some (Inr data) \<Longrightarrow> data \<noteq> []"
  by (auto simp: load_proofs_def load_risc0_verification_data_def load_sp1_verification_data_def
      load_zkvm_verification_data_def split: InfiniteProofType.splits if_splits sum.splits)

text \<open>
  Claim C38. No sender hangs while it fills a burst: when the command starts its senders, there is at least one wallet and
  at least one proof, and whatever the random draws are, every round of every sender fills a burst of exactly the requested size with
  proofs that were loaded, each for a random address, its own address or that of the wallet, as
  requested. (With no proof the loop that fills the burst would not end.)
\<close>

theorem bursts_are_filled:
  assumes "slice_choice X" "send_infinite_proofs X args = Some (Sending senders data net n secs fee rnd)"
  shows "senders \<noteq> [] \<and> data \<noteq> [] \<and>
    (\<forall>w k. \<exists>b. fill_burst X w data n rnd k [] = Some b \<and> length b = n \<and>
       (\<forall>i < n. \<exists>v \<in> set data. b ! i = addressed X w rnd i v))"
proof -
  obtain r where r: "load_senders_from_file X (si_eth_rpc_url args) (si_private_keys_filepath args) = Some r"
    using assms(2) by (auto simp: send_infinite_proofs_def bind_eq_Some_conv split: if_splits)
  obtain ss where ss: "r = Inr ss"
    using assms(2) r by (cases r) (auto simp: send_infinite_proofs_def bind_eq_Some_conv split: if_splits)
  obtain d where d: "load_proofs X (proof_type args) ss = Some d"
    using assms(2) r ss by (auto simp: send_infinite_proofs_def bind_eq_Some_conv split: if_splits)
  obtain vds where vds: "d = Inr vds"
    using assms(2) r ss d by (cases d) (auto simp: send_infinite_proofs_def bind_eq_Some_conv split: if_splits)
  have s: "load_senders_from_file X (si_eth_rpc_url args) (si_private_keys_filepath args) = Some (Inr senders)"
    "load_proofs X (proof_type args) senders = Some (Inr data)"
    using assms(2) r ss d vds by (auto simp: send_infinite_proofs_def bind_eq_Some_conv split: if_splits)
  have "senders \<noteq> []"
    using s(1) load_lines_nonempty [of X _ _ "[]" senders] by (auto simp: load_senders_from_file_def split: sum.splits)
  moreover note data = load_proofs_nonempty [OF s(2)]
  ultimately show ?thesis using slice_choice.fill_burst_returns [OF assms(1) data, of "[]"] by simp
qed

definition sample_payer :: "unit account_env" where
  "sample_payer = \<lparr> send_tx = (\<lambda>_. Inr (Inr (Some ()))), call_user_balances = (\<lambda>_. Inr 0),
     call_user_unlock_block = (\<lambda>_. Inr 0), rpc_chain_id = Inr 1, hex_of = (\<lambda>_. []), path_join = (@),
     cbor_avd = (\<lambda>_. None), json_pretty = (\<lambda>_. []), create_file = (\<lambda>_. Inr ()), write_file = (\<lambda>_ b. (b, Inr ())) \<rparr>"

definition sample_sender :: "(binary_node, unit, nat) sender_env" where
  "sample_sender = \<lparr> rpc_provider = (\<lambda>_. Inr ()), get_chainid = Inr 1, parse_ether_str = (\<lambda>_. Some 10), dec_str = (\<lambda>_. Some 100),
     open_lines = (\<lambda>_. Inr [Inr ''key'']), create_key_file = (\<lambda>_. Inr ()), write_key_line = (\<lambda>_. Inr ()),
     wallet_from_str = (\<lambda>s. Some (length s)), new_wallet = id, secret_key_hex = (\<lambda>_. ''00''), address_of = of_nat,
     transfer = (\<lambda>_ _ _. Inr (Inr ())), wallet_sdk = (\<lambda>_ _. sample_sdk), wallet_account = (\<lambda>_ _. sample_payer),
     choose_multiple = (\<lambda>_ n xs. take n xs), random_addr = of_nat, fs_read_file = (\<lambda>_. Inr [1]),
     read_dir = (\<lambda>_. Inr []), is_dir = (\<lambda>_. False), is_file = (\<lambda>_. True), to_str = Some, file_stem = Some,
     extension = (\<lambda>_. None), dir_join = (@), set_order = id \<rparr>"

interpretation sample_choice: slice_choice sample_sender
  by unfold_locales (auto simp: sample_sender_def dest: in_set_takeD)

definition sample_sender_args :: SendInfiniteProofsArgs where
  "sample_sender_args = \<lparr> si_eth_rpc_url = ''rpc'', burst_size = 3, burst_time_secs = 1, si_max_fee = ''100'',
     si_network = \<lparr> network = Some TS_Devnet, aligned_service_manager_address = None,
       batcher_payment_service_address = None, batcher_url = None \<rparr>,
     si_private_keys_filepath = ''keys'', si_random_address = False, proof_type = Inf_SP1 ''p'' ''e'' None \<rparr>"

definition sample_loaded :: VerificationData where
  "sample_loaded = \<lparr> proving_system = SP1, proof_bytes = [1], pub_input = None, verification_key = None,
     vm_program_code = Some [1], proof_generator_addr = 0 \<rparr>"

lemma sample_sending:
  "send_infinite_proofs sample_sender sample_sender_args =
   Some (Sending [(3, 1)] [sample_loaded] Devnet 3 1 100 False)"
proof -
  have "trim ''key'' = ''key''" by code_simp
  moreover have "as_u64 1 = Some 1" by (simp add: as_u64_def)
  ultimately show ?thesis
    by (simp add: send_infinite_proofs_def sample_sender_args_def network_from_arg_def load_senders_from_file_def
        sample_sender_def load_proofs_def load_sp1_verification_data_def load_zkvm_verification_data_def
        sample_loaded_def)
qed

theorem bursts_are_filled_witness:
  "\<exists>b. fill_burst sample_sender 3 [sample_loaded] 3 False 0 [] = Some b \<and> length b = 3 \<and>
     b ! 2 = addressed sample_sender 3 False 2 sample_loaded"
proof -
  have "\<exists>b. fill_burst sample_sender 3 [sample_loaded] 3 False 0 [] = Some b \<and> length b = 3 \<and>
     (\<forall>i < 3. \<exists>v \<in> set [sample_loaded]. b ! i = addressed sample_sender 3 False i v)"
    using bursts_are_filled [OF sample_choice.slice_choice_axioms sample_sending] by blast
  then show ?thesis by auto
qed

end
