(* ===== verification/Spec2Isabelle.thy ===== *)
theory Spec2Isabelle
  imports Batcher_New Unit_Tests Proof_Pool Nonce_Gap Locks End_To_End Cli_Correct Agg_Found Batch_Delivery Task_Sender_Correct
begin

text \<open>
  A verification development for Aligned Layer.

  \<^bold>\<open>The program.\<close> Users send proofs to the \<^emph>\<open>batcher\<close>
  (\<open>crates/batcher\<close>) over a WebSocket, with the \<^emph>\<open>SDK\<close> (\<open>crates/sdk\<close>). The batcher checks each message,
  verifies the proof and queues it by fee. On a new block it extracts a batch that pays for itself, uploads it,
  creates a task on Ethereum with the Merkle root of the batch, charges the users' balances in the payment
  service, and answers every client with the path of its proof. The \<^emph>\<open>operators\<close> (\<open>operator\<close>) download the batch,
  check its root, verify its proofs again and sign. The \<^emph>\<open>aggregator\<close> (\<open>aggregation_mode\<close>)
  collects the proofs of past batches, aggregates them recursively inside a zkVM and publishes their commitments
  in a blob, from which the SDK proves the inclusion of a proof.

  \<^bold>\<open>Shared theories.\<close>
  \<^item> \<open>Prelude\<close>: widths, checked arithmetic, outcomes (\<open>Ret\<close>, \<open>Panicked\<close>, \<open>Stuck\<close>) and lemmas on lists and
    multisets. \<open>Priority_Queue\<close>: the locale \<open>priority_queue\<close> for the crate of that name and its list
    implementation. \<open>Merkle_Tree\<close>: the locales \<open>merkle_nodes\<close> and \<open>merkle_tree\<close> for \<open>lambdaworks\<close>, and the
    padded binary tree that satisfies them.
  \<^item> \<open>Sdk_Types\<close> (\<open>sdk/src/common\<close>), \<open>Fees\<close> (fee and gas computations of batcher and SDK), \<open>Errors\<close>
    (\<open>batcher/src/types/errors.rs\<close>), \<open>Retry\<close> (\<open>batcher/src/retry\<close>, \<open>eth\<close>; locale \<open>backon\<close>), \<open>Zk_Utils\<close> (\<open>zk_utils\<close>
    and the verifiers), \<open>Cbor\<close> (the wire form of the proofs, by their \<open>serde\<close> attributes; locale \<open>cbor_format\<close> for the
    CBOR library, with an encoder and decoder for RFC 8949 as its instance).

  \<^bold>\<open>The batcher\<close> (\<open>batcher/src/lib.rs\<close>). \<open>Batch_Queue\<close> (entries, priorities, extraction; locale \<open>batch_pq\<close>),
  \<open>Batcher_State\<close> (\<open>struct Batcher\<close> as the record \<open>batcher\<close>, its environment \<open>batcher_env\<close>, the cached user states),
  \<open>Submit_Proof\<close> (\<open>handle_submit_proof_msg\<close> and the queries), \<open>New_Block\<close> (\<open>handle_new_block\<close> down to the answers),
  \<open>Listeners\<close> (connections, block listener, polling). Every operation passes the state explicitly and returns an
  outcome. \<open>Accounting\<close> relates the cached user states to the queue; \<open>Submit_Correct\<close>, \<open>New_Block_Correct\<close>,
  \<open>Batch_Cycle\<close>, \<open>Finalize_Correct\<close>, \<open>Handler_Frames\<close>, \<open>Listeners_Correct\<close> hold the theorems on the
  handlers: what is queued has passed every check, and a handler that runs undisturbed (a queue with room, prices in range, nothing
  in flight that the step could upset) keeps the books balanced; such a block posts, restores or flushes but never loses a proof.
  \<open>Queue_Effects\<close> says what every handler does to the queue from any state and with any outcome (locale
  \<open>batcher_queue\<close>). \<open>Batcher_System\<close> is the step relation over all handlers, with a batch possibly in flight:
  \<open>batcher_step\<close> has every step (evictions, panics, changes of the verifiers and unlocked balances at any time),
  \<open>calm_step\<close> the undisturbed ones, for which the books balance; what is said of reachable states is said of the former
  (\<open>batcher_reachable\<close>) unless the statement names the latter (\<open>calm_reachable\<close>), or, for the list of disabled verifiers,
  the runs that leave it alone while a batch is in flight (\<open>steadily_reachable\<close>). \<open>Proof_Pool\<close>
  specifies the batcher as an abstract pool of proofs and shows that every run refines it. \<open>Batcher_New\<close> is \<open>Batcher::new\<close> with the configuration (\<open>config\<close>): what it
  accepts leaves room for every proof that is then queued. \<open>Eviction\<close> shows where an eviction waits for itself, \<open>Nonce_Gap\<close> how
  one costs a user the next proof. \<open>Locks\<close> has
  the lock acquisitions of the tasks as programs over a lock table and shows which combinations are free of
  deadlock and which are not. \<open>Sample_Env\<close> is a concrete environment for the witnesses, and \<open>Unit_Tests\<close> runs the
  repository's own unit tests on the model.

  \<^bold>\<open>The SDK.\<close> \<open>Sdk_Client\<close> (\<open>communication\<close>, \<open>verification_layer\<close>), \<open>Sdk_Account\<close> (payments, files).
  \<open>Client_Correct\<close>: only verified inclusions are reported, a burst is recorded and answered completely.
  \<open>End_To_End\<close> composes batcher and client: the messages a block sends are accepted by the client.
  \<open>Cli\<close> is the command line client (\<open>cli/src/main.rs\<close>) on top of it; \<open>Cli_Correct\<close>: an assembled proof reaches its
  verifier, only verified submissions are reported, and funds are withdrawn only after their time. \<open>Task_Sender\<close> is the
  load generator (\<open>task-sender\<close>); \<open>Task_Sender_Correct\<close> (locale \<open>slice_choice\<close>): its bursts are filled, and the keys of the
  wallets it deposits for are kept.

  \<^bold>\<open>The operators.\<close> \<open>Operator_Ffi\<close> has the Rust libraries behind the C interface (\<open>operator/*/lib\<close>), with pointers,
  lengths, panics and what Rust leaves undefined, the Go functions that call them, and the operator's check of one
  proof, shown to agree with the batcher's. \<open>Operator_Codec\<close> is the decoding of a batch in Go (\<open>codec_mode.go\<close>,
  \<open>verification_data.go\<close>, \<open>common/proving_systems.go\<close>; locales \<open>go_cbor\<close> and \<open>go_sizes\<close> for the libraries): what the
  batcher wrote is decoded to its proofs, and whatever is decoded is well-formed. \<open>Operator\<close> is the handling of a batch (\<open>operator/pkg\<close>): download, Merkle
  check, verification, signature. \<open>Vetted\<close> shows by induction over the steps of the batcher that every proof it holds
  was verified, and is of an enabled system as long as the list is left alone during a posting, \<open>Wire_Fits\<close> that the batch in flight is written within the limit its proofs were
  chosen by; \<open>Operator_Correct\<close> composes them: an operator
  signs only what it has verified, and it signs a batch the batcher posts unless it sees a system of the batch disabled.

  \<^bold>\<open>The aggregation mode.\<close> \<open>Agg_Types\<close> (commitments and hashes in the SDK, the aggregator and the guest programs),
  \<open>Agg_Blob\<close> (layout and decoding of the blob), \<open>Agg_Programs\<close> (guest programs, chunked aggregation), \<open>Agg_Sound\<close> (an
  aggregated proof commits to exactly the proofs that went in; locales \<open>sp1_prover\<close>, \<open>risc0_prover\<close>), \<open>Agg_Backend\<close>
  (\<open>aggregation_mode/src/backend\<close>: download, fetching, submission, the stored block), \<open>Agg_Client\<close> (\<open>sdk/src/beacon.rs\<close>
  and \<open>aggregation_layer\<close>). \<open>Agg_Service\<close>: what a fetch takes, that a block over the limit is never passed, and
  that a transaction publishes exactly the fetched proofs. \<open>Agg_Found\<close>: a status \<open>Verified\<close> is backed by the chain
  (locale \<open>hex_text\<close> for the encoding), and every published proof is found by the SDK. \<open>Batch_Delivery\<close> composes the
  aggregator with the batcher: every proof of a posted batch is collected, now or in a later run.

  \<^bold>\<open>Conventions.\<close> 256-bit arithmetic of \<open>ethers\<close> panics on overflow and is checked; \<open>u128\<close>, \<open>u64\<close> and \<open>u16\<close> are words;
  lengths and indices are natural numbers. A panic is \<open>None\<close> or \<open>Panicked\<close>; a task that waits for a lock it
  holds is \<open>Stuck\<close>. Loops over the queue are \<open>partial_function (option)\<close> and shown to return; other loops
  terminate by their measure, so no fuel is needed. Code outside the repository (Ethereum, CBOR, hashes,
  signatures, provers, object store) is a field of an environment record; what is relied on is a locale
  or a named hypothesis, and concrete instances show that it can hold.

  \<^bold>\<open>Not modelled.\<close> Logging, telemetry, the providers themselves and the parsers of the configuration; the
  parsing of the command line; the two commands of the load generator that only start processes or sockets; the
  registration, subscription and bookkeeping of the operators; the other Go services, the contracts, the explorer and
  the examples. Interleavings inside a handler are considered only for the locks (\<open>Locks\<close>): the step relation takes handlers as atomic, and
  the batch cycle as the steps (extraction, finalization with what follows it) between which other handlers run. The theorems on
  \<open>handle_new_block\<close> as a whole are about a block that no other handler interrupts.
\<close>

end
